(* ===== verification/ADnED_Prelude.thy ===== *)
theory ADnED_Prelude
  imports Main "HOL-Library.Word" "HOL-Library.Signed_Division"
begin

text \<open>
  Shared vocabulary of the development: the machine integers of the driver, the faults a C++
  statement can raise where the language leaves the behaviour undefined, loops that may stop
  with a fault, and counting buffers.

  \<^item> \<open>epicsUInt32\<close> and \<open>epicsInt32\<close> (C++ \<open>int\<close>) are both \<open>32 word\<close>. A C++ conversion between
    them keeps the bits; an unsigned comparison is \<open><\<close>, a signed one goes through \<open>sint\<close>.
    Addition, subtraction and multiplication act on the bits (two's complement), whichever
    operand type C++ picks.
  \<^item> A heap access outside its block, a read through a null pointer and an integer division that
    traps are values of type \<open>fault\<close>, so that "this code never does it" is a provable statement.
\<close>

section \<open>Collections of rules\<close>

named_theorems res_simps \<open>evaluation of fault-propagating code\<close>

section \<open>Machine integers\<close>

type_synonym u32 = "32 word"
type_synonym i32 = "32 word"
type_synonym u64 = "64 word"

datatype fault = Oob_Read | Oob_Write | Div_Trap | Null_Deref | Uninit_Deref

type_synonym 'a res = "fault + 'a"

text \<open>Signed \<open>/\<close> and \<open>%\<close> of C++: they truncate towards zero and trap on a zero divisor and on
  \<open>INT_MIN / -1\<close>. Unsigned \<open>/\<close> traps on a zero divisor.\<close>

definition c_trap :: "i32 \<Rightarrow> i32 \<Rightarrow> bool" where
  "c_trap a b \<longleftrightarrow> b = 0 \<or> (sint a = - (2 ^ 31) \<and> sint b = -1)"

definition c_div :: "i32 \<Rightarrow> i32 \<Rightarrow> i32 res" where
  "c_div a b = (if c_trap a b then Inl Div_Trap else Inr (word_of_int (sint a sdiv sint b)))"

definition c_mod :: "i32 \<Rightarrow> i32 \<Rightarrow> i32 res" where
  "c_mod a b = (if c_trap a b then Inl Div_Trap else Inr (word_of_int (sint a smod sint b)))"

definition c_udiv :: "u32 \<Rightarrow> u32 \<Rightarrow> u32 res" where
  "c_udiv a b = (if b = 0 then Inl Div_Trap else Inr (a div b))"

lemma sint32_if: "sint (w :: 32 word) = (if uint w < 2 ^ 31 then uint w else uint w - 2 ^ 32)"
proof -
  have b: "0 \<le> uint w" "uint w < 2 ^ 32"
    using uint_lt2p [of w] by simp_all
  have s: "sint w = (uint w + 2 ^ 31) mod 2 ^ 32 - 2 ^ 31"
    by (simp add: sint_uint signed_take_bit_eq_take_bit_shift take_bit_eq_mod)
  show ?thesis
  proof (cases "uint w < 2 ^ 31")
    case True
    with b have "(uint w + 2 ^ 31) mod 2 ^ 32 = uint w + 2 ^ 31"
      by (intro mod_pos_pos_trivial) simp_all
    with s True show ?thesis by simp
  next
    case False
    have "(uint w + 2 ^ 31) mod 2 ^ 32 = (uint w + 2 ^ 31 - 2 ^ 32) mod 2 ^ 32"
      using mod_add_self2 [of "uint w + 2 ^ 31 - 2 ^ 32" "2 ^ 32"] by (simp add: add.commute)
    also have "\<dots> = uint w + 2 ^ 31 - 2 ^ 32"
      using b False by (intro mod_pos_pos_trivial) simp_all
    finally show ?thesis using s False by simp
  qed
qed

lemma uint32_lt: "uint (w :: 32 word) < 2 ^ 32"
  using uint_lt2p [of w] by simp

lemma sint32_nonneg: "0 \<le> sint (w :: 32 word) \<longleftrightarrow> uint w < 2 ^ 31"
  using uint32_lt [of w] by (auto simp: sint32_if)

lemma sint32_pos_uint: "0 \<le> sint (w :: 32 word) \<Longrightarrow> sint w = uint w"
  by (simp add: sint32_nonneg) (simp add: sint32_if)

lemma uint32_of_int: "0 \<le> k \<Longrightarrow> k < 2 ^ 32 \<Longrightarrow> uint (word_of_int k :: 32 word) = k"
  by (simp add: uint_word_of_int take_bit_int_eq_self)

lemma sint32_of_int: "0 \<le> k \<Longrightarrow> k < 2 ^ 31 \<Longrightarrow> sint (word_of_int k :: 32 word) = k"
  by (simp add: sint32_if uint32_of_int)

lemma uint32_add:
  "uint (a :: 32 word) + uint b < 2 ^ 32 \<Longrightarrow> uint (a + b) = uint a + uint b"
  by (simp add: uint_word_ariths)

lemma uint32_diff:
  assumes "uint (b :: 32 word) \<le> uint a"
  shows "uint (a - b) = uint a - uint b"
proof -
  have "uint a - uint b < 2 ^ 32"
    using uint32_lt [of a] uint_ge_0 [of b] by linarith
  with assms show ?thesis
    by (simp add: uint_word_ariths)
qed

lemma uint32_mult:
  "uint (a :: 32 word) * uint b < 2 ^ 32 \<Longrightarrow> uint (a * b) = uint a * uint b"
  by (simp add: uint_word_ariths)

lemma sint32_of_nat: "k < 2 ^ 31 \<Longrightarrow> sint (of_nat k :: 32 word) = int k"
  using sint32_of_int [of "int k"] by simp

lemma unat32_of_nat: "k < 2 ^ 32 \<Longrightarrow> unat (of_nat k :: 32 word) = k"
  by (simp add: unat_of_nat)

lemmas uint32_simps = uint32_add uint32_diff uint32_mult uint32_of_int

lemma c_mod_nonneg:
  assumes "0 \<le> sint a" "0 < sint b"
  shows "c_mod a b = Inr (word_of_int (sint a mod sint b))"
proof -
  have "b \<noteq> 0" using assms(2) by auto
  with assms show ?thesis
    by (auto simp: c_mod_def c_trap_def signed_modulo_int_def signed_divide_int_def sgn_if
        minus_mult_div_eq_mod)
qed

lemma c_div_nonneg:
  assumes "0 \<le> sint a" "0 < sint b"
  shows "c_div a b = Inr (word_of_int (sint a div sint b))"
proof -
  have "b \<noteq> 0" using assms(2) by auto
  with assms show ?thesis
    by (auto simp: c_div_def c_trap_def signed_divide_int_def sgn_if)
qed

lemma zdiv_le_dividend: "0 \<le> a \<Longrightarrow> 0 < b \<Longrightarrow> a div b \<le> (a :: int)"
  using zdiv_mono2 [of a 1 b] by simp

lemma uint_le_unat: "uint (a :: 32 word) \<le> uint (b :: 32 word) \<longleftrightarrow> unat a \<le> unat b"
  using word_le_def [of a b] word_le_nat_alt [of a b] by blast

lemma below_last_iff:
  assumes "0 \<le> sint (ti :: u32)" "unat (sz :: u32) < 2 ^ 31"
  shows "sint ti < sint (sz - 1) \<longleftrightarrow> unat ti + 1 < unat sz"
proof (cases "sz = 0")
  case True
  then show ?thesis using assms by simp
next
  case False
  then have sz: "1 \<le> unat sz" by (simp add: unat_gt_0 Suc_le_eq)
  then have "sz - 1 = of_nat (unat sz - 1)" by (simp add: of_nat_diff)
  then have "sint (sz - 1) = int (unat sz - 1)" using assms(2) by (simp only:) (rule sint32_of_nat, simp)
  moreover have "sint ti = int (unat ti)" using sint32_pos_uint [OF assms(1)] by simp
  ultimately show ?thesis using sz by (simp only: of_nat_less_iff) linarith
qed

lemma sint32_add:
  assumes "0 \<le> sint (a :: 32 word)" "0 \<le> sint b" "sint a + sint b < 2 ^ 31"
  shows "sint (a + b) = sint a + sint b"
proof -
  have "uint (a + b) = uint a + uint b"
    using assms by (intro uint32_add) (simp add: sint32_pos_uint)
  then show ?thesis using assms by (simp add: sint32_pos_uint sint32_if [of "a + b"])
qed

lemma sint32_mult:
  assumes "0 \<le> sint (a :: 32 word)" "0 \<le> sint b" "sint a * sint b < 2 ^ 31"
  shows "sint (a * b) = sint a * sint b"
proof -
  have "uint (a * b) = uint a * uint b"
    using assms by (intro uint32_mult) (simp add: sint32_pos_uint)
  then show ?thesis using assms by (simp add: sint32_pos_uint sint32_if [of "a * b"])
qed

lemma le_zdiv_iff: "0 < w \<Longrightarrow> a \<le> m div w \<longleftrightarrow> a * w \<le> (m :: int)"
proof
  assume "0 < w" "a \<le> m div w"
  then have "a * w \<le> m div w * w" by (intro mult_right_mono) simp_all
  also have "\<dots> \<le> m" using \<open>0 < w\<close> div_mult_mod_eq [of m w] pos_mod_sign [of w m] by linarith
  finally show "a * w \<le> m" .
next
  assume "0 < w" "a * w \<le> m"
  then show "a \<le> m div w" using zdiv_mono1 [of "a * w" m w] by simp
qed

section \<open>Fault-propagating code\<close>

definition res_bind :: "'a res \<Rightarrow> ('a \<Rightarrow> 'b res) \<Rightarrow> 'b res" where
  "res_bind m f = (case m of Inl e \<Rightarrow> Inl e | Inr x \<Rightarrow> f x)"

lemma res_bind_simps [simp, res_simps]:
  "res_bind (Inl e) f = Inl e"
  "res_bind (Inr x) f = f x"
  by (simp_all add: res_bind_def)

lemma res_bind_Inr_iff: "res_bind m f = Inr y \<longleftrightarrow> (\<exists>x. m = Inr x \<and> f x = Inr y)"
  by (cases m) simp_all

lemma res_bind_InrE [elim]:
  assumes "res_bind m f = Inr y"
  obtains x where "m = Inr x" "f x = Inr y"
  using assms by (auto simp: res_bind_Inr_iff)

text \<open>A \<open>for\<close> loop whose body may fault: the first fault ends it.\<close>

fun foldR :: "('a \<Rightarrow> 's \<Rightarrow> 's res) \<Rightarrow> 'a list \<Rightarrow> 's \<Rightarrow> 's res" where
  "foldR f [] s = Inr s"
| "foldR f (x # xs) s = res_bind (f x s) (foldR f xs)"

lemma foldR_append: "foldR f (xs @ ys) s = res_bind (foldR f xs s) (foldR f ys)"
  by (induction xs arbitrary: s) (auto simp: res_bind_def split: sum.split)

lemma foldR_total:
  assumes "\<And>x s. x \<in> set xs \<Longrightarrow> I s \<Longrightarrow> \<exists>s'. f x s = Inr s' \<and> I s'" "I s"
  shows "\<exists>s'. foldR f xs s = Inr s' \<and> I s'"
  using assms
proof (induction xs arbitrary: s)
  case Nil
  then show ?case by simp
next
  case (Cons x xs)
  from Cons.prems obtain s1 where s1: "f x s = Inr s1" "I s1" by fastforce
  have "\<exists>s'. foldR f xs s1 = Inr s' \<and> I s'"
    using Cons.prems(1) s1(2) by (intro Cons.IH) auto
  with s1(1) show ?case by simp
qed

lemma foldR_inv:
  assumes "\<And>x s s'. x \<in> set xs \<Longrightarrow> I s \<Longrightarrow> f x s = Inr s' \<Longrightarrow> I s'" "I s" "foldR f xs s = Inr s'"
  shows "I s'"
  using assms
proof (induction xs arbitrary: s)
  case Nil
  then show ?case by simp
next
  case (Cons x xs)
  from Cons.prems(3) obtain s1 where s1: "f x s = Inr s1" "foldR f xs s1 = Inr s'" by auto
  have "I s1" using Cons.prems(1) [OF _ Cons.prems(2) s1(1)] by simp
  then show ?case using Cons.prems(1) s1(2) by (intro Cons.IH) auto
qed

text \<open>A loop whose body, under an invariant, computes a pure function is the pure fold.\<close>

text \<open>A loop whose body appends to a trace.\<close>

lemma foldR_trace:
  assumes "\<And>x s ks. x \<in> set xs \<Longrightarrow> I ks s \<Longrightarrow> \<exists>s'. f x s = Inr s' \<and> I (ks @ g x) s'" "I ks s"
  shows "\<exists>s'. foldR f xs s = Inr s' \<and> I (ks @ concat (map g xs)) s'"
  using assms
proof (induction xs arbitrary: s ks)
  case Nil
  then show ?case by simp
next
  case (Cons x xs)
  obtain s1 where s1: "f x s = Inr s1" "I (ks @ g x) s1" using Cons.prems by fastforce
  have "\<exists>s'. foldR f xs s1 = Inr s' \<and> I ((ks @ g x) @ concat (map g xs)) s'"
    using Cons.prems(1) s1(2) by (intro Cons.IH) auto
  with s1(1) show ?case by simp
qed

section \<open>Counting buffers\<close>

text \<open>\<open>p[i]++\<close> on a block of \<open>epicsUInt32\<close>: the index is the value C++ computes for it; outside
  the block the store is a fault. The count wraps.\<close>

definition bump :: "int \<Rightarrow> u32 list \<Rightarrow> u32 list res" where
  "bump i xs = (if 0 \<le> i \<and> nat i < length xs then Inr (xs[nat i := xs ! nat i + 1])
                else Inl Oob_Write)"

definition mem_read :: "int \<Rightarrow> 'a list \<Rightarrow> 'a res" where
  "mem_read i xs = (if 0 \<le> i \<and> nat i < length xs then Inr (xs ! nat i) else Inl Oob_Read)"

text \<open>\<open>memset(p + from, 0, n * sizeof(epicsUInt32))\<close>.\<close>

definition mem_zero :: "int \<Rightarrow> nat \<Rightarrow> u32 list \<Rightarrow> u32 list res" where
  "mem_zero from n xs =
     (if 0 \<le> from \<and> nat from + n \<le> length xs
      then Inr (take (nat from) xs @ replicate n 0 @ drop (nat from + n) xs)
      else Inl Oob_Write)"

definition bumps :: "nat list \<Rightarrow> u32 list \<Rightarrow> u32 list" where
  "bumps ks xs = fold (\<lambda>k ys. ys[k := ys ! k + 1]) ks xs"

lemma bumps_simps [simp]:
  "bumps [] xs = xs"
  "bumps (k # ks) xs = bumps ks (xs[k := xs ! k + 1])"
  "bumps (ks @ ls) xs = bumps ls (bumps ks xs)"
  by (simp_all add: bumps_def)

lemma length_bumps [simp]: "length (bumps ks xs) = length xs"
  by (induction ks arbitrary: xs) simp_all

lemma nth_bumps:
  "k < length xs \<Longrightarrow> bumps ks xs ! k = xs ! k + of_nat (count_list ks k)"
  by (induction ks arbitrary: xs) (auto simp: nth_list_update)

lemma bump_ok: "0 \<le> i \<Longrightarrow> i < int (length xs) \<Longrightarrow> bump i xs = Inr (bumps [nat i] xs)"
  by (simp add: bump_def nat_less_iff)

lemma length_bump: "bump i xs = Inr ys \<Longrightarrow> length ys = length xs"
  by (auto simp: bump_def split: if_splits)

lemma mem_zero_ok:
  "0 \<le> from \<Longrightarrow> nat from + n \<le> length xs \<Longrightarrow>
   \<exists>ys. mem_zero from n xs = Inr ys \<and> length ys = length xs \<and>
     (\<forall>k < length xs. ys ! k = (if nat from \<le> k \<and> k < nat from + n then 0 else xs ! k))"
  by (auto simp: mem_zero_def nth_append)

text \<open>A cell of a segment that starts at \<open>a\<close>, in a block whose size fits an \<open>int\<close>.\<close>

lemma cell_bump:
  assumes "uint (a :: u32) + uint (k :: u32) < int (length xs)" "int (length xs) \<le> 2 ^ 31"
  shows "bump (sint (a + k)) xs = Inr (bumps [nat (uint a + uint k)] xs)"
    "bump (uint (a + k)) xs = Inr (bumps [nat (uint a + uint k)] xs)"
proof -
  have lt: "uint a + uint k < 2 ^ 31" using assms by (rule less_le_trans)
  then have u: "uint (a + k) = uint a + uint k" by (intro uint32_add) simp
  have "sint (a + k) = uint a + uint k" using lt by (simp add: sint32_if u)
  with u assms show "bump (sint (a + k)) xs = Inr (bumps [nat (uint a + uint k)] xs)"
    "bump (uint (a + k)) xs = Inr (bumps [nat (uint a + uint k)] xs)"
    by (simp_all add: bump_ok del: bumps_simps)
qed

lemma cell_bump_nat:
  assumes "unat (a :: u32) + k < length xs" "length xs \<le> 2 ^ 31"
  shows "bump (sint (a + of_nat k)) xs = Inr (bumps [unat a + k] xs)"
    "bump (uint (a + of_nat k)) xs = Inr (bumps [unat a + k] xs)"
proof -
  have k: "uint (of_nat k :: 32 word) = int k" using assms uint32_of_int [of "int k"] by simp
  have "int (unat a + k) < int (length xs)" "int (length xs) \<le> int (2 ^ 31)"
    using assms by (simp_all only: of_nat_less_iff of_nat_le_iff)
  moreover have "nat (uint a + int k) = unat a + k" by (simp add: nat_add_distrib)
  ultimately show "bump (sint (a + of_nat k)) xs = Inr (bumps [unat a + k] xs)"
    "bump (uint (a + of_nat k)) xs = Inr (bumps [unat a + k] xs)"
    using cell_bump [of a "of_nat k" xs] by (simp_all add: k del: bumps_simps)
qed

end
