(* ===== verification/Float64.thy ===== *)
theory Float64
  imports ADnED_Prelude Complex_Main "HOL-Library.Log_Nat"
begin

text \<open>
  The C++ \<open>double\<close> (\<open>epicsFloat64\<close>) as the driver uses it: IEEE 754 binary64 with
  round-to-nearest-even. A finite value is its exact rational; every arithmetic operation
  computes the exact result and rounds it with \<open>rnd\<close>. Comparisons with a NaN are false. The sign
  of a zero is not kept: no statement of the driver can observe it. The conversion of a value
  that does not fit the target integer type is undefined in C++; it is the value of a parameter
  \<open>ud\<close> of the conversion, so that a theorem can say that it does not matter.
\<close>

section \<open>Values and rounding\<close>

datatype f64 = NaN | PInf | NInf | Fin rat

definition pow2 :: "int \<Rightarrow> rat" where
  "pow2 k = (if 0 \<le> k then 2 ^ nat k else inverse (2 ^ nat (- k)))"

text \<open>The binary exponent of a positive rational.\<close>

definition rexp :: "rat \<Rightarrow> int" where
  "rexp r = (let (n, d) = quotient_of r; k = bitlen n - bitlen d
             in if pow2 k \<le> r then k else k - 1)"

definition round_even :: "rat \<Rightarrow> int" where
  "round_even x = (let f = \<lfloor>x\<rfloor>; d = x - of_int f in
     if d < 1 / 2 then f else if 1 / 2 < d then f + 1 else if even f then f else f + 1)"

definition rnd :: "rat \<Rightarrow> f64" where
  "rnd r = (if r = 0 then Fin 0
     else let e = max (rexp \<bar>r\<bar>) (-1022); u = pow2 (e - 52);
              v = of_int (round_even (r / u)) * u
          in if pow2 1024 \<le> v then PInf else if v \<le> - pow2 1024 then NInf else Fin v)"

section \<open>Arithmetic, comparison, conversion\<close>

fun fneg :: "f64 \<Rightarrow> f64" where
  "fneg NaN = NaN"
| "fneg PInf = NInf"
| "fneg NInf = PInf"
| "fneg (Fin r) = Fin (- r)"

fun fadd :: "f64 \<Rightarrow> f64 \<Rightarrow> f64" where
  "fadd (Fin a) (Fin b) = rnd (a + b)"
| "fadd NaN _ = NaN"
| "fadd _ NaN = NaN"
| "fadd PInf NInf = NaN"
| "fadd NInf PInf = NaN"
| "fadd PInf _ = PInf"
| "fadd NInf _ = NInf"
| "fadd _ PInf = PInf"
| "fadd _ NInf = NInf"

definition fsub :: "f64 \<Rightarrow> f64 \<Rightarrow> f64" where
  "fsub a b = fadd a (fneg b)"

text \<open>The infinity with the sign of a product or quotient whose sign is that of \<open>s\<close>.\<close>

definition finf :: "rat \<Rightarrow> f64" where
  "finf s = (if s = 0 then NaN else if 0 < s then PInf else NInf)"

fun fsgn :: "f64 \<Rightarrow> rat" where
  "fsgn NaN = 0"
| "fsgn PInf = 1"
| "fsgn NInf = -1"
| "fsgn (Fin r) = sgn r"

fun fmul :: "f64 \<Rightarrow> f64 \<Rightarrow> f64" where
  "fmul (Fin a) (Fin b) = rnd (a * b)"
| "fmul a b = finf (fsgn a * fsgn b)"

fun fdiv :: "f64 \<Rightarrow> f64 \<Rightarrow> f64" where
  "fdiv (Fin a) (Fin b) = (if b = 0 then finf (sgn a) else rnd (a / b))"
| "fdiv NaN _ = NaN"
| "fdiv _ NaN = NaN"
| "fdiv (Fin a) _ = Fin 0"
| "fdiv PInf (Fin b) = (if b < 0 then NInf else PInf)"
| "fdiv NInf (Fin b) = (if b < 0 then PInf else NInf)"
| "fdiv _ _ = NaN"

fun fle :: "f64 \<Rightarrow> f64 \<Rightarrow> bool" where
  "fle (Fin a) (Fin b) \<longleftrightarrow> a \<le> b"
| "fle NaN _ \<longleftrightarrow> False"
| "fle _ NaN \<longleftrightarrow> False"
| "fle NInf _ \<longleftrightarrow> True"
| "fle _ PInf \<longleftrightarrow> True"
| "fle _ _ \<longleftrightarrow> False"

definition flt :: "f64 \<Rightarrow> f64 \<Rightarrow> bool" where
  "flt a b \<longleftrightarrow> fle a b \<and> \<not> fle b a"

fun ffloor :: "f64 \<Rightarrow> f64" where
  "ffloor (Fin r) = Fin (of_int \<lfloor>r\<rfloor>)"
| "ffloor x = x"

definition f_of_u32 :: "u32 \<Rightarrow> f64" where
  "f_of_u32 w = Fin (of_int (uint w))"

definition f_of_i32 :: "i32 \<Rightarrow> f64" where
  "f_of_i32 w = Fin (of_int (sint w))"

text \<open>Truncation towards zero, of a value that fits.\<close>

definition rtrunc :: "rat \<Rightarrow> int" where
  "rtrunc r = (if 0 \<le> r then \<lfloor>r\<rfloor> else \<lceil>r\<rceil>)"

fun f_to_u32 :: "(f64 \<Rightarrow> u32) \<Rightarrow> f64 \<Rightarrow> u32" where
  "f_to_u32 ud (Fin r) =
     (if 0 \<le> rtrunc r \<and> rtrunc r < 2 ^ 32 then word_of_int (rtrunc r) else ud (Fin r))"
| "f_to_u32 ud x = ud x"

fun f_to_i32 :: "(f64 \<Rightarrow> i32) \<Rightarrow> f64 \<Rightarrow> i32" where
  "f_to_i32 ud (Fin r) =
     (if - (2 ^ 31) \<le> rtrunc r \<and> rtrunc r < 2 ^ 31 then word_of_int (rtrunc r) else ud (Fin r))"
| "f_to_i32 ud x = ud x"

text \<open>The correctly rounded square root. The integer square root is taken of a value scaled by
  a power of four so large that the bits beyond the result's 53 decide the rounding; a sticky
  half stands for the non-zero rest.\<close>

function isqrt :: "int \<Rightarrow> int" where
  "isqrt n = (if n \<le> 0 then 0
     else let r = 2 * isqrt (n div 4) in if (r + 1)\<^sup>2 \<le> n then r + 1 else r)"
  by pat_completeness auto
termination
  by (relation "measure nat") auto

declare isqrt.simps [simp del]

definition sqrt_rat :: "rat \<Rightarrow> f64" where
  "sqrt_rat r = (let (n, d) = quotient_of r; k = nat (60 + max 0 (bitlen d - bitlen n));
       x = r * 4 ^ k; s = isqrt \<lfloor>x\<rfloor>;
       t = (if of_int (s\<^sup>2) = x then 0 else 1 / 2)
     in rnd ((of_int s + t) / 2 ^ k))"

fun fsqrt :: "f64 \<Rightarrow> f64" where
  "fsqrt (Fin r) = (if r < 0 then NaN else if r = 0 then Fin 0 else sqrt_rat r)"
| "fsqrt PInf = PInf"
| "fsqrt _ = NaN"

section \<open>Facts\<close>

text \<open>\<open>isqrt\<close> is the integer square root.\<close>

lemma isqrt_spec: "0 \<le> n \<Longrightarrow> 0 \<le> isqrt n \<and> (isqrt n)\<^sup>2 \<le> n \<and> n < (isqrt n + 1)\<^sup>2"
proof (induction n rule: isqrt.induct)
  case (1 n)
  show ?case
  proof (cases "n = 0")
    case True
    then show ?thesis by (simp add: isqrt.simps [of 0])
  next
    case False
    define r where "r = isqrt (n div 4)"
    have IH: "0 \<le> r" "r\<^sup>2 \<le> n div 4" "n div 4 < (r + 1)\<^sup>2"
      using 1 False by (simp_all add: r_def)
    have lo: "(2 * r)\<^sup>2 \<le> n" using IH(2) by (simp add: power_mult_distrib)
    have "n div 4 + 1 \<le> (r + 1)\<^sup>2" using IH(3) by simp
    moreover have "(2 * r + 1 + 1)\<^sup>2 = 4 * (r + 1)\<^sup>2" by (simp add: power2_eq_square algebra_simps)
    ultimately have hi: "n < (2 * r + 1 + 1)\<^sup>2" by linarith
    have "isqrt n = (if (2 * r + 1)\<^sup>2 \<le> n then 2 * r + 1 else 2 * r)"
      using False 1(2) by (subst isqrt.simps) (simp add: r_def Let_def)
    then show ?thesis using IH(1) lo hi by auto
  qed
qed

lemma pow2_pos [simp]: "0 < pow2 k"
  by (simp add: pow2_def)

lemma pow2_nonneg [simp]: "0 \<le> pow2 k"
  using pow2_pos [of k] by (rule less_imp_le)

lemma pow2_ne_0 [simp]: "pow2 k \<noteq> 0"
  by (simp add: pow2_def)

lemma pow2_of_int: "0 \<le> k \<Longrightarrow> pow2 k = of_int (2 ^ nat k)"
  by (simp add: pow2_def)

lemma pow2_powi: "pow2 k = 2 powi k"
  by (simp add: pow2_def power_int_def power_one_over inverse_eq_divide)

lemma pow2_add: "pow2 (a + b) = pow2 a * pow2 b"
  by (simp add: pow2_powi power_int_add)

lemma pow2_mono: "a \<le> b \<Longrightarrow> pow2 a \<le> pow2 b"
  by (simp add: pow2_powi power_int_increasing)

lemma pow2_less_iff: "pow2 a < pow2 b \<longleftrightarrow> a < b"
  by (metis linorder_not_le pow2_mono pow2_powi power_int_strict_increasing one_less_numeral_iff semiring_norm(76))

lemma rexp_bounds:
  assumes "0 < r"
  shows "pow2 (rexp r) \<le> r" "r < pow2 (rexp r + 1)"
proof -
  obtain n d where q: "quotient_of r = (n, d)" by (cases "quotient_of r")
  have d: "0 < d" using q by (rule quotient_of_denom_pos)
  have r: "r = of_int n / of_int d" using q by (rule quotient_of_div)
  have n: "0 < n" using assms d by (simp add: r zero_less_divide_iff)
  define k where "k = bitlen n - bitlen d"
  have bn: "2 ^ nat (bitlen n - 1) \<le> n" "n < 2 ^ nat (bitlen n)"
    using n bitlen_bounds [of n] by auto
  have bd: "2 ^ nat (bitlen d - 1) \<le> d" "d < 2 ^ nat (bitlen d)"
    using d bitlen_bounds [of d] by auto
  have bl: "1 \<le> bitlen n" "1 \<le> bitlen d"
    using n d by (simp_all add: bitlen_def floorlog_def)
  have nb: "pow2 (bitlen n - 1) \<le> of_int n" "of_int n < pow2 (bitlen n)"
    using bn bl by (simp_all only: diff_ge_0_iff_ge order_trans [OF zero_le_one] pow2_of_int of_int_le_iff of_int_less_iff)
  have db: "pow2 (bitlen d - 1) \<le> of_int d" "of_int d < pow2 (bitlen d)"
    using bd bl by (simp_all only: diff_ge_0_iff_ge order_trans [OF zero_le_one] pow2_of_int of_int_le_iff of_int_less_iff)
  have up: "r < pow2 (k + 1)"
  proof -
    have "of_int n < pow2 (k + 1) * pow2 (bitlen d - 1)"
      using nb(2) by (simp add: k_def flip: pow2_add)
    also have "\<dots> \<le> pow2 (k + 1) * of_int d"
      using db(1) by (simp add: mult_left_mono)
    finally show ?thesis using d by (simp add: r field_simps)
  qed
  have lo: "pow2 (k - 1) \<le> r"
  proof -
    have "pow2 (k - 1) * of_int d \<le> pow2 (k - 1) * pow2 (bitlen d)"
      using db(2) by (simp add: mult_left_mono)
    also have "\<dots> \<le> of_int n"
      using nb(1) by (simp add: k_def flip: pow2_add)
    finally show ?thesis using d by (simp add: r field_simps)
  qed
  have e: "rexp r = (if pow2 k \<le> r then k else k - 1)"
    by (simp add: rexp_def q k_def)
  show "pow2 (rexp r) \<le> r" using lo by (simp add: e)
  show "r < pow2 (rexp r + 1)" using up by (auto simp: e)
qed

lemma round_even_of_int [simp]: "round_even (of_int k) = k"
  by (simp add: round_even_def)

lemma round_even_nonneg: "0 \<le> x \<Longrightarrow> 0 \<le> round_even x"
  by (auto simp: round_even_def Let_def)

text \<open>An integer of at most 53 bits is a double.\<close>

lemma rnd_of_int:
  assumes "\<bar>k\<bar> \<le> 2 ^ 53"
  shows "rnd (of_int k) = Fin (of_int k)"
proof (cases "k = 0")
  case True
  then show ?thesis by (simp add: rnd_def)
next
  case False
  define r :: rat where "r = of_int k"
  have pos: "0 < \<bar>r\<bar>" using False by (simp add: r_def)
  note eb = rexp_bounds [OF pos]
  have r1: "pow2 0 \<le> \<bar>r\<bar>" using False by (simp add: r_def pow2_def)
  have r53: "\<bar>r\<bar> \<le> pow2 53"
    using assms unfolding r_def pow2_def by (simp flip: of_int_abs add: of_int_le_iff [of _ "2 ^ 53", simplified])
  have e0: "0 \<le> rexp \<bar>r\<bar>"
    using r1 eb(2) pow2_less_iff [of 0 "rexp \<bar>r\<bar> + 1"] by linarith
  have e53: "rexp \<bar>r\<bar> \<le> 53"
    using r53 eb(1) pow2_less_iff [of 53 "rexp \<bar>r\<bar>"] by linarith
  define e where "e = rexp \<bar>r\<bar>"
  have m: "max e (-1022) = e" using e0 by (simp add: e_def)
  have "\<exists>j. r / pow2 (e - 52) = of_int j"
  proof (cases "e \<le> 52")
    case True
    then have "r / pow2 (e - 52) = of_int (k * 2 ^ nat (52 - e))"
      by (cases "e = 52") (simp_all add: r_def pow2_def field_simps)
    then show ?thesis by blast
  next
    case False
    then have "e = 53" using e53 by (simp add: e_def)
    then have "\<bar>r\<bar> = pow2 53" using r53 eb(1) by (simp add: e_def)
    then have "r / pow2 (e - 52) = of_int (sgn k * 2 ^ 52)"
      using \<open>e = 53\<close> by (cases "k < 0") (simp_all add: r_def pow2_def)
    then show ?thesis by blast
  qed
  then obtain j where j: "r / pow2 (e - 52) = of_int j" by blast
  then have v: "of_int (round_even (r / pow2 (e - 52))) * pow2 (e - 52) = r"
    by (metis round_even_of_int nonzero_mult_div_cancel_right pow2_ne_0 times_divide_eq_left
        nonzero_eq_divide_eq)
  have "\<bar>r\<bar> < pow2 1024"
    using r53 pow2_less_iff [of 53 1024] by linarith
  with v False m show ?thesis
    by (auto simp: rnd_def Let_def e_def [symmetric] r_def [symmetric] abs_less_iff)
qed

lemma rnd_nonneg: "0 \<le> r \<Longrightarrow> rnd r = Fin v \<Longrightarrow> 0 \<le> v"
  by (auto simp: rnd_def Let_def round_even_nonneg split: if_splits)

lemma round_even_le: "x \<le> of_int j \<Longrightarrow> round_even x \<le> j"
proof -
  assume x: "x \<le> of_int j"
  show ?thesis
  proof (cases "\<lfloor>x\<rfloor> = j")
    case True
    with x have "x = of_int j" by (metis of_int_floor_le order_antisym)
    then show ?thesis by simp
  next
    case False
    moreover have "\<lfloor>x\<rfloor> \<le> j" using x by (simp add: floor_le_iff)
    ultimately have "\<lfloor>x\<rfloor> + 1 \<le> j" by simp
    then show ?thesis by (auto simp: round_even_def Let_def)
  qed
qed

text \<open>Rounding does not pass a dyadic rational of at most 53 bits, an integer in particular.\<close>

lemma rnd_le_dyadic:
  assumes "0 \<le> r" "r \<le> of_int k / 2 ^ j" "k < 2 ^ 53" "j \<le> 1000"
  shows "\<exists>v. rnd r = Fin v \<and> 0 \<le> v \<and> v \<le> of_int k / 2 ^ j"
proof (cases "r = 0")
  case True
  then show ?thesis using assms by (simp add: rnd_def)
next
  case False
  have k53: "of_int k < (2 :: rat) ^ 53" using assms(3) by (metis of_int_less_iff of_int_numeral of_int_power)
  have "r * 2 ^ j \<le> of_int k" using assms(2) by (simp add: field_simps)
  with k53 have r: "0 < r" "r * 2 ^ j < 2 ^ 53" using False assms(1) by auto
  define e where "e = max (rexp \<bar>r\<bar>) (-1022)"
  have r53: "r < pow2 (53 - int j)"
    using r by (simp add: pow2_powi power_int_diff field_simps)
  have "pow2 (rexp \<bar>r\<bar>) < pow2 (53 - int j)"
    using rexp_bounds(1) [of "\<bar>r\<bar>"] r r53 by simp
  then have e: "e \<le> 52 - int j" using assms(4) by (simp add: pow2_less_iff e_def)
  define u where "u = pow2 (e - 52)"
  have u: "0 < u" by (simp add: u_def)
  have pj: "pow2 (52 - e) = 2 ^ j * of_int (2 ^ nat (52 - e - int j))"
    using e by (simp add: pow2_of_int flip: power_add nat_add_distrib of_int_power of_int_mult)
      (simp add: nat_diff_distrib flip: power_add)
  have ku: "of_int k / 2 ^ j / u = of_int (k * 2 ^ nat (52 - e - int j))"
  proof -
    have "1 / u = pow2 (52 - e)" by (simp add: u_def pow2_powi power_int_diff field_simps)
    then have "of_int k / 2 ^ j / u = of_int k / 2 ^ j * pow2 (52 - e)"
      by (metis divide_inverse inverse_eq_divide)
    then show ?thesis by (simp add: pj)
  qed
  have "r / u \<le> of_int (k * 2 ^ nat (52 - e - int j))"
    unfolding ku [symmetric] using assms(2) u by (intro divide_right_mono) simp_all
  then have "round_even (r / u) \<le> k * 2 ^ nat (52 - e - int j)" by (rule round_even_le)
  then have "of_int (round_even (r / u)) \<le> of_int k / 2 ^ j / u" by (simp only: ku of_int_le_iff)
  then have hi: "of_int (round_even (r / u)) * u \<le> of_int k / 2 ^ j"
    using u by (simp add: pos_le_divide_eq mult.assoc mult.commute [of "2 ^ j" u])
  have lo: "0 \<le> of_int (round_even (r / u)) * u" using r u by (simp add: round_even_nonneg)
  have "of_int k / 2 ^ j \<le> of_int (k :: int) / (1 :: rat)"
    using order_trans [OF assms(1,2)] zero_less_power [of "2 :: rat" j]
    by (intro divide_left_mono) (auto simp: zero_le_divide_iff simp del: zero_less_power)
  moreover note k53
  moreover have "pow2 53 < pow2 1024" by (simp add: pow2_less_iff)
  moreover have "pow2 53 = 2 ^ 53" by (simp add: pow2_def)
  ultimately have "of_int k / 2 ^ j < pow2 1024" by simp
  then have "rnd r = Fin (of_int (round_even (r / u)) * u)"
    using r hi lo pow2_pos [of 1024] unfolding u_def e_def by (simp add: rnd_def Let_def)
  with hi lo show ?thesis by blast
qed

lemma rnd_le_int:
  "0 \<le> r \<Longrightarrow> r \<le> of_int k \<Longrightarrow> k < 2 ^ 53 \<Longrightarrow> \<exists>v. rnd r = Fin v \<and> 0 \<le> v \<and> v \<le> of_int k"
  using rnd_le_dyadic [of r k 0] by simp

text \<open>The double quotient of two integers below \<open>2 ^ 32\<close> has the integer part of the exact one: no
  quotient is so close below an integer that rounding reaches it.\<close>

lemma round_even_ge: "of_int j \<le> x \<Longrightarrow> j \<le> round_even x"
proof -
  assume "of_int j \<le> x"
  then have "j \<le> \<lfloor>x\<rfloor>" by (simp add: le_floor_iff)
  then show ?thesis by (simp add: round_even_def Let_def)
qed

lemma rnd_ge_int:
  assumes "0 \<le> k" "of_int k \<le> r" "r < 2 ^ 52"
  shows "\<exists>v. rnd r = Fin v \<and> of_int k \<le> v"
proof (cases "k = 0")
  case True
  then show ?thesis
    using rnd_le_int [of r "2 ^ 52"] assms by auto
next
  case False
  have r: "0 < r" "1 \<le> r" using False assms by (simp_all add: dual_order.trans [of "of_int k"])
  define e where "e = max (rexp \<bar>r\<bar>) (-1022)"
  have "pow2 (rexp \<bar>r\<bar>) < pow2 52"
    using rexp_bounds(1) [of "\<bar>r\<bar>"] r assms(3) by (simp add: pow2_def [of 52])
  then have e: "e \<le> 52" by (simp add: pow2_less_iff e_def)
  define u where "u = pow2 (e - 52)"
  have u: "0 < u" by (simp add: u_def)
  have ku: "of_int k / u = of_int (k * 2 ^ nat (52 - e))"
    using e by (cases "e = 52") (simp_all add: u_def pow2_def field_simps)
  have "of_int (k * 2 ^ nat (52 - e)) \<le> r / u"
    unfolding ku [symmetric] using assms(2) u by (intro divide_right_mono) simp_all
  then have "k * 2 ^ nat (52 - e) \<le> round_even (r / u)" by (rule round_even_ge)
  then have "of_int k / u \<le> of_int (round_even (r / u))" by (simp only: ku of_int_le_iff)
  then have lo: "of_int k \<le> of_int (round_even (r / u)) * u" using u by (simp add: pos_divide_le_eq)
  obtain v where v: "rnd r = Fin v" using rnd_le_int [of r "2 ^ 52"] assms(3) r by auto
  then have "v = of_int (round_even (r / u)) * u"
    using r unfolding u_def e_def by (auto simp: rnd_def Let_def split: if_splits)
  with lo v show ?thesis by auto
qed

lemma rnd_quotient_floor:
  assumes "0 \<le> a" "a < 2 ^ 32" "0 < b" "b < 2 ^ 32"
  shows "\<exists>v. rnd (of_int a / of_int b) = Fin v \<and> \<lfloor>v\<rfloor> = a div b"
proof -
  define q where "q = a div b"
  define j where "j = nat (bitlen b)"
  have "a = b * q + a mod b" "0 \<le> a mod b" "a mod b < b" "0 \<le> q"
    using assms by (simp_all add: q_def pos_imp_zdiv_nonneg_iff)
  then have q: "0 \<le> q" "q * b \<le> a" "a + 1 \<le> (q + 1) * b"
    unfolding distrib_right mult.commute [of q b] by linarith+
  have "bitlen b \<le> 32" using assms by (simp add: bitlen_le_iff_power)
  moreover have "1 \<le> bitlen b" using assms bitlen_nonneg [of b] bitlen_eq_zero_iff [of b] by linarith
  ultimately have j: "b < 2 ^ j" "2 ^ j \<le> 2 * b" "j \<le> 32"
    using bitlen_bounds [of b] assms power_Suc [of "2 :: int" "nat (bitlen b - 1)"]
    by (simp_all add: j_def Suc_nat_eq_nat_zadd1)
  define K where "K = (q + 1) * 2 ^ j - 1"
  have "(q + 1) * 2 ^ j \<le> (q + 1) * (2 * b)" using j q by (intro mult_left_mono) simp_all
  then have K: "K < 2 ^ 53" using q assms by (simp add: K_def algebra_simps)
  have "(a + 1) * 2 ^ j \<le> (q + 1) * b * 2 ^ j" using q by (intro mult_right_mono) simp_all
  then have "a * 2 ^ j \<le> K * b" using j by (simp add: K_def algebra_simps)
  then have "of_int (a * 2 ^ j) \<le> (of_int (K * b) :: rat)" by (simp only: of_int_le_iff)
  then have hi: "of_int a / of_int b \<le> (of_int K / 2 ^ j :: rat)" using assms by (simp add: field_simps)
  have "of_int (q * b) \<le> (of_int a :: rat)" using q by (simp only: of_int_le_iff)
  then have lo: "of_int q \<le> (of_int a / of_int b :: rat)" using assms by (simp add: field_simps)
  obtain v where v: "rnd (of_int a / of_int b) = Fin v" "v \<le> of_int K / 2 ^ j"
    using rnd_le_dyadic [OF _ hi K] j assms by auto
  have "of_int a / of_int b \<le> (of_int a :: rat)"
    using assms by (simp add: field_simps mult_le_cancel_left1)
  moreover have "of_int a < (2 ^ 52 :: rat)" using assms by simp
  ultimately have "of_int q \<le> v" using rnd_ge_int [OF q(1) lo] v(1) by auto
  moreover have "of_int K / 2 ^ j < (of_int (q + 1) :: rat)" by (simp add: K_def field_simps)
  ultimately have "\<lfloor>v\<rfloor> = q" using v(2) by (simp add: floor_eq_iff)
  with v show ?thesis by (simp add: q_def)
qed

end
