(* ===== verification/AsynPort.thy ===== *)
theory AsynPort
  imports Float64
begin

text \<open>
  The asyn side of the driver. The parameter names of \<open>ADnED.h\<close> (created by the constructor in
  \<open>ADnED.cpp\<close>) are datatypes, one per asyn parameter type. The parameter library itself
  (\<open>asynPortDriver\<close>) is not part of the repository: it is the record \<open>'p asyn\<close> of operations the
  driver calls, over an unknown state \<open>'p\<close>, and every definition that uses it takes that record.
  What the driver relies on is the locale \<open>asyn_port\<close>: a parameter keeps the value it was last
  given, per address; nothing else changes it. \<open>store_asyn\<close> is a store that meets these laws.
\<close>

section \<open>Constants of ADnEDGlobals.h\<close>

definition ADNED_MAX_STRING_SIZE :: nat where "ADNED_MAX_STRING_SIZE = 256"
definition ADNED_MAX_DETS :: nat where "ADNED_MAX_DETS = 4"
definition ADNED_MAX_CHANNELS :: nat where "ADNED_MAX_CHANNELS = 4"

lemmas adned_limits [simp] = ADNED_MAX_DETS_def ADNED_MAX_CHANNELS_def ADNED_MAX_STRING_SIZE_def

section \<open>Parameters\<close>

datatype (plugins only: code size) iparam =
    ADnEDFirst | ADnEDReset | ADnEDStart | ADnEDStop | ADnEDPause | ADnEDEventDebug
  | ADnEDSeqCounter | ADnEDPulseCounter | ADnEDEventRate | ADnEDSeqID | ADnEDSeqIDMissing
  | ADnEDSeqIDNumMissing | ADnEDBadTimeStamp | ADnEDNumChannels | ADnEDNumDet
  | ADnEDDetPixelNumStart | ADnEDDetPixelNumEnd | ADnEDDetPixelNumSize | ADnEDDetTOFNumBins
  | ADnEDDet2DType | ADnEDDetNDArrayStart | ADnEDDetNDArrayEnd | ADnEDDetNDArraySize
  | ADnEDDetNDArrayTOFStart | ADnEDDetNDArrayTOFEnd | ADnEDDetEventRate
  | ADnEDDetTOFROIStart | ADnEDDetTOFROISize | ADnEDDetTOFROIEnable | ADnEDDetTOFArrayReset
  | ADnEDDetTOFTransInt0 | ADnEDDetTOFTransInt1 | ADnEDDetTOFTransInt2
  | ADnEDDetTOFTransInt3 | ADnEDDetTOFTransInt4 | ADnEDDetTOFTransInt5
  | ADnEDDetTOFTransPrint | ADnEDDetTOFTransDebug | ADnEDDetTOFTransType
  | ADnEDDetPixelMapPrint | ADnEDDetPixelMapEnable
  | ADnEDDetPixelROIStartX | ADnEDDetPixelROISizeX | ADnEDDetPixelROIStartY
  | ADnEDDetPixelROISizeY | ADnEDDetPixelSizeX | ADnEDDetPixelROIEnable
  | ADnEDTOFMax | ADnEDAllocSpace | ADnEDAllocSpaceStatus | ADnEDLast
  | ADStatus | ADAcquire | NDArrayCounter | NDArrayCallbacks | BaseInt nat

datatype (plugins only: code size) dparam =
    ADnEDPCharge | ADnEDPChargeInt | ADnEDEventUpdatePeriod | ADnEDFrameUpdatePeriod
  | ADnEDDetEventTotal
  | ADnEDDetTOFTransFloat0 | ADnEDDetTOFTransFloat1 | ADnEDDetTOFTransFloat2
  | ADnEDDetTOFTransFloat3 | ADnEDDetTOFTransFloat4 | ADnEDDetTOFTransFloat5
  | ADnEDDetTOFTransOffset | ADnEDDetTOFTransScale | BaseDouble nat

datatype (plugins only: code size) sparam =
    ADnEDPVName
  | ADnEDDetTOFTransFile0 | ADnEDDetTOFTransFile1 | ADnEDDetTOFTransFile2
  | ADnEDDetTOFTransFile3 | ADnEDDetTOFTransFile4 | ADnEDDetTOFTransFile5
  | ADnEDDetPixelMapFile | ADStatusMessage | ADManufacturer | ADModel | BaseOctet nat

datatype asynStatus =
  asynSuccess | asynTimeout | asynOverflow | asynError | asynDisconnected | asynDisabled

text \<open>Values of the areaDetector parameter \<open>ADStatus\<close> that the driver uses.\<close>

definition ADStatusIdle :: i32 where "ADStatusIdle = 0"
definition ADStatusAcquire :: i32 where "ADStatusAcquire = 1"
definition ADStatusError :: i32 where "ADStatusError = 6"
definition ADStatusAborted :: i32 where "ADStatusAborted = 10"

lemmas ad_status_defs = ADStatusIdle_def ADStatusAcquire_def ADStatusError_def ADStatusAborted_def

text \<open>Values of \<open>ADNED_ALLOC_SPACE_STATUS\<close> and \<open>ADNED_DET_2D_TYPE\<close> (static members of \<open>ADnED\<close>).\<close>

definition ALLOC_STATUS_OK :: u32 where "ALLOC_STATUS_OK = 0"
definition ALLOC_STATUS_REQ :: u32 where "ALLOC_STATUS_REQ = 1"
definition ALLOC_STATUS_FAIL :: u32 where "ALLOC_STATUS_FAIL = 2"
definition PLOT_XY :: u32 where "PLOT_XY = 0"
definition PLOT_XTOF :: u32 where "PLOT_XTOF = 1"
definition PLOT_YTOF :: u32 where "PLOT_YTOF = 2"
definition PLOT_PIXELIDTOF :: u32 where "PLOT_PIXELIDTOF = 3"

lemmas alloc_status_defs = ALLOC_STATUS_OK_def ALLOC_STATUS_REQ_def ALLOC_STATUS_FAIL_def
lemmas plot_type_defs = PLOT_XY_def PLOT_XTOF_def PLOT_YTOF_def PLOT_PIXELIDTOF_def

section \<open>The parameter library as the driver calls it\<close>

text \<open>A getter is the value the call delivers; a setter and \<open>callParamCallbacks\<close> return a status
  and the new library state. The address comes first; a call without one is at address 0.\<close>

record 'p asyn =
  getIntegerParam :: "'p \<Rightarrow> nat \<Rightarrow> iparam \<Rightarrow> i32"
  getDoubleParam :: "'p \<Rightarrow> nat \<Rightarrow> dparam \<Rightarrow> f64"
  getStringParam :: "'p \<Rightarrow> nat \<Rightarrow> sparam \<Rightarrow> string"
  setIntegerParam :: "'p \<Rightarrow> nat \<Rightarrow> iparam \<Rightarrow> i32 \<Rightarrow> asynStatus \<times> 'p"
  setDoubleParam :: "'p \<Rightarrow> nat \<Rightarrow> dparam \<Rightarrow> f64 \<Rightarrow> asynStatus \<times> 'p"
  setStringParam :: "'p \<Rightarrow> nat \<Rightarrow> sparam \<Rightarrow> string \<Rightarrow> asynStatus \<times> 'p"
  callParamCallbacks :: "'p \<Rightarrow> nat \<Rightarrow> asynStatus \<times> 'p"

text \<open>Calls whose status the driver drops.\<close>

abbreviation setI :: "'p asyn \<Rightarrow> nat \<Rightarrow> iparam \<Rightarrow> i32 \<Rightarrow> 'p \<Rightarrow> 'p" where
  "setI A a q v p \<equiv> snd (setIntegerParam A p a q v)"

abbreviation setD :: "'p asyn \<Rightarrow> nat \<Rightarrow> dparam \<Rightarrow> f64 \<Rightarrow> 'p \<Rightarrow> 'p" where
  "setD A a q v p \<equiv> snd (setDoubleParam A p a q v)"

abbreviation setS :: "'p asyn \<Rightarrow> nat \<Rightarrow> sparam \<Rightarrow> string \<Rightarrow> 'p \<Rightarrow> 'p" where
  "setS A a q v p \<equiv> snd (setStringParam A p a q v)"

abbreviation calls :: "'p asyn \<Rightarrow> nat \<Rightarrow> 'p \<Rightarrow> 'p" where
  "calls A a p \<equiv> snd (callParamCallbacks A p a)"

text \<open>The port has \<open>maxAddr = ADNED_MAX_DETS + 1\<close> addresses.\<close>

locale asyn_port =
  fixes A :: "'p asyn"
  assumes set_int_ok: "a \<le> ADNED_MAX_DETS \<Longrightarrow> fst (setIntegerParam A p a q v) = asynSuccess"
    and set_dbl_ok: "a \<le> ADNED_MAX_DETS \<Longrightarrow> fst (setDoubleParam A p a x d) = asynSuccess"
    and get_set_int: "a \<le> ADNED_MAX_DETS \<Longrightarrow>
      getIntegerParam A (setI A a q v p) b r = (if b = a \<and> r = q then v else getIntegerParam A p b r)"
    and get_set_dbl: "a \<le> ADNED_MAX_DETS \<Longrightarrow>
      getDoubleParam A (setD A a x d p) b y = (if b = a \<and> y = x then d else getDoubleParam A p b y)"
    and get_set_str: "a \<le> ADNED_MAX_DETS \<Longrightarrow>
      getStringParam A (setS A a z t p) b w = (if b = a \<and> w = z then t else getStringParam A p b w)"
    and dbl_set_int: "getDoubleParam A (setI A a q v p) b y = getDoubleParam A p b y"
    and str_set_int: "getStringParam A (setI A a q v p) b w = getStringParam A p b w"
    and int_set_dbl: "getIntegerParam A (setD A a x d p) b r = getIntegerParam A p b r"
    and str_set_dbl: "getStringParam A (setD A a x d p) b w = getStringParam A p b w"
    and int_set_str: "getIntegerParam A (setS A a z t p) b r = getIntegerParam A p b r"
    and dbl_set_str: "getDoubleParam A (setS A a z t p) b y = getDoubleParam A p b y"
    and int_calls: "getIntegerParam A (calls A a p) b r = getIntegerParam A p b r"
    and dbl_calls: "getDoubleParam A (calls A a p) b y = getDoubleParam A p b y"
    and str_calls: "getStringParam A (calls A a p) b w = getStringParam A p b w"
begin

lemmas port_laws = set_int_ok set_dbl_ok get_set_int get_set_dbl get_set_str dbl_set_int str_set_int
  int_set_dbl str_set_dbl int_set_str dbl_set_str int_calls dbl_calls str_calls

end

section \<open>A store that meets the laws\<close>

record pstore =
  ints :: "nat \<Rightarrow> iparam \<Rightarrow> i32"
  dbls :: "nat \<Rightarrow> dparam \<Rightarrow> f64"
  strs :: "nat \<Rightarrow> sparam \<Rightarrow> string"

definition store_asyn :: "pstore asyn" where
  "store_asyn = \<lparr>
     getIntegerParam = (\<lambda>p a q. ints p a q),
     getDoubleParam = (\<lambda>p a q. dbls p a q),
     getStringParam = (\<lambda>p a q. strs p a q),
     setIntegerParam = (\<lambda>p a q v. if a \<le> ADNED_MAX_DETS
       then (asynSuccess, p\<lparr>ints := (ints p)(a := (ints p a)(q := v))\<rparr>) else (asynError, p)),
     setDoubleParam = (\<lambda>p a q v. if a \<le> ADNED_MAX_DETS
       then (asynSuccess, p\<lparr>dbls := (dbls p)(a := (dbls p a)(q := v))\<rparr>) else (asynError, p)),
     setStringParam = (\<lambda>p a q v. if a \<le> ADNED_MAX_DETS
       then (asynSuccess, p\<lparr>strs := (strs p)(a := (strs p a)(q := v))\<rparr>) else (asynError, p)),
     callParamCallbacks = (\<lambda>p a. (asynSuccess, p))\<rparr>"

interpretation st: asyn_port store_asyn
  by unfold_locales (auto simp: store_asyn_def)

definition store0 :: pstore where
  "store0 = \<lparr>ints = (\<lambda>_ _. 0), dbls = (\<lambda>_ _. Fin 0), strs = (\<lambda>_ _. [])\<rparr>"

end
