(* ===== verification/TransformLib.thy ===== *)
theory TransformLib
  imports Float64
begin

text \<open>
  \<open>ADnEDTransformBase.cpp\<close> (parameter storage) and \<open>ADnEDTransform.cpp\<close> (the calculations).
  An array of the object is a heap block of doubles, \<open>None\<close> for a null pointer. \<open>calloc\<close> may fail:
  the argument \<open>alloc_ok\<close> says for which element counts it succeeds. \<open>pow\<close> of the C library is
  a parameter (its rounding is the implementation's); \<open>sqrt\<close> is the IEEE square root. Printing
  is left out, and with it the reads of \<open>m_debug\<close>.
\<close>

section \<open>Constants\<close>

definition ADNED_MAX_TRANSFORM_PARAMS :: nat where "ADNED_MAX_TRANSFORM_PARAMS = 6"
definition ADNED_TRANSFORM_ERROR :: int where "ADNED_TRANSFORM_ERROR = -9999"
definition ADNED_TRANSFORM_OK :: int where "ADNED_TRANSFORM_OK = 0"
definition ADNED_TRANSFORM_MN :: f64 where "ADNED_TRANSFORM_MN = rnd (1674954 / 10 ^ 33)"
definition ADNED_TRANSFORM_EV_TO_J :: f64 where "ADNED_TRANSFORM_EV_TO_J = rnd (160217635 / 10 ^ 27)"
definition ADNED_TRANSFORM_TOF_TO_S :: f64 where "ADNED_TRANSFORM_TOF_TO_S = rnd (1 / 10 ^ 7)"
definition ADNED_TRANSFORM_EV_TO_mEV :: f64 where "ADNED_TRANSFORM_EV_TO_mEV = Fin 1000"

text \<open>The error code as the \<open>epicsFloat64\<close> that \<open>calculate\<close> returns.\<close>

definition transform_error_value :: f64 where
  "transform_error_value = Fin (of_int ADNED_TRANSFORM_ERROR)"

section \<open>Parameter storage (ADnEDTransformBase)\<close>

record transform =
  m_intParam :: "nat \<Rightarrow> u32"
  m_doubleParam :: "nat \<Rightarrow> f64"
  p_Array :: "nat \<Rightarrow> f64 list option"
  m_ArraySize :: "nat \<Rightarrow> u32"
  m_debug :: bool

text \<open>The constructor does not initialise \<open>m_debug\<close>: its value is whatever the memory holds.\<close>

definition new_transform :: "bool \<Rightarrow> transform" where
  "new_transform garbage = \<lparr>m_intParam = (\<lambda>_. 0), m_doubleParam = (\<lambda>_. Fin 0),
     p_Array = (\<lambda>_. None), m_ArraySize = (\<lambda>_. 0), m_debug = garbage\<rparr>"

definition setIntParam :: "u32 \<Rightarrow> u32 \<Rightarrow> transform \<Rightarrow> int \<times> transform" where
  "setIntParam paramIndex paramVal t =
     (if paramIndex < 0 \<or> unat paramIndex \<ge> ADNED_MAX_TRANSFORM_PARAMS
      then (ADNED_TRANSFORM_ERROR, t)
      else (ADNED_TRANSFORM_OK, t\<lparr>m_intParam := (m_intParam t)(unat paramIndex := paramVal)\<rparr>))"

definition setDoubleParamT :: "u32 \<Rightarrow> f64 \<Rightarrow> transform \<Rightarrow> int \<times> transform" where
  "setDoubleParamT paramIndex paramVal t =
     (if paramIndex < 0 \<or> unat paramIndex \<ge> ADNED_MAX_TRANSFORM_PARAMS
      then (ADNED_TRANSFORM_ERROR, t)
      else (ADNED_TRANSFORM_OK,
            t\<lparr>m_doubleParam := (m_doubleParam t)(unat paramIndex := paramVal)\<rparr>))"

text \<open>\<open>memcpy\<close> reads \<open>size\<close> elements of the source, and writes through the pointer \<open>calloc\<close> gave.\<close>

definition setDoubleArray ::
    "(nat \<Rightarrow> bool) \<Rightarrow> u32 \<Rightarrow> f64 list option \<Rightarrow> u32 \<Rightarrow> transform \<Rightarrow> (int \<times> transform) res" where
  "setDoubleArray alloc_ok paramIndex pSource sz t =
     (if paramIndex < 0 \<or> unat paramIndex \<ge> ADNED_MAX_TRANSFORM_PARAMS
      then Inr (ADNED_TRANSFORM_ERROR, t)
      else if sz \<le> 0 then Inr (ADNED_TRANSFORM_ERROR, t)
      else case pSource of
        None \<Rightarrow> Inr (ADNED_TRANSFORM_ERROR, t)
      | Some src \<Rightarrow>
          if \<not> alloc_ok (unat sz) then Inl Null_Deref
          else if length src < unat sz then Inl Oob_Read
          else Inr (ADNED_TRANSFORM_OK,
            t\<lparr>p_Array := (p_Array t)(unat paramIndex := Some (take (unat sz) src)),
              m_ArraySize := (m_ArraySize t)(unat paramIndex := sz)\<rparr>))"

definition setDebug :: "bool \<Rightarrow> transform \<Rightarrow> transform" where
  "setDebug debug t = t\<lparr>m_debug := debug\<rparr>"

section \<open>Calculations (ADnEDTransform)\<close>

definition calc_dspace_static :: "transform \<Rightarrow> u32 \<Rightarrow> u32 \<Rightarrow> f64 res" where
  "calc_dspace_static t pixelID tof =
     (case p_Array t 0 of
        None \<Rightarrow> Inr transform_error_value
      | Some xs \<Rightarrow>
          if pixelID < m_ArraySize t 0
          then res_bind (mem_read (uint pixelID) xs) (\<lambda>x. Inr (fmul (f_of_u32 tof) x))
          else Inr transform_error_value)"

definition calc_dspace_dynamic :: "transform \<Rightarrow> u32 \<Rightarrow> u32 \<Rightarrow> f64 res" where
  "calc_dspace_dynamic t pixelID tof = Inr transform_error_value"

text \<open>The formula of \<open>calc_deltaE\<close>, once the checks have passed: \<open>ef\<close> is the array element in
  meV, \<open>l2\<close> the flight path, \<open>l1\<close> is \<open>m_doubleParam[0]\<close>.\<close>

definition deltaE_formula :: "(f64 \<Rightarrow> f64 \<Rightarrow> f64) \<Rightarrow> f64 \<Rightarrow> f64 \<Rightarrow> f64 \<Rightarrow> u32 \<Rightarrow> f64" where
  "deltaE_formula pow ef l2 l1 tof =
     (let Ef = fmul (fdiv ef ADNED_TRANSFORM_EV_TO_mEV) ADNED_TRANSFORM_EV_TO_J;
          tof_s = fmul (f_of_u32 tof) ADNED_TRANSFORM_TOF_TO_S;
          Ei = fmul (fmul (Fin (1 / 2)) ADNED_TRANSFORM_MN)
                 (pow (fdiv l1 (fsub tof_s (fmul l2 (fsqrt (fdiv ADNED_TRANSFORM_MN (fmul (Fin 2) Ef))))))
                      (Fin 2));
          deltaE = fsub Ei Ef
      in fmul (fdiv deltaE ADNED_TRANSFORM_EV_TO_J) ADNED_TRANSFORM_EV_TO_mEV)"

definition calc_deltaE :: "(f64 \<Rightarrow> f64 \<Rightarrow> f64) \<Rightarrow> transform \<Rightarrow> u32 \<Rightarrow> u32 \<Rightarrow> f64 res" where
  "calc_deltaE pow t pixelID tof =
     (case (p_Array t 0, p_Array t 1) of
        (Some a0, Some a1) \<Rightarrow>
          res_bind (mem_read (uint pixelID) a0) (\<lambda>ef.
            if fle ef (Fin 0) then Inr transform_error_value
            else res_bind (mem_read (uint pixelID) a1) (\<lambda>l2.
              if fle l2 (Fin 0) then Inr transform_error_value
              else if tof = 0 then Inr transform_error_value
              else Inr (deltaE_formula pow ef l2 (m_doubleParam t 0) tof)))
      | _ \<Rightarrow> Inr transform_error_value)"

definition calculate :: "(f64 \<Rightarrow> f64 \<Rightarrow> f64) \<Rightarrow> transform \<Rightarrow> u32 \<Rightarrow> u32 \<Rightarrow> u32 \<Rightarrow> f64 res" where
  "calculate pow t type pixelID tof =
     (if type < 0 then Inr transform_error_value
      else if pixelID < 0 then Inr transform_error_value
      else if type = 1 then calc_dspace_static t pixelID tof
      else if type = 2 then calc_dspace_dynamic t pixelID tof
      else if type = 3 then calc_deltaE pow t pixelID tof
      else Inr transform_error_value)"

section \<open>The storage contract\<close>

text \<open>What a client of a store of \<open>bound\<close> indexed slots relies on: a write inside the bound
  succeeds and changes that slot only; a write outside is an error and changes nothing.\<close>

locale slot_store =
  fixes put :: "u32 \<Rightarrow> 'v \<Rightarrow> 's \<Rightarrow> int \<times> 's"
    and slot :: "'s \<Rightarrow> nat \<Rightarrow> 'v"
    and bound :: nat
  assumes put_in: "unat i < bound \<Longrightarrow>
      fst (put i v s) = ADNED_TRANSFORM_OK \<and> slot (snd (put i v s)) = (slot s)(unat i := v)"
    and put_out: "bound \<le> unat i \<Longrightarrow> put i v s = (ADNED_TRANSFORM_ERROR, s)"
begin

definition put_all :: "(u32 \<times> 'v) list \<Rightarrow> 's \<Rightarrow> 's" where
  "put_all ws s = fold (\<lambda>(i, v) s. snd (put i v s)) ws s"

lemma slot_put: "slot (snd (put i v s)) j = (if unat i = j \<and> j < bound then v else slot s j)"
  using put_in [of i v s] put_out [of i v s] by (cases "unat i < bound") auto

text \<open>A slot holds the last value a sequence of writes gave it.\<close>

lemma slot_put_all:
  "j < bound \<Longrightarrow> slot (put_all ws s) j =
     (case map_of (rev (map (\<lambda>(i, v). (unat i, v)) ws)) j of None \<Rightarrow> slot s j | Some v \<Rightarrow> v)"
  unfolding put_all_def
  by (induction ws rule: rev_induct) (auto simp: slot_put map_add_def)

lemma put_status: "fst (put i v s) = ADNED_TRANSFORM_OK \<longleftrightarrow> unat i < bound"
  using put_in [of i v s] put_out [of i v s]
  by (cases "unat i < bound") (auto simp: ADNED_TRANSFORM_OK_def ADNED_TRANSFORM_ERROR_def)

end

interpretation ti: slot_store setIntParam m_intParam ADNED_MAX_TRANSFORM_PARAMS
  by unfold_locales (simp_all add: setIntParam_def)

interpretation td: slot_store setDoubleParamT m_doubleParam ADNED_MAX_TRANSFORM_PARAMS
  by unfold_locales (simp_all add: setDoubleParamT_def)

section \<open>Invariant\<close>

text \<open>An array that is present has as many elements as its size member says.\<close>

definition transform_inv :: "transform \<Rightarrow> bool" where
  "transform_inv t \<longleftrightarrow> (\<forall>i xs. p_Array t i = Some xs \<longrightarrow> length xs = unat (m_ArraySize t i))"

lemma transform_inv_new: "transform_inv (new_transform g)"
  by (simp add: transform_inv_def new_transform_def)

lemma transform_inv_setIntParam: "transform_inv t \<Longrightarrow> transform_inv (snd (setIntParam i v t))"
  by (simp add: transform_inv_def setIntParam_def)

lemma transform_inv_setDoubleParam: "transform_inv t \<Longrightarrow> transform_inv (snd (setDoubleParamT i x t))"
  by (simp add: transform_inv_def setDoubleParamT_def)

lemma transform_inv_setDebug: "transform_inv t \<Longrightarrow> transform_inv (setDebug b t)"
  by (simp add: transform_inv_def setDebug_def)

lemma transform_inv_setDoubleArray:
  "transform_inv t \<Longrightarrow> setDoubleArray ok i src n t = Inr (st, t') \<Longrightarrow> transform_inv t'"
  by (auto simp: transform_inv_def setDoubleArray_def split: if_splits option.splits)

lemmas transform_inv_ops = transform_inv_new transform_inv_setIntParam transform_inv_setDoubleParam
  transform_inv_setDebug transform_inv_setDoubleArray

lemma mem_read_u32: "mem_read (uint (w :: u32)) xs = (if unat w < length xs then Inr (xs ! unat w) else Inl Oob_Read)"
  by (simp add: mem_read_def flip: unat_eq_nat_uint)

section \<open>Specification\<close>

text \<open>What a client stored, without pointers, sizes and faults: the scalar parameters, and the arrays as
  lists, empty where there is none. The value for pixel \<open>k\<close> and time \<open>t\<close> is a function of this.\<close>

record tstore =
  ts_doubles :: "nat \<Rightarrow> f64"
  ts_arrays :: "nat \<Rightarrow> f64 list"

definition trans_value :: "(f64 \<Rightarrow> f64 \<Rightarrow> f64) \<Rightarrow> tstore \<Rightarrow> u32 \<Rightarrow> nat \<Rightarrow> u32 \<Rightarrow> f64" where
  "trans_value pow a ty k t =
     (let x = ts_arrays a 0; y = ts_arrays a 1 in
      if ty = 1 \<and> k < length x then fmul (f_of_u32 t) (x ! k)
      else if ty = 3 \<and> k < length x \<and> k < length y \<and> \<not> fle (x ! k) (Fin 0) \<and> \<not> fle (y ! k) (Fin 0) \<and> 0 < t
      then deltaE_formula pow (x ! k) (y ! k) (ts_doubles a 0) t
      else transform_error_value)"

text \<open>The calculation of the energy transfer reads both arrays without a test of their sizes.\<close>

definition trans_defined :: "tstore \<Rightarrow> u32 \<Rightarrow> nat \<Rightarrow> bool" where
  "trans_defined a ty k \<longleftrightarrow> (ty = 3 \<longrightarrow> ts_arrays a 0 \<noteq> [] \<longrightarrow> ts_arrays a 1 \<noteq> [] \<longrightarrow>
     k < length (ts_arrays a 0) \<and> k < length (ts_arrays a 1))"

definition store_of :: "transform \<Rightarrow> tstore" where
  "store_of t = \<lparr>ts_doubles = m_doubleParam t,
     ts_arrays = (\<lambda>i. case p_Array t i of None \<Rightarrow> [] | Some xs \<Rightarrow> xs)\<rparr>"

text \<open>An array that is present is not empty, and has as many elements as its size member says.\<close>

definition transform_full :: "transform \<Rightarrow> bool" where
  "transform_full t \<longleftrightarrow> transform_inv t \<and> (\<forall>i. p_Array t i \<noteq> Some [])"

lemma calc_dspace_static_eq:
  "transform_inv t \<Longrightarrow> calc_dspace_static t k tof = Inr (trans_value pow (store_of t) 1 (unat k) tof)"
  by (auto simp: calc_dspace_static_def trans_value_def store_of_def transform_inv_def mem_read_u32
      word_less_nat_alt split: option.split)

lemma calc_deltaE_eq:
  assumes "\<And>xs ys. p_Array t 0 = Some xs \<Longrightarrow> p_Array t 1 = Some ys \<Longrightarrow> unat k < length xs \<and> unat k < length ys"
  shows "calc_deltaE pow t k tof = Inr (trans_value pow (store_of t) 3 (unat k) tof)"
  using assms
  by (auto simp: calc_deltaE_def trans_value_def store_of_def mem_read_u32 word_neq_0_conv Let_def split: option.splits)

lemma calculate_eq:
  assumes "transform_inv t" "\<And>xs ys. ty = 3 \<Longrightarrow> p_Array t 0 = Some xs \<Longrightarrow> p_Array t 1 = Some ys \<Longrightarrow>
    unat k < length xs \<and> unat k < length ys"
  shows "calculate pow t ty k tof = Inr (trans_value pow (store_of t) ty (unat k) tof)"
proof (cases "ty = 1 \<or> ty = 3")
  case True
  then show ?thesis
    using calc_dspace_static_eq [OF assms(1), of k tof pow] calc_deltaE_eq [of t k pow tof] assms(2)
    by (auto simp: calculate_def)
next
  case False
  then show ?thesis by (simp add: calculate_def calc_dspace_dynamic_def trans_value_def Let_def)
qed

text \<open>Calls of a client, and what they store.\<close>

datatype trans_op = SetInt u32 u32 | SetDouble u32 f64 | SetArray u32 "f64 list" | SetDebug bool

fun trans_call :: "(nat \<Rightarrow> bool) \<Rightarrow> trans_op \<Rightarrow> transform \<Rightarrow> transform res" where
  "trans_call ok (SetInt i x) t = Inr (snd (setIntParam i x t))"
| "trans_call ok (SetDouble i x) t = Inr (snd (setDoubleParamT i x t))"
| "trans_call ok (SetArray i xs) t = res_bind (setDoubleArray ok i (Some xs) (of_nat (length xs)) t) (\<lambda>(_, t'). Inr t')"
| "trans_call ok (SetDebug b) t = Inr (setDebug b t)"

fun tstore_call :: "trans_op \<Rightarrow> tstore \<Rightarrow> tstore" where
  "tstore_call (SetDouble i x) a = (if unat i < ADNED_MAX_TRANSFORM_PARAMS then a\<lparr>ts_doubles := (ts_doubles a)(unat i := x)\<rparr> else a)"
| "tstore_call (SetArray i xs) a =
     (if unat i < ADNED_MAX_TRANSFORM_PARAMS \<and> xs \<noteq> [] then a\<lparr>ts_arrays := (ts_arrays a)(unat i := xs)\<rparr> else a)"
| "tstore_call _ a = a"

definition empty_tstore :: tstore where
  "empty_tstore = \<lparr>ts_doubles = (\<lambda>_. Fin 0), ts_arrays = (\<lambda>_. [])\<rparr>"

fun array_fits :: "(nat \<Rightarrow> bool) \<Rightarrow> trans_op \<Rightarrow> bool" where
  "array_fits ok (SetArray i xs) \<longleftrightarrow> length xs < 2 ^ 32 \<and> ok (length xs)"
| "array_fits ok _ \<longleftrightarrow> True"

lemma setDoubleArray_stores:
  assumes "unat i < ADNED_MAX_TRANSFORM_PARAMS" "xs \<noteq> []" "length xs < 2 ^ 32" "ok (length xs)" "transform_full t"
  shows "\<exists>t'. setDoubleArray ok i (Some xs) (of_nat (length xs)) t = Inr (ADNED_TRANSFORM_OK, t') \<and> transform_full t'
    \<and> store_of t' = tstore_call (SetArray i xs) (store_of t)"
proof -
  define n :: u32 where "n = of_nat (length xs)"
  have n: "unat n = length xs" using assms(3) unat32_of_nat [of "length xs"] by (simp add: n_def)
  then have "\<not> n \<le> 0" using assms(2) by (auto simp flip: unat_eq_0)
  then have "setDoubleArray ok i (Some xs) n t = Inr (ADNED_TRANSFORM_OK,
      t\<lparr>p_Array := (p_Array t)(unat i := Some xs), m_ArraySize := (m_ArraySize t)(unat i := n)\<rparr>)"
    using assms(1,4) n by (simp add: setDoubleArray_def)
  moreover have "store_of (t\<lparr>p_Array := (p_Array t)(unat i := Some xs), m_ArraySize := (m_ArraySize t)(unat i := n)\<rparr>)
      = tstore_call (SetArray i xs) (store_of t)"
    using assms(1,2) by (simp add: store_of_def fun_eq_iff)
  ultimately show ?thesis using assms(2,5) n by (simp add: n_def [symmetric] transform_full_def transform_inv_def)
qed

lemma trans_call_refines:
  assumes "array_fits ok c" "transform_full t"
  shows "\<exists>t'. trans_call ok c t = Inr t' \<and> transform_full t' \<and> store_of t' = tstore_call c (store_of t)"
proof (cases c)
  case (SetArray i xs)
  show ?thesis
  proof (cases "unat i < ADNED_MAX_TRANSFORM_PARAMS \<and> xs \<noteq> []")
    case True
    then show ?thesis using assms SetArray setDoubleArray_stores [of i xs ok t] by auto
  next
    case False
    then show ?thesis using assms(2) SetArray by (auto simp: setDoubleArray_def not_less)
  qed
qed (use assms in \<open>simp_all add: setIntParam_def setDoubleParamT_def setDebug_def transform_full_def transform_inv_def store_of_def\<close>)

lemma trans_calls_refine:
  assumes "\<forall>c\<in>set cs. array_fits ok c" "transform_full t"
  shows "\<exists>t'. foldR (trans_call ok) cs t = Inr t' \<and> transform_full t' \<and> store_of t' = fold tstore_call cs (store_of t)"
  using assms
proof (induction cs arbitrary: t)
  case (Cons c cs)
  then obtain t1 where "trans_call ok c t = Inr t1" "transform_full t1" "store_of t1 = tstore_call c (store_of t)"
    using trans_call_refines [of ok c t] by auto
  then show ?case using Cons.IH [of t1] Cons.prems by auto
qed simp

section \<open>Properties\<close>



end
