(* ===== verification/Driver.thy ===== *)
theory Driver
  imports AsynPort TransformLib
begin

unbundle bit_operations_syntax

text \<open>
  The state of class \<open>ADnED\<close> (\<open>ADnED.h\<close>) and the parts of \<open>ADnED.cpp\<close> that build and clear it:
  the constructor, \<open>clearParams\<close>, \<open>allocArray\<close>, \<open>resetTOFArray\<close> and \<open>checkPixelMap\<close>.

  The parallel arrays \<open>m_det...[ADNED_MAX_DETS+1]\<close> that \<open>eventHandler\<close> fills from the parameters are
  one record \<open>detValues\<close> per detector. Other fixed arrays are functions of the index. \<open>p_Data\<close> and
  \<open>p_PixelMap[det]\<close> are heap blocks, \<open>None\<close> for NULL. pvData's \<open>TimeStamp\<close> is a type \<open>'t\<close> with
  the operations of \<open>'t pvtime\<close>.
\<close>

section \<open>State\<close>

text \<open>What the C++ implementation decides: for which sizes \<open>calloc\<close> succeeds, the C library's
  \<open>pow\<close>, and the value of a double-to-integer conversion that does not fit.\<close>

record machine =
  calloc_ok :: "nat \<Rightarrow> bool"
  libm_pow :: "f64 \<Rightarrow> f64 \<Rightarrow> f64"
  cast_u32 :: "f64 \<Rightarrow> u32"
  cast_i32 :: "f64 \<Rightarrow> i32"

record 't pvtime =
  ts_put :: "int \<Rightarrow> int \<Rightarrow> 't \<Rightarrow> 't"
  ts_secs :: "'t \<Rightarrow> int"
  ts_nsecs :: "'t \<Rightarrow> int"
  ts_tag :: "'t \<Rightarrow> i32"
  ts_ne :: "'t \<Rightarrow> 't \<Rightarrow> bool"
  ts_gt :: "'t \<Rightarrow> 't \<Rightarrow> bool"

record detValues =
  m_detStartValues :: i32
  m_detEndValues :: i32
  m_detSizeValues :: i32
  m_NDArrayStartValues :: i32
  m_NDArrayTOFStartValues :: i32
  m_detTOFROIStartValues :: i32
  m_detTOFROISizeValues :: i32
  m_detTOFROIEnabled :: i32
  m_detPixelMappingEnabled :: i32
  m_detTOFTransType :: i32
  m_detTOFTransScale :: f64
  m_detTOFTransOffset :: f64
  m_detPixelROIStartX :: i32
  m_detPixelROIStartY :: i32
  m_detPixelROISizeX :: i32
  m_detPixelROISizeY :: i32
  m_detPixelSizeX :: i32
  m_detPixelROIEnable :: i32

record ('p, 't) adned =
  plib :: 'p
  m_acquiring :: u32
  m_seqCounter :: "nat \<Rightarrow> u32"
  m_seqID :: "nat \<Rightarrow> u32"
  m_lastSeqID :: "nat \<Rightarrow> u32"
  m_pulseCounter :: u32
  m_pChargeInt :: f64
  m_nowTimeSecs :: f64
  m_lastTimeSecs :: f64
  p_Data :: "u32 list option"
  p_PixelMap :: "nat \<Rightarrow> u32 list option"
  m_PixelMapSize :: "nat \<Rightarrow> u32"
  m_dataAlloc :: bool
  m_dataMaxSize :: u32
  m_bufferMaxSize :: u32
  m_tofMax :: u32
  m_TimeStamp :: "nat \<Rightarrow> 't"
  m_TimeStampLast :: "nat \<Rightarrow> 't"
  m_det :: "nat \<Rightarrow> detValues"
  m_eventsSinceLastUpdate :: u32
  m_detEventsSinceLastUpdate :: "nat \<Rightarrow> u32"
  m_detTotalEvents :: "nat \<Rightarrow> f64"
  p_Transform :: "nat \<Rightarrow> transform option"

section \<open>Constructor\<close>

definition setIs :: "'p asyn \<Rightarrow> nat \<Rightarrow> (iparam \<times> i32) list \<Rightarrow> 'p \<Rightarrow> 'p" where
  "setIs A a qvs p = fold (\<lambda>(q, v) p. setI A a q v p) qvs p"

definition setDs :: "'p asyn \<Rightarrow> nat \<Rightarrow> (dparam \<times> f64) list \<Rightarrow> 'p \<Rightarrow> 'p" where
  "setDs A a qvs p = fold (\<lambda>(q, v) p. setD A a q v p) qvs p"

definition setSs :: "'p asyn \<Rightarrow> nat \<Rightarrow> (sparam \<times> string) list \<Rightarrow> 'p \<Rightarrow> 'p" where
  "setSs A a qvs p = fold (\<lambda>(q, v) p. setS A a q v p) qvs p"

text \<open>The loop over the asyn addresses, one body. The order of sets to different parameters of
  one address is grouped by type.\<close>

definition ctor_address :: "'p asyn \<Rightarrow> nat \<Rightarrow> 'p \<Rightarrow> 'p" where
  "ctor_address A det p = calls A det
     (setSs A det [(ADnEDPVName, '' ''), (ADnEDDetTOFTransFile0, '' ''), (ADnEDDetTOFTransFile1, '' ''),
        (ADnEDDetTOFTransFile2, '' ''), (ADnEDDetTOFTransFile3, '' ''), (ADnEDDetTOFTransFile4, '' ''),
        (ADnEDDetTOFTransFile5, '' ''), (ADnEDDetPixelMapFile, '' '')]
     (setDs A det [(ADnEDDetEventTotal, Fin 0), (ADnEDDetTOFTransFloat0, Fin 0),
        (ADnEDDetTOFTransFloat1, Fin 0), (ADnEDDetTOFTransFloat2, Fin 0), (ADnEDDetTOFTransFloat3, Fin 0),
        (ADnEDDetTOFTransFloat4, Fin 0), (ADnEDDetTOFTransFloat5, Fin 0),
        (ADnEDDetTOFTransOffset, Fin 0), (ADnEDDetTOFTransScale, Fin 1)]
     (setIs A det [(ADnEDSeqCounter, 0), (ADnEDSeqID, 0), (ADnEDSeqIDMissing, 0),
        (ADnEDSeqIDNumMissing, 0), (ADnEDBadTimeStamp, 0),
        (ADnEDDetPixelNumStart, 0), (ADnEDDetPixelNumEnd, 0), (ADnEDDetPixelNumSize, 0),
        (ADnEDDetTOFNumBins, 0), (ADnEDDet2DType, 0), (ADnEDDetNDArrayStart, 0), (ADnEDDetNDArrayEnd, 0),
        (ADnEDDetNDArraySize, 0), (ADnEDDetNDArrayTOFStart, 0), (ADnEDDetNDArrayTOFEnd, 0),
        (ADnEDDetEventRate, 0), (ADnEDDetTOFROIStart, 0), (ADnEDDetTOFROISize, 0),
        (ADnEDDetTOFROIEnable, 0), (ADnEDDetTOFArrayReset, 0),
        (ADnEDDetTOFTransInt0, 0), (ADnEDDetTOFTransInt1, 0), (ADnEDDetTOFTransInt2, 0),
        (ADnEDDetTOFTransInt3, 0), (ADnEDDetTOFTransInt4, 0), (ADnEDDetTOFTransInt5, 0),
        (ADnEDDetTOFTransDebug, 0), (ADnEDDetTOFTransType, 0),
        (ADnEDDetPixelMapEnable, 0), (ADnEDDetPixelROIStartX, 0), (ADnEDDetPixelROISizeX, 0),
        (ADnEDDetPixelROIStartY, 0), (ADnEDDetPixelROISizeY, 0), (ADnEDDetPixelSizeX, 1),
        (ADnEDDetPixelROIEnable, 0)] p)))"

definition ctor_params :: "'p asyn \<Rightarrow> 'p \<Rightarrow> 'p" where
  "ctor_params A p0 =
     (let p1 = setIs A 0 [(ADnEDReset, 0), (ADnEDStart, 0), (ADnEDStop, 0), (ADnEDPause, 0),
                 (ADnEDEventDebug, 0), (ADnEDPulseCounter, 0), (ADnEDEventRate, 0)] p0;
          p2 = setDs A 0 [(ADnEDPCharge, Fin 0), (ADnEDPChargeInt, Fin 0)] p1;
          p3 = setIs A 0 [(ADnEDNumDet, 0), (ADnEDNumChannels, 0)] p2;
          p4 = fold (ctor_address A) [0..<Suc ADNED_MAX_DETS] p3;
          p5 = setIs A 0 [(ADnEDTOFMax, 0), (ADnEDAllocSpace, 0),
                 (ADnEDAllocSpaceStatus, ALLOC_STATUS_OK)] p4;
          p6 = setSs A 0 [(ADManufacturer, ''SNS''), (ADModel, ''nED areaDetector'')] p5
      in calls A 0 p6)"

definition det_values0 :: detValues where
  "det_values0 = \<lparr>m_detStartValues = 0, m_detEndValues = 0, m_detSizeValues = 0,
     m_NDArrayStartValues = 0, m_NDArrayTOFStartValues = 0, m_detTOFROIStartValues = 0,
     m_detTOFROISizeValues = 0, m_detTOFROIEnabled = 0, m_detPixelMappingEnabled = 0,
     m_detTOFTransType = 0, m_detTOFTransScale = Fin 0, m_detTOFTransOffset = Fin 0,
     m_detPixelROIStartX = 0, m_detPixelROIStartY = 0, m_detPixelROISizeX = 0,
     m_detPixelROISizeY = 0, m_detPixelSizeX = 0, m_detPixelROIEnable = 0\<rparr>"

text \<open>The members the constructor leaves alone (\<open>m_eventsSinceLastUpdate\<close>,
  \<open>m_detEventsSinceLastUpdate\<close>, the debug flag of the transforms) hold what the memory held:
  the arguments \<open>g\<close>, \<open>gd\<close> and \<open>gb\<close>. \<open>p_Transform[0]\<close> is never created.\<close>

definition new_ADnED ::
    "'p asyn \<Rightarrow> 't pvtime \<Rightarrow> u32 \<Rightarrow> (nat \<Rightarrow> u32) \<Rightarrow> bool \<Rightarrow> 't \<Rightarrow> 'p \<Rightarrow> ('p, 't) adned" where
  "new_ADnED A T g gd gb ts0 p0 = \<lparr>plib = ctor_params A p0, m_acquiring = 0, m_seqCounter = (\<lambda>_. 0),
     m_seqID = (\<lambda>_. 0), m_lastSeqID = (\<lambda>_. -1), m_pulseCounter = 0, m_pChargeInt = Fin 0,
     m_nowTimeSecs = Fin 0, m_lastTimeSecs = Fin 0, p_Data = None, p_PixelMap = (\<lambda>_. None),
     m_PixelMapSize = (\<lambda>_. 0), m_dataAlloc = True, m_dataMaxSize = 0, m_bufferMaxSize = 0,
     m_tofMax = 0, m_TimeStamp = (\<lambda>_. ts_put T 0 0 ts0), m_TimeStampLast = (\<lambda>_. ts_put T 0 0 ts0),
     m_det = (\<lambda>_. det_values0), m_eventsSinceLastUpdate = g, m_detEventsSinceLastUpdate = gd,
     m_detTotalEvents = (\<lambda>_. Fin 0),
     p_Transform = (\<lambda>i. if 1 \<le> i \<and> i \<le> ADNED_MAX_DETS then Some (new_transform gb) else None)\<rparr>"

section \<open>clearParams\<close>

text \<open>\<open>memset(p_Data, 0, m_bufferMaxSize*sizeof(epicsUInt32))\<close> when there is a buffer.\<close>

definition clear_data :: "('p, 't) adned \<Rightarrow> ('p, 't) adned res" where
  "clear_data s = (case p_Data s of
       None \<Rightarrow> Inr s
     | Some xs \<Rightarrow> res_bind (mem_zero 0 (unat (m_bufferMaxSize s)) xs) (\<lambda>ys. Inr (s\<lparr>p_Data := Some ys\<rparr>)))"

definition clear_channel :: "'p asyn \<Rightarrow> 't pvtime \<Rightarrow> nat \<Rightarrow> bool \<times> ('p, 't) adned \<Rightarrow> bool \<times> ('p, 't) adned" where
  "clear_channel A T chan = (\<lambda>(status, s).
     let (st1, p1) = setIntegerParam A (plib s) chan ADnEDSeqCounter 0;
         (st2, p2) = setIntegerParam A p1 chan ADnEDSeqID 0;
         (st3, p3) = setIntegerParam A p2 chan ADnEDSeqIDMissing 0;
         (st4, p4) = setIntegerParam A p3 chan ADnEDSeqIDNumMissing 0;
         (st5, p5) = setIntegerParam A p4 chan ADnEDBadTimeStamp 0
     in (status \<and> st1 = asynSuccess \<and> st2 = asynSuccess \<and> st3 = asynSuccess \<and> st4 = asynSuccess
           \<and> st5 = asynSuccess,
         s\<lparr>plib := calls A chan p5,
           m_seqCounter := (m_seqCounter s)(chan := 0),
           m_seqID := (m_seqID s)(chan := 0),
           m_lastSeqID := (m_lastSeqID s)(chan := -1),
           m_TimeStamp := (m_TimeStamp s)(chan := ts_put T 0 0 (m_TimeStamp s chan)),
           m_TimeStampLast := (m_TimeStampLast s)(chan := ts_put T 0 0 (m_TimeStampLast s chan))\<rparr>))"

definition clear_det :: "'p asyn \<Rightarrow> nat \<Rightarrow> ('p, 't) adned \<Rightarrow> ('p, 't) adned" where
  "clear_det A det s = s\<lparr>m_detTotalEvents := (m_detTotalEvents s)(det := Fin 0),
     plib := calls A det (setD A det ADnEDDetEventTotal (Fin 0) (plib s))\<rparr>"

definition clearParams :: "'p asyn \<Rightarrow> 't pvtime \<Rightarrow> ('p, 't) adned \<Rightarrow> (asynStatus \<times> ('p, 't) adned) res" where
  "clearParams A T s =
     (let (st1, p1) = setIntegerParam A (plib s) 0 ADnEDPulseCounter 0;
          (st2, p2) = setDoubleParam A p1 0 ADnEDPCharge (Fin 0);
          (st3, p3) = setDoubleParam A p2 0 ADnEDPChargeInt (Fin 0);
          status0 = (st1 = asynSuccess \<and> st2 = asynSuccess \<and> st3 = asynSuccess)
      in res_bind (clear_data (s\<lparr>plib := p3, m_pChargeInt := Fin 0, m_pulseCounter := 0\<rparr>)) (\<lambda>s1.
         let (status, s2) = fold (clear_channel A T) [0..<ADNED_MAX_CHANNELS] (status0, s1);
             s3 = fold (clear_det A) [0..<Suc ADNED_MAX_DETS] s2
         in Inr (if status then asynSuccess else asynError, s3)))"

section \<open>allocArray\<close>

text \<open>First loop: the detectors' pixel segments. \<open>False\<close> is the early return on
  \<open>detStart > detEnd\<close>.\<close>

fun alloc_pixels :: "'p asyn \<Rightarrow> nat list \<Rightarrow> ('p, 't) adned \<Rightarrow> bool \<times> ('p, 't) adned" where
  "alloc_pixels A [] s = (True, s)"
| "alloc_pixels A (det # dets) s =
     (let p = plib s;
          detStart = getIntegerParam A p det ADnEDDetPixelNumStart;
          detEnd = getIntegerParam A p det ADnEDDetPixelNumEnd;
          detSize0 = getIntegerParam A p det ADnEDDetPixelNumSize
      in if sint detStart \<le> sint detEnd then
           let detSize = (if detSize0 = 0 then detEnd - detStart + 1 else detSize0);
               p1 = (if detSize0 = 0 then setI A det ADnEDDetPixelNumSize detSize p else p);
               p2 = setI A det ADnEDDetNDArrayStart (m_dataMaxSize s) p1;
               p3 = setI A det ADnEDDetNDArrayEnd (m_dataMaxSize s + detSize - 1) p2;
               p4 = setI A det ADnEDDetNDArraySize detSize p3
           in alloc_pixels A dets
                (s\<lparr>plib := calls A det p4, m_dataMaxSize := m_dataMaxSize s + detSize\<rparr>)
         else (False, s\<lparr>plib := setI A 0 ADnEDAllocSpaceStatus ALLOC_STATUS_FAIL p\<rparr>))"

text \<open>Second loop: the time-of-flight segments, after all pixel segments.\<close>

fun alloc_tofs :: "'p asyn \<Rightarrow> i32 \<Rightarrow> nat list \<Rightarrow> u32 \<Rightarrow> 'p \<Rightarrow> 'p" where
  "alloc_tofs A tofMax [] tofStart p = p"
| "alloc_tofs A tofMax (det # dets) tofStart p =
     (let tofEnd = tofStart + tofMax;
          p1 = setI A det ADnEDDetNDArrayTOFStart tofStart p;
          p2 = setI A det ADnEDDetNDArrayTOFEnd tofEnd p1
      in alloc_tofs A tofMax dets (tofEnd + 1) (calls A det p2))"

text \<open>\<open>for (int det=1; det<=numDet; det++)\<close>.\<close>

definition det_range :: "i32 \<Rightarrow> nat list" where
  "det_range numDet = [1..<Suc (nat (sint numDet))]"

definition allocArray ::
    "(nat \<Rightarrow> bool) \<Rightarrow> 'p asyn \<Rightarrow> ('p, 't) adned \<Rightarrow> asynStatus \<times> ('p, 't) adned" where
  "allocArray alloc_ok A s =
     (if \<not> m_dataAlloc s then (asynSuccess, s)
      else
        let numDet = getIntegerParam A (plib s) 0 ADnEDNumDet;
            tofMax = getIntegerParam A (plib s) 0 ADnEDTOFMax;
            s1 = s\<lparr>m_tofMax := tofMax\<rparr>
        in if numDet = 0 then (asynError, s1)
           else
             let (done, s2) = alloc_pixels A (det_range numDet) (s1\<lparr>m_dataMaxSize := 0\<rparr>)
             in if \<not> done then (asynError, s2)
                else
                  let p3 = alloc_tofs A tofMax (det_range numDet) (m_dataMaxSize s2) (plib s2);
                      s3 = s2\<lparr>plib := p3, p_Data := None\<rparr>
                  in if m_dataMaxSize s3 \<noteq> 0 then
                       let n = m_dataMaxSize s3 + numDet * (tofMax + 1);
                           s4 = s3\<lparr>m_bufferMaxSize := n\<rparr>
                       in if alloc_ok (unat n)
                          then (asynSuccess,
                                s4\<lparr>p_Data := Some (replicate (unat n) 0), m_dataAlloc := False,
                                   plib := setI A 0 ADnEDAllocSpaceStatus ALLOC_STATUS_OK (plib s4)\<rparr>)
                          else (asynError,
                                s4\<lparr>plib := setI A 0 ADnEDAllocSpaceStatus ALLOC_STATUS_FAIL (plib s4)\<rparr>)
                     else (asynError,
                           s3\<lparr>plib := setI A 0 ADnEDAllocSpaceStatus ALLOC_STATUS_FAIL
                             (setI A 0 ADnEDAllocSpaceStatus ALLOC_STATUS_FAIL (plib s3))\<rparr>))"

section \<open>resetTOFArray and checkPixelMap\<close>

definition resetTOFArray :: "'p asyn \<Rightarrow> nat \<Rightarrow> ('p, 't) adned \<Rightarrow> ('p, 't) adned res" where
  "resetTOFArray A det s =
     (if 0 < m_tofMax s then
        let tofStart = getIntegerParam A (plib s) det ADnEDDetNDArrayTOFStart
        in case p_Data s of
             None \<Rightarrow> Inr s
           | Some xs \<Rightarrow>
               if 0 < sint tofStart
               then res_bind (mem_zero (sint tofStart) (unat (m_tofMax s + 1)) xs)
                      (\<lambda>ys. Inr (s\<lparr>p_Data := Some ys\<rparr>))
               else Inr s
      else Inr s)"

text \<open>\<open>memset(p, 0, n)\<close> with \<open>n\<close> a number of bytes: the words it covers, and the low bytes of
  the word it ends in.\<close>

definition memset_bytes :: "nat \<Rightarrow> u32 list \<Rightarrow> u32 list" where
  "memset_bytes n xs = (let k = n div 4; r = n mod 4 in
     replicate k 0
     @ (if r = 0 then [] else [push_bit (8 * r) (drop_bit (8 * r) (xs ! k))])
     @ drop (if r = 0 then k else Suc k) xs)"

text \<open>The loop of \<open>checkPixelMap\<close>: the first value above the limit sets \<open>m_PixelMapSize\<close> to 0, which
  ends it. The result says whether there was one.\<close>

fun check_loop :: "u32 \<Rightarrow> nat list \<Rightarrow> u32 list \<Rightarrow> bool res" where
  "check_loop limit [] xs = Inr False"
| "check_loop limit (i # is) xs =
     res_bind (mem_read (int i) xs) (\<lambda>v. if limit < v then Inr True else check_loop limit is xs)"

definition checkPixelMap :: "'p asyn \<Rightarrow> nat \<Rightarrow> ('p, 't) adned \<Rightarrow> (asynStatus \<times> ('p, 't) adned) res" where
  "checkPixelMap A det s =
     (let detSizeValue = getIntegerParam A (plib s) det ADnEDDetPixelNumSize
      in case p_PixelMap s det of
           Some xs \<Rightarrow>
             if 0 < m_PixelMapSize s det
             then res_bind (check_loop detSizeValue [0..<unat (m_PixelMapSize s det)] xs) (\<lambda>bad.
                    if bad
                    then Inr (asynError,
                      s\<lparr>p_PixelMap := (p_PixelMap s)(det := Some (memset_bytes (unat (m_PixelMapSize s det)) xs)),
                        m_PixelMapSize := (m_PixelMapSize s)(det := 0)\<rparr>)
                    else Inr (asynSuccess, s))
             else Inr (asynError, s)
         | None \<Rightarrow> Inr (asynError, s))"

end
