(* ===== verification/Scenario.thy ===== *)
theory Scenario
  imports Driver
begin

text \<open>
  A small configured driver, on which the hypotheses of the theorems are shown to hold together:
  two detectors, pixels 10 to 14 (X/Y plot, size taken from the range) and 100 to 103 (plot of X
  against time of flight, 20 cells), a largest time of flight of 7.
\<close>

definition demo_time :: "(int \<times> int \<times> i32) pvtime" where
  "demo_time = \<lparr>ts_put = (\<lambda>s n (_, _, tag). (s, n, tag)), ts_secs = fst, ts_nsecs = (\<lambda>t. fst (snd t)),
     ts_tag = (\<lambda>t. snd (snd t)), ts_ne = (\<lambda>a b. fst a \<noteq> fst b \<or> fst (snd a) \<noteq> fst (snd b)),
     ts_gt = (\<lambda>a b. fst b < fst a \<or> fst a = fst b \<and> fst (snd b) < fst (snd a))\<rparr>"

definition demo_machine :: machine where
  "demo_machine = \<lparr>calloc_ok = (\<lambda>n. n < 2 ^ 20), libm_pow = (\<lambda>_ _. NaN), cast_u32 = (\<lambda>_. 0), cast_i32 = (\<lambda>_. 0)\<rparr>"

definition demo_ints :: "nat \<Rightarrow> iparam \<Rightarrow> i32" where
  "demo_ints a q =
     (if a = 0 then if q = ADnEDNumDet then 2 else if q = ADnEDTOFMax then 7 else if q = ADnEDNumChannels then 1 else 0
      else if q = ADnEDDetPixelROISizeX \<or> q = ADnEDDetPixelROISizeY then 1
      else if q = ADnEDDetPixelSizeX then 2
      else if a = 1 then if q = ADnEDDetPixelNumStart then 10 else if q = ADnEDDetPixelNumEnd then 14 else 0
      else if a = 2 then
        if q = ADnEDDetPixelNumStart then 100 else if q = ADnEDDetPixelNumEnd then 103
        else if q = ADnEDDetPixelNumSize then 20 else if q = ADnEDDet2DType then PLOT_XTOF
        else if q = ADnEDDetTOFNumBins then 4 else 0
      else 0)"

definition demo_store :: pstore where
  "demo_store = store0\<lparr>ints := demo_ints\<rparr>"

text \<open>Built by the constructor, then configured.\<close>

definition demo_state :: "(pstore, int \<times> int \<times> i32) adned" where
  "demo_state = (new_ADnED store_asyn demo_time 0 (\<lambda>_. 0) False (0, 0, 0) store0)\<lparr>plib := demo_store\<rparr>"

lemma demo_get: "getIntegerParam store_asyn demo_store a q = demo_ints a q"
  by (simp add: store_asyn_def demo_store_def)

lemma demo_plib [simp]: "plib demo_state = demo_store"
  by (simp add: demo_state_def)

lemma demo_alloc [simp]: "m_dataAlloc demo_state" "p_Data demo_state = None" "p_PixelMap demo_state d = None"
  by (simp_all add: demo_state_def new_ADnED_def)

lemma one_to_two: "{Suc 0..2} = {Suc 0, 2}"
  by auto

text \<open>The same driver once \<open>allocArray\<close> has run: 25 pixel cells, then two spectra of 8 cells. Detector 1
  now doubles its times of flight, by a transformation of type 1.\<close>

definition run_ints :: "nat \<Rightarrow> iparam \<Rightarrow> i32" where
  "run_ints a q =
     (if a = 1 \<and> q = ADnEDDetPixelNumSize then 5
      else if a = 1 \<and> q = ADnEDDetNDArrayTOFStart then 25
      else if a = 1 \<and> q = ADnEDDetTOFTransType then 1
      else if a = 2 \<and> q = ADnEDDetNDArrayStart then 5
      else if a = 2 \<and> q = ADnEDDetNDArrayTOFStart then 33
      else demo_ints a q)"

definition run_doubles :: "nat \<Rightarrow> dparam \<Rightarrow> f64" where
  "run_doubles a q = (if q = ADnEDDetTOFTransScale then Fin 1 else Fin 0)"

definition run_transform :: transform where
  "run_transform = (new_transform False)\<lparr>p_Array := (\<lambda>i. if i = 0 then Some (replicate 5 (Fin 2)) else None),
     m_ArraySize := (\<lambda>i. if i = 0 then 5 else 0)\<rparr>"

lemma run_transform_inv: "transform_inv run_transform"
  by (simp add: transform_inv_def run_transform_def)

definition run_state :: "(pstore, int \<times> int \<times> i32) adned" where
  "run_state = demo_state\<lparr>plib := store0\<lparr>ints := run_ints, dbls := run_doubles\<rparr>,
     p_Transform := (\<lambda>_. Some run_transform), p_Data := Some (replicate 41 0),
     m_dataMaxSize := 25, m_bufferMaxSize := 41, m_tofMax := 7, m_dataAlloc := False\<rparr>"

lemma run_get: "getIntegerParam store_asyn (plib run_state) a q = run_ints a q"
  "getDoubleParam store_asyn (plib run_state) a x = run_doubles a x"
  by (simp_all add: store_asyn_def run_state_def store0_def)

lemma run_fields [simp]: "p_Data run_state = Some (replicate 41 0)" "m_dataMaxSize run_state = 25"
  "m_tofMax run_state = 7" "p_PixelMap run_state d = None" "m_PixelMapSize run_state d = 0"
  "m_TimeStampLast run_state c = (0, 0, 0)" "m_pulseCounter run_state = 0" "m_pChargeInt run_state = Fin 0"
  "p_Transform run_state d = Some run_transform" "m_bufferMaxSize run_state = 41" "m_lastSeqID run_state c = -1"
  by (simp_all add: run_state_def demo_state_def new_ADnED_def demo_time_def)

end
