(* ===== verification/Layout.thy ===== *)
theory Layout
  imports Scenario
begin

text \<open>
  What \<open>allocArray\<close> publishes. \<open>pixel_layout\<close> and \<open>tof_layout\<close> say what the two loops write to the
  parameter library, word by word, wrap-around included; \<open>segment_layout\<close> is the contract a client
  of the layout relies on (segments one after the other, disjoint, inside the buffer), and the
  layout functions that \<open>allocArray\<close> computes are its instance.
\<close>

section \<open>Sizes\<close>

text \<open>The size \<open>allocArray\<close> uses for a detector: the configured one, or the pixel ID range.\<close>

definition det_size :: "'p asyn \<Rightarrow> 'p \<Rightarrow> nat \<Rightarrow> i32" where
  "det_size A p det =
     (let sz = getIntegerParam A p det ADnEDDetPixelNumSize
      in if sz = 0 then getIntegerParam A p det ADnEDDetPixelNumEnd
             - getIntegerParam A p det ADnEDDetPixelNumStart + 1 else sz)"

definition det_ordered :: "'p asyn \<Rightarrow> 'p \<Rightarrow> nat \<Rightarrow> bool" where
  "det_ordered A p det \<longleftrightarrow>
     sint (getIntegerParam A p det ADnEDDetPixelNumStart) \<le> sint (getIntegerParam A p det ADnEDDetPixelNumEnd)"

section \<open>What the loops write\<close>

definition pixel_layout :: "'p asyn \<Rightarrow> nat \<Rightarrow> nat \<Rightarrow> u32 \<Rightarrow> 'p \<Rightarrow> 'p \<Rightarrow> bool" where
  "pixel_layout A i n base p p' \<longleftrightarrow>
     (\<forall>a q. getIntegerParam A p' a q =
        (if i \<le> a \<and> a \<le> n then
           if q = ADnEDDetPixelNumSize \<or> q = ADnEDDetNDArraySize then det_size A p a
           else if q = ADnEDDetNDArrayStart then base + (\<Sum>d\<in>{i..<a}. det_size A p d)
           else if q = ADnEDDetNDArrayEnd then base + (\<Sum>d\<in>{i..a}. det_size A p d) - 1
           else getIntegerParam A p a q
         else getIntegerParam A p a q))
     \<and> getDoubleParam A p' = getDoubleParam A p \<and> getStringParam A p' = getStringParam A p"

definition tof_layout :: "'p asyn \<Rightarrow> nat \<Rightarrow> nat \<Rightarrow> i32 \<Rightarrow> u32 \<Rightarrow> 'p \<Rightarrow> 'p \<Rightarrow> bool" where
  "tof_layout A i n tofMax base p p' \<longleftrightarrow>
     (\<forall>a q. getIntegerParam A p' a q =
        (if i \<le> a \<and> a \<le> n then
           if q = ADnEDDetNDArrayTOFStart then base + of_nat (a - i) * (tofMax + 1)
           else if q = ADnEDDetNDArrayTOFEnd then base + of_nat (a - i) * (tofMax + 1) + tofMax
           else getIntegerParam A p a q
         else getIntegerParam A p a q))
     \<and> getDoubleParam A p' = getDoubleParam A p \<and> getStringParam A p' = getStringParam A p"

lemma pixel_layout_empty: "n < i \<Longrightarrow> pixel_layout A i n base p p"
  by (auto simp: pixel_layout_def)

lemma tof_layout_empty: "n < i \<Longrightarrow> tof_layout A i n tofMax base p p"
  by (auto simp: tof_layout_def)

lemma pixel_layout_size:
  "pixel_layout A i n base p p' \<Longrightarrow> d < i \<or> n < d \<Longrightarrow> det_size A p' d = det_size A p d"
  by (auto simp: pixel_layout_def det_size_def Let_def)

lemma pixel_layout_ordered: "pixel_layout A i n base p p' \<Longrightarrow> det_ordered A p' d = det_ordered A p d"
  by (simp add: pixel_layout_def det_ordered_def)

lemma pixel_layout_step:
  assumes i: "i \<le> n" and one: "pixel_layout A i i base p p1"
    and rest: "pixel_layout A (Suc i) n (base + det_size A p i) p1 p2"
  shows "pixel_layout A i n base p p2"
proof -
  note size = pixel_layout_size [OF one]
  have sums: "(\<Sum>d\<in>{Suc i..<a}. det_size A p1 d) = (\<Sum>d\<in>{Suc i..<a}. det_size A p d)"
      "(\<Sum>d\<in>{Suc i..a}. det_size A p1 d) = (\<Sum>d\<in>{Suc i..a}. det_size A p d)" for a
    by (auto intro!: sum.cong simp: size)
  have split: "i < a \<Longrightarrow> (\<Sum>d\<in>{i..<a}. det_size A p d) = det_size A p i + (\<Sum>d\<in>{Suc i..<a}. det_size A p d)"
      "i \<le> a \<Longrightarrow> (\<Sum>d\<in>{i..a}. det_size A p d) = det_size A p i + (\<Sum>d\<in>{Suc i..a}. det_size A p d)" for a
    by (simp_all add: sum.atLeast_Suc_lessThan sum.atLeast_Suc_atMost)
  show ?thesis
    unfolding pixel_layout_def
  proof (intro conjI allI)
    fix a q
    show "getIntegerParam A p2 a q =
        (if i \<le> a \<and> a \<le> n then
           if q = ADnEDDetPixelNumSize \<or> q = ADnEDDetNDArraySize then det_size A p a
           else if q = ADnEDDetNDArrayStart then base + (\<Sum>d\<in>{i..<a}. det_size A p d)
           else if q = ADnEDDetNDArrayEnd then base + (\<Sum>d\<in>{i..a}. det_size A p d) - 1
           else getIntegerParam A p a q
         else getIntegerParam A p a q)"
      using one rest i
      by (cases "a = i") (auto simp: pixel_layout_def sums split size add.assoc)
  qed (use one rest in \<open>simp_all add: pixel_layout_def\<close>)
qed

lemma tof_layout_step:
  assumes "i \<le> n" "tof_layout A i i tofMax base p p1"
    "tof_layout A (Suc i) n tofMax (base + tofMax + 1) p1 p2"
  shows "tof_layout A i n tofMax base p p2"
  unfolding tof_layout_def
proof (intro conjI allI)
  fix a q
  show "getIntegerParam A p2 a q =
        (if i \<le> a \<and> a \<le> n then
           if q = ADnEDDetNDArrayTOFStart then base + of_nat (a - i) * (tofMax + 1)
           else if q = ADnEDDetNDArrayTOFEnd then base + of_nat (a - i) * (tofMax + 1) + tofMax
           else getIntegerParam A p a q
         else getIntegerParam A p a q)"
      using assms by (cases "a = i") (auto simp: tof_layout_def Suc_le_eq algebra_simps)
qed (use assms in \<open>simp_all add: tof_layout_def\<close>)

context asyn_port
begin

lemma alloc_pixels_one:
  assumes "i \<le> ADNED_MAX_DETS" "det_ordered A (plib s) i"
  shows "\<exists>p. alloc_pixels A (i # ds) s = alloc_pixels A ds
           (s\<lparr>plib := p, m_dataMaxSize := m_dataMaxSize s + det_size A (plib s) i\<rparr>)
       \<and> pixel_layout A i i (m_dataMaxSize s) (plib s) p"
proof -
  define sz where "sz = det_size A (plib s) i"
  define sz0 where "sz0 = getIntegerParam A (plib s) i ADnEDDetPixelNumSize"
  define p1 where "p1 = (if sz0 = 0 then setI A i ADnEDDetPixelNumSize sz (plib s) else plib s)"
  define p5 where "p5 = calls A i (setI A i ADnEDDetNDArraySize sz
     (setI A i ADnEDDetNDArrayEnd (m_dataMaxSize s + sz - 1)
     (setI A i ADnEDDetNDArrayStart (m_dataMaxSize s) p1)))"
  have "alloc_pixels A (i # ds) s = alloc_pixels A ds (s\<lparr>plib := p5, m_dataMaxSize := m_dataMaxSize s + sz\<rparr>)"
    using assms(2) by (auto simp: det_ordered_def p5_def p1_def sz_def sz0_def det_size_def Let_def)
  moreover have "pixel_layout A i i (m_dataMaxSize s) (plib s) p5"
    using assms(1)
    by (auto simp: pixel_layout_def p5_def p1_def port_laws sz_def sz0_def det_size_def fun_eq_iff)
  ultimately show ?thesis by (auto simp: sz_def)
qed

lemma alloc_pixels_upt:
  assumes "i \<le> Suc n" "n \<le> ADNED_MAX_DETS" "\<And>d. i \<le> d \<Longrightarrow> d \<le> n \<Longrightarrow> det_ordered A (plib s) d"
  shows "\<exists>p. alloc_pixels A [i..<Suc n] s =
           (True, s\<lparr>plib := p, m_dataMaxSize := m_dataMaxSize s + (\<Sum>d\<in>{i..n}. det_size A (plib s) d)\<rparr>)
       \<and> pixel_layout A i n (m_dataMaxSize s) (plib s) p"
  using assms
proof (induction "Suc n - i" arbitrary: i s)
  case 0
  then show ?case by (intro exI [of _ "plib s"]) (auto simp: pixel_layout_empty)
next
  case (Suc k)
  from Suc have i: "i \<le> n" "i \<le> ADNED_MAX_DETS" by auto
  obtain p1 where p1: "alloc_pixels A (i # [Suc i..<Suc n]) s = alloc_pixels A [Suc i..<Suc n]
           (s\<lparr>plib := p1, m_dataMaxSize := m_dataMaxSize s + det_size A (plib s) i\<rparr>)"
      "pixel_layout A i i (m_dataMaxSize s) (plib s) p1"
    using alloc_pixels_one [OF i(2), of s "[Suc i..<Suc n]"] Suc.prems(3) [of i] i by auto
  define s1 where "s1 = s\<lparr>plib := p1, m_dataMaxSize := m_dataMaxSize s + det_size A (plib s) i\<rparr>"
  have "\<exists>p. alloc_pixels A [Suc i..<Suc n] s1 =
         (True, s1\<lparr>plib := p, m_dataMaxSize := m_dataMaxSize s1 + (\<Sum>d\<in>{Suc i..n}. det_size A (plib s1) d)\<rparr>)
       \<and> pixel_layout A (Suc i) n (m_dataMaxSize s1) (plib s1) p"
    using Suc.prems Suc.hyps(2) i p1(2)
    by (intro Suc.hyps(1)) (auto simp: s1_def pixel_layout_ordered)
  then obtain p where p: "alloc_pixels A [Suc i..<Suc n] s1 =
         (True, s1\<lparr>plib := p, m_dataMaxSize := m_dataMaxSize s1 + (\<Sum>d\<in>{Suc i..n}. det_size A (plib s1) d)\<rparr>)"
      "pixel_layout A (Suc i) n (m_dataMaxSize s1) (plib s1) p" by blast
  have "(\<Sum>d\<in>{Suc i..n}. det_size A p1 d) = (\<Sum>d\<in>{Suc i..n}. det_size A (plib s) d)"
    by (intro sum.cong) (auto simp: pixel_layout_size [OF p1(2)])
  then have "alloc_pixels A [i..<Suc n] s =
         (True, s\<lparr>plib := p, m_dataMaxSize := m_dataMaxSize s + (\<Sum>d\<in>{i..n}. det_size A (plib s) d)\<rparr>)"
    using i p(1) p1(1)
    by (simp add: upt_conv_Cons s1_def [symmetric] sum.atLeast_Suc_atMost add.assoc del: upt_Suc)
      (simp add: s1_def add.assoc)
  moreover have "pixel_layout A i n (m_dataMaxSize s) (plib s) p"
    using pixel_layout_step [OF i(1) p1(2)] p(2) by (simp add: s1_def)
  ultimately show ?case by blast
qed

lemma alloc_tofs_upt:
  assumes "i \<le> Suc n" "n \<le> ADNED_MAX_DETS"
  shows "tof_layout A i n tofMax base p (alloc_tofs A tofMax [i..<Suc n] base p)"
  using assms
proof (induction "Suc n - i" arbitrary: i base p)
  case 0
  then show ?case by (auto simp: tof_layout_empty)
next
  case (Suc k)
  from Suc have i: "i \<le> n" "i \<le> ADNED_MAX_DETS" by auto
  define p1 where "p1 = calls A i (setI A i ADnEDDetNDArrayTOFEnd (base + tofMax)
      (setI A i ADnEDDetNDArrayTOFStart base p))"
  have one: "tof_layout A i i tofMax base p p1"
    using i by (auto simp: tof_layout_def p1_def port_laws fun_eq_iff)
  have rest: "tof_layout A (Suc i) n tofMax (base + tofMax + 1) p1
      (alloc_tofs A tofMax [Suc i..<Suc n] (base + tofMax + 1) p1)"
    using Suc.prems Suc.hyps(2) i by (intro Suc.hyps(1)) auto
  show ?case
    using tof_layout_step [OF i(1) one rest] i by (simp add: upt_conv_Cons p1_def Let_def del: upt_Suc)
qed

end

section \<open>The layout in natural numbers\<close>

text \<open>\<open>n\<close> detectors with \<open>sizes d\<close> cells each, then one time-of-flight spectrum of \<open>tofMax + 1\<close>
  cells for each detector.\<close>

definition pix_off :: "(nat \<Rightarrow> nat) \<Rightarrow> nat \<Rightarrow> nat" where
  "pix_off sizes d = (\<Sum>j\<in>{1..<d}. sizes j)"

definition tof_off :: "(nat \<Rightarrow> nat) \<Rightarrow> nat \<Rightarrow> nat \<Rightarrow> nat \<Rightarrow> nat" where
  "tof_off sizes n tofMax d = (\<Sum>j\<in>{1..n}. sizes j) + (d - 1) * (tofMax + 1)"

definition buf_len :: "(nat \<Rightarrow> nat) \<Rightarrow> nat \<Rightarrow> nat \<Rightarrow> nat" where
  "buf_len sizes n tofMax = (\<Sum>j\<in>{1..n}. sizes j) + n * (tofMax + 1)"

text \<open>All segments in one sequence: \<open>1 .. n\<close> are the pixel segments, \<open>n + 1 .. 2 n\<close> the spectra.\<close>

definition seg_start :: "(nat \<Rightarrow> nat) \<Rightarrow> nat \<Rightarrow> nat \<Rightarrow> nat \<Rightarrow> nat" where
  "seg_start sizes n tofMax k = (if k \<le> n then pix_off sizes k else tof_off sizes n tofMax (k - n))"

definition seg_len :: "(nat \<Rightarrow> nat) \<Rightarrow> nat \<Rightarrow> nat \<Rightarrow> nat \<Rightarrow> nat" where
  "seg_len sizes n tofMax k = (if k \<le> n then sizes k else tofMax + 1)"

text \<open>What a client of a sequence of segments in a buffer relies on.\<close>

locale segment_layout =
  fixes start len :: "nat \<Rightarrow> nat" and segs total :: nat
  assumes next_after: "1 \<le> i \<Longrightarrow> i < j \<Longrightarrow> j \<le> segs \<Longrightarrow> start i + len i \<le> start j"
    and inside: "1 \<le> i \<Longrightarrow> i \<le> segs \<Longrightarrow> start i + len i \<le> total"
begin

lemma owner_unique:
  assumes "1 \<le> i" "i \<le> segs" "1 \<le> j" "j \<le> segs"
    "start i \<le> x" "x < start i + len i" "start j \<le> x" "x < start j + len j"
  shows "i = j"
  using assms next_after [of i j] next_after [of j i] by (cases i j rule: linorder_cases) auto

lemma cell_inside: "1 \<le> i \<Longrightarrow> i \<le> segs \<Longrightarrow> x < len i \<Longrightarrow> start i + x < total"
  using inside [of i] by simp

end

text \<open>A layout without gaps: the segments cover the buffer.\<close>

locale tight_layout = segment_layout +
  assumes first: "start 1 = 0"
    and step: "1 \<le> i \<Longrightarrow> i < segs \<Longrightarrow> start (Suc i) = start i + len i"
    and final: "1 \<le> segs" "start segs + len segs = total"
begin

lemma cover_upto: "1 \<le> k \<Longrightarrow> k \<le> segs \<Longrightarrow> x < start k + len k \<Longrightarrow>
    \<exists>i\<in>{1..k}. start i \<le> x \<and> x < start i + len i"
proof (induction k rule: nat_induct_at_least)
  case base
  then show ?case using first by auto
next
  case (Suc k)
  show ?case
  proof (cases "x < start (Suc k)")
    case True
    then show ?thesis using Suc step [of k] by fastforce
  next
    case False
    then show ?thesis using Suc.prems by (intro bexI [of _ "Suc k"]) auto
  qed
qed

lemma cell_owned: "x < total \<Longrightarrow> \<exists>i\<in>{1..segs}. start i \<le> x \<and> x < start i + len i"
  using cover_upto [of segs x] final by simp

lemma tiling:
  "(\<Union>i\<in>{1..segs}. {start i..<start i + len i}) = {0..<total}"
  "i \<in> {1..segs} \<Longrightarrow> j \<in> {1..segs} \<Longrightarrow> i \<noteq> j \<Longrightarrow>
     {start i..<start i + len i} \<inter> {start j..<start j + len j} = {}"
proof -
  show "(\<Union>i\<in>{1..segs}. {start i..<start i + len i}) = {0..<total}"
    using cell_owned inside by fastforce
  show "{start i..<start i + len i} \<inter> {start j..<start j + len j} = {}"
    if "i \<in> {1..segs}" "j \<in> {1..segs}" "i \<noteq> j"
    using owner_unique [of i j] that by fastforce
qed

end

lemma pix_off_next: "1 \<le> i \<Longrightarrow> i < j \<Longrightarrow> pix_off sizes i + sizes i \<le> pix_off sizes j"
proof -
  assume "1 \<le> i" "i < j"
  have "pix_off sizes i + sizes i = (\<Sum>k\<in>{1..<Suc i}. sizes k)"
    using \<open>1 \<le> i\<close> by (simp add: pix_off_def)
  also have "\<dots> \<le> pix_off sizes j"
    unfolding pix_off_def using \<open>i < j\<close> by (intro sum_mono2) auto
  finally show ?thesis .
qed

lemma pix_off_total: "pix_off sizes (Suc n) = (\<Sum>j\<in>{1..n}. sizes j)"
  by (simp add: pix_off_def atLeastLessThanSuc_atLeastAtMost)

interpretation lay: segment_layout
  "seg_start sizes n tofMax" "seg_len sizes n tofMax" "2 * n" "buf_len sizes n tofMax" for sizes n tofMax
proof unfold_locales
  fix i j :: nat
  assume ij: "1 \<le> i" "i < j" "j \<le> 2 * n"
  have pix: "i \<le> n \<Longrightarrow> pix_off sizes i + sizes i \<le> (\<Sum>j\<in>{1..n}. sizes j)"
    using ij pix_off_next [of i "Suc n" sizes] by (simp only: pix_off_total less_Suc_eq_le)
  have "(i - n - 1) * (tofMax + 1) + (tofMax + 1) \<le> (j - n - 1) * (tofMax + 1)" if "n < i"
  proof -
    have "(i - n - 1 + 1) * (tofMax + 1) \<le> (j - n - 1) * (tofMax + 1)"
      using ij that by (intro mult_le_mono1) simp
    then show ?thesis by (simp add: algebra_simps)
  qed
  then show "seg_start sizes n tofMax i + seg_len sizes n tofMax i \<le> seg_start sizes n tofMax j"
    using ij pix pix_off_next [of i j sizes] by (auto simp: seg_start_def seg_len_def tof_off_def)
next
  fix i :: nat
  assume i: "1 \<le> i" "i \<le> 2 * n"
  have pix: "i \<le> n \<Longrightarrow> pix_off sizes i + sizes i \<le> (\<Sum>j\<in>{1..n}. sizes j)"
    using i pix_off_next [of i "Suc n" sizes] by (simp only: pix_off_total less_Suc_eq_le)
  have "(i - n - 1) * (tofMax + 1) + (tofMax + 1) \<le> n * (tofMax + 1)" if "n < i"
  proof -
    have "(i - n - 1 + 1) * (tofMax + 1) \<le> n * (tofMax + 1)"
      using i that by (intro mult_le_mono1) simp
    then show ?thesis by (simp add: algebra_simps)
  qed
  then show "seg_start sizes n tofMax i + seg_len sizes n tofMax i \<le> buf_len sizes n tofMax"
    using pix by (auto simp: seg_start_def seg_len_def tof_off_def buf_len_def)
qed

lemma seg_step: "1 \<le> i \<Longrightarrow> i < 2 * n \<Longrightarrow>
    seg_start sizes n tofMax (Suc i) = seg_start sizes n tofMax i + seg_len sizes n tofMax i"
proof -
  assume i: "1 \<le> i" "i < 2 * n"
  have "pix_off sizes (Suc i) = pix_off sizes i + sizes i" using i by (simp add: pix_off_def)
  moreover have "i = n \<Longrightarrow> pix_off sizes (Suc i) = tof_off sizes n tofMax (Suc i - n)"
    by (simp add: pix_off_total tof_off_def)
  moreover have "(Suc i - n - 1) * (tofMax + 1) = (i - n - 1) * (tofMax + 1) + (tofMax + 1)" if "n < i"
  proof -
    have "Suc i - n - 1 = (i - n - 1) + 1" using that by simp
    then show ?thesis by (simp only: add_mult_distrib mult_1)
  qed
  ultimately show ?thesis by (cases i n rule: linorder_cases) (auto simp: seg_start_def seg_len_def tof_off_def)
qed

interpretation tl: tight_layout "seg_start sizes (Suc m) tofMax" "seg_len sizes (Suc m) tofMax"
  "2 * Suc m" "buf_len sizes (Suc m) tofMax" for sizes m tofMax
proof unfold_locales
  show "seg_start sizes (Suc m) tofMax 1 = 0" by (simp add: seg_start_def pix_off_def)
  show "seg_start sizes (Suc m) tofMax (2 * Suc m) + seg_len sizes (Suc m) tofMax (2 * Suc m)
      = buf_len sizes (Suc m) tofMax"
    by (simp add: seg_start_def seg_len_def tof_off_def buf_len_def)
qed (auto intro: seg_step)

section \<open>allocArray publishes the layout\<close>

definition sizes_of :: "'p asyn \<Rightarrow> 'p \<Rightarrow> nat \<Rightarrow> nat" where
  "sizes_of A p d = unat (det_size A p d)"

text \<open>The configuration \<open>allocArray\<close> is meant for.\<close>

definition alloc_config :: "'p asyn \<Rightarrow> 'p \<Rightarrow> nat \<Rightarrow> nat \<Rightarrow> bool" where
  "alloc_config A p n tofMax \<longleftrightarrow>
     1 \<le> n \<and> n \<le> ADNED_MAX_DETS \<and>
     getIntegerParam A p 0 ADnEDNumDet = of_nat n \<and>
     getIntegerParam A p 0 ADnEDTOFMax = of_nat tofMax \<and>
     (\<forall>d\<in>{1..n}. det_ordered A p d \<and> 0 < sizes_of A p d) \<and>
     buf_len (sizes_of A p) n tofMax < 2 ^ 31"

definition published :: "'p asyn \<Rightarrow> 'p \<Rightarrow> (nat \<Rightarrow> nat) \<Rightarrow> nat \<Rightarrow> nat \<Rightarrow> bool" where
  "published A p sizes n tofMax \<longleftrightarrow> (\<forall>d\<in>{1..n}.
     sint (getIntegerParam A p d ADnEDDetNDArrayStart) = int (pix_off sizes d) \<and>
     sint (getIntegerParam A p d ADnEDDetNDArrayEnd) = int (pix_off sizes d + sizes d - 1) \<and>
     sint (getIntegerParam A p d ADnEDDetNDArraySize) = int (sizes d) \<and>
     sint (getIntegerParam A p d ADnEDDetPixelNumSize) = int (sizes d) \<and>
     sint (getIntegerParam A p d ADnEDDetNDArrayTOFStart) = int (tof_off sizes n tofMax d) \<and>
     sint (getIntegerParam A p d ADnEDDetNDArrayTOFEnd) = int (tof_off sizes n tofMax d + tofMax))"

text \<open>Everything but the layout is as it was.\<close>

definition layout_iparams :: "iparam set" where
  "layout_iparams = {ADnEDDetPixelNumSize, ADnEDDetNDArrayStart, ADnEDDetNDArrayEnd, ADnEDDetNDArraySize,
     ADnEDDetNDArrayTOFStart, ADnEDDetNDArrayTOFEnd, ADnEDAllocSpaceStatus}"

definition only_layout :: "'p asyn \<Rightarrow> 'p \<Rightarrow> 'p \<Rightarrow> bool" where
  "only_layout A p p' \<longleftrightarrow> (\<forall>a q. q \<notin> layout_iparams \<longrightarrow> getIntegerParam A p' a q = getIntegerParam A p a q)
     \<and> getDoubleParam A p' = getDoubleParam A p \<and> getStringParam A p' = getStringParam A p"

lemma only_layout_loops:
  "pixel_layout A i n b p p1 \<Longrightarrow> tof_layout A j m tofMax c p1 p2 \<Longrightarrow> only_layout A p p2"
  by (simp add: only_layout_def pixel_layout_def tof_layout_def layout_iparams_def)

lemma sum_det_size: "(\<Sum>d\<in>D. det_size A p d) = of_nat (\<Sum>d\<in>D. sizes_of A p d)"
  by (simp add: sizes_of_def)

lemma layout_published:
  assumes config: "alloc_config A p n tofMax" and pix: "pixel_layout A 1 n 0 p p1"
    and tof: "tof_layout A 1 n (of_nat tofMax) (\<Sum>d\<in>{1..n}. det_size A p d) p1 p2"
  shows "published A p2 (sizes_of A p) n tofMax"
  unfolding published_def
proof
  fix d assume d: "d \<in> {1..n}"
  define S where "S = sizes_of A p"
  note sums = sum_det_size [of A p, folded S_def]
  have total: "buf_len S n tofMax < 2 ^ 31" and pos: "0 < S d"
    using config d by (simp_all add: alloc_config_def S_def)
  have off: "pix_off S d + S d \<le> buf_len S n tofMax"
    using d lay.inside [of d n S tofMax] by (simp add: seg_start_def seg_len_def)
  have tofs: "tof_off S n tofMax d + tofMax < buf_len S n tofMax"
    using d lay.inside [of "n + d" n S tofMax] by (simp add: seg_start_def seg_len_def)
  have sz: "det_size A p d = of_nat (S d)"
    by (simp add: S_def sizes_of_def)
  have "(\<Sum>j\<in>{1..d}. S j) = pix_off S d + S d"
    using d by (cases d) (simp_all add: pix_off_def atLeastLessThanSuc_atLeastAtMost)
  then have "(\<Sum>j\<in>{1..d}. det_size A p j) - 1 = of_nat (pix_off S d + S d - 1)"
    using pos by (simp add: sums)
  then have w: "getIntegerParam A p2 d ADnEDDetNDArrayStart = of_nat (pix_off S d)"
     "getIntegerParam A p2 d ADnEDDetNDArrayEnd = of_nat (pix_off S d + S d - 1)"
     "getIntegerParam A p2 d ADnEDDetNDArraySize = of_nat (S d)"
     "getIntegerParam A p2 d ADnEDDetPixelNumSize = of_nat (S d)"
    using pix tof d
    by (simp_all add: pixel_layout_def tof_layout_def sums sz pix_off_def del: of_nat_diff)
  have "(of_nat (tof_off S n tofMax d) :: 32 word) =
      (\<Sum>j\<in>{1..n}. det_size A p j) + of_nat (d - 1) * (of_nat tofMax + 1)"
    by (simp only: tof_off_def sums of_nat_add of_nat_mult of_nat_1)
  then have v: "getIntegerParam A p2 d ADnEDDetNDArrayTOFStart = of_nat (tof_off S n tofMax d)"
     "getIntegerParam A p2 d ADnEDDetNDArrayTOFEnd = of_nat (tof_off S n tofMax d + tofMax)"
    using tof d by (simp_all add: tof_layout_def)
  show "sint (getIntegerParam A p2 d ADnEDDetNDArrayStart) = int (pix_off (sizes_of A p) d) \<and>
     sint (getIntegerParam A p2 d ADnEDDetNDArrayEnd) = int (pix_off (sizes_of A p) d + sizes_of A p d - 1) \<and>
     sint (getIntegerParam A p2 d ADnEDDetNDArraySize) = int (sizes_of A p d) \<and>
     sint (getIntegerParam A p2 d ADnEDDetPixelNumSize) = int (sizes_of A p d) \<and>
     sint (getIntegerParam A p2 d ADnEDDetNDArrayTOFStart) = int (tof_off (sizes_of A p) n tofMax d) \<and>
     sint (getIntegerParam A p2 d ADnEDDetNDArrayTOFEnd) = int (tof_off (sizes_of A p) n tofMax d + tofMax)"
    unfolding S_def [symmetric] w v
    using total off tofs by (intro conjI sint32_of_nat) linarith+
qed

context asyn_port
begin

lemma published_status: "published A (setI A 0 ADnEDAllocSpaceStatus v p) = published A p"
  by (simp add: published_def port_laws fun_eq_iff)

lemma only_layout_status: "only_layout A p p' \<Longrightarrow> only_layout A p (setI A 0 ADnEDAllocSpaceStatus v p')"
  by (auto simp: only_layout_def port_laws layout_iparams_def fun_eq_iff)

lemma allocArray_eq:
  assumes config: "alloc_config A (plib s) n tofMax" and todo: "m_dataAlloc s"
    and mem: "alloc_ok N" and N: "N = buf_len (sizes_of A (plib s)) n tofMax"
  shows "\<exists>p. published A p (sizes_of A (plib s)) n tofMax \<and> only_layout A (plib s) p \<and> allocArray alloc_ok A s = (asynSuccess,
      s\<lparr>plib := setI A 0 ADnEDAllocSpaceStatus ALLOC_STATUS_OK p,
        m_dataMaxSize := of_nat (\<Sum>d\<in>{1..n}. sizes_of A (plib s) d),
        m_bufferMaxSize := of_nat N, m_tofMax := of_nat tofMax, m_dataAlloc := False,
        p_Data := Some (replicate N 0)\<rparr>)"
proof -
  define S where "S = sizes_of A (plib s)"
  define ds where "ds = [1..<Suc n]"
  define tot where "tot = (\<Sum>d\<in>{1..n}. det_size A (plib s) d)"
  define s1 where "s1 = s\<lparr>m_tofMax := of_nat tofMax, m_dataMaxSize := 0\<rparr>"
  have n: "1 \<le> n" "n \<le> ADNED_MAX_DETS" and N31: "N < 2 ^ 31" and S1: "0 < S 1"
    using config by (simp_all add: alloc_config_def N S_def)
  have dr: "det_range (of_nat n) = ds"
    using n by (simp add: det_range_def sint32_of_nat ds_def)
  obtain p1 where p1: "alloc_pixels A ds s1 = (True, s1\<lparr>plib := p1, m_dataMaxSize := tot\<rparr>)"
      and l1: "pixel_layout A 1 n 0 (plib s) p1"
    using alloc_pixels_upt [of 1 n s1] n config
    by (auto simp: s1_def alloc_config_def ds_def tot_def)
  define p2 where "p2 = alloc_tofs A (of_nat tofMax) ds tot p1"
  have l2: "tof_layout A 1 n (of_nat tofMax) tot p1 p2"
    unfolding p2_def ds_def using n by (intro alloc_tofs_upt) simp_all
  then have pub: "published A p2 S n tofMax"
    using layout_published [OF config l1] by (simp add: S_def tot_def)
  have only: "only_layout A (plib s) p2" using l1 l2 by (rule only_layout_loops)
  have tot: "tot = of_nat (\<Sum>d\<in>{1..n}. S d)"
    by (simp only: tot_def sum_det_size S_def)
  have "S 1 \<le> (\<Sum>d\<in>{1..n}. S d)" using n by (intro member_le_sum) auto
  moreover have "(\<Sum>d\<in>{1..n}. S d) \<le> N" by (simp add: N S_def buf_len_def)
  ultimately have nz: "tot \<noteq> 0" unfolding tot
    using N31 S1 by (simp add: word_of_nat_eq_0_iff nat_dvd_not_less del: of_nat_sum)
  have wN: "tot + of_nat n * (of_nat tofMax + 1) = (of_nat N :: 32 word)"
    by (simp only: tot N S_def buf_len_def of_nat_add of_nat_mult of_nat_1)
  have uN: "unat (of_nat N :: 32 word) = N" using N31 by (simp add: unat32_of_nat)
  have n0: "(of_nat n :: 32 word) \<noteq> 0" using n by (simp add: word_of_nat_eq_0_iff nat_dvd_not_less)
  have "allocArray alloc_ok A s = (asynSuccess,
      s\<lparr>plib := setI A 0 ADnEDAllocSpaceStatus ALLOC_STATUS_OK p2, m_dataMaxSize := tot,
        m_bufferMaxSize := of_nat N, m_tofMax := of_nat tofMax, m_dataAlloc := False,
        p_Data := Some (replicate N 0)\<rparr>)"
    using todo mem p1 n0 nz config
    by (simp add: allocArray_def alloc_config_def dr Let_def s1_def p2_def [symmetric] wN uN)
  then show ?thesis using pub only unfolding tot S_def by blast
qed

end

section \<open>Properties of allocArray\<close>

lemma demo_sizes: "sizes_of store_asyn demo_store 1 = 5" "sizes_of store_asyn demo_store 2 = 20"
  by (simp_all add: sizes_of_def det_size_def demo_get demo_ints_def Let_def)

lemma demo_config: "alloc_config store_asyn demo_store 2 7"
  using demo_sizes
  by (simp add: alloc_config_def det_ordered_def buf_len_def demo_get one_to_two) (simp add: demo_ints_def)

text \<open>(C11) Allocation on a valid configuration succeeds. It leaves a zeroed buffer of exactly as many
  cells as all pixel segments and all time-of-flight spectra need, publishes for every detector
  the offsets of the running sums, clears the request and reports the status OK. The pixel
  segments come first, in detector order, then the spectra of \<open>TOFMax + 1\<close> cells each.\<close>

theorem allocArray_layout:
  assumes "asyn_port A" "alloc_config A (plib s) n tofMax" "m_dataAlloc s"
    "alloc_ok (buf_len (sizes_of A (plib s)) n tofMax)"
  shows "\<exists>s'. allocArray alloc_ok A s = (asynSuccess, s')
    \<and> p_Data s' = Some (replicate (buf_len (sizes_of A (plib s)) n tofMax) 0)
    \<and> unat (m_bufferMaxSize s') = buf_len (sizes_of A (plib s)) n tofMax
    \<and> unat (m_dataMaxSize s') = pix_off (sizes_of A (plib s)) (Suc n)
    \<and> m_tofMax s' = of_nat tofMax \<and> \<not> m_dataAlloc s'
    \<and> published A (plib s') (sizes_of A (plib s)) n tofMax
    \<and> getIntegerParam A (plib s') 0 ADnEDAllocSpaceStatus = ALLOC_STATUS_OK"
proof -
  define N where "N = buf_len (sizes_of A (plib s)) n tofMax"
  have N: "N < 2 ^ 31" using assms(2) by (simp add: N_def alloc_config_def)
  moreover have "pix_off (sizes_of A (plib s)) (Suc n) \<le> N" by (simp only: pix_off_total N_def buf_len_def)
  ultimately have "unat (of_nat (pix_off (sizes_of A (plib s)) (Suc n)) :: 32 word) = pix_off (sizes_of A (plib s)) (Suc n)"
    "unat (of_nat N :: 32 word) = N" by (simp_all add: unat32_of_nat)
  moreover note asyn_port.allocArray_eq [OF assms(1-3), of alloc_ok N] assms(4)
  ultimately show ?thesis
    using asyn_port.published_status [OF assms(1)] asyn_port.get_set_int [OF assms(1)]
    by (auto simp: N_def pix_off_total)
qed

theorem allocArray_layout_witness:
  "\<exists>s'. allocArray (calloc_ok demo_machine) store_asyn demo_state = (asynSuccess, s')
    \<and> p_Data s' = Some (replicate 41 0) \<and> unat (m_bufferMaxSize s') = 41
    \<and> sint (getIntegerParam store_asyn (plib s') 2 ADnEDDetNDArrayStart) = 5
    \<and> sint (getIntegerParam store_asyn (plib s') 2 ADnEDDetNDArrayTOFStart) = 33"
proof -
  have len: "buf_len (sizes_of store_asyn demo_store) 2 7 = 41"
    using demo_sizes by (simp add: buf_len_def one_to_two)
  have off: "pix_off (sizes_of store_asyn demo_store) 2 = 5" "tof_off (sizes_of store_asyn demo_store) 2 7 2 = 33"
    using demo_sizes by (simp_all add: pix_off_def tof_off_def one_to_two numeral_2_eq_2 atLeastLessThanSuc)
  show ?thesis
    using allocArray_layout [OF st.asyn_port_axioms, of demo_state 2 7 "calloc_ok demo_machine"] demo_config
    by (auto simp: len off published_def one_to_two demo_machine_def)
qed

text \<open>The cells the published parameters give to pixel segment \<open>k\<close> (\<open>1 .. n\<close>) and to the spectrum of
  detector \<open>k - n\<close> (\<open>n + 1 .. 2 n\<close>).\<close>

definition published_cells :: "'p asyn \<Rightarrow> 'p \<Rightarrow> nat \<Rightarrow> nat \<Rightarrow> int set" where
  "published_cells A p n k =
     (if k \<le> n then {sint (getIntegerParam A p k ADnEDDetNDArrayStart)..sint (getIntegerParam A p k ADnEDDetNDArrayEnd)}
      else {sint (getIntegerParam A p (k - n) ADnEDDetNDArrayTOFStart)..sint (getIntegerParam A p (k - n) ADnEDDetNDArrayTOFEnd)})"

lemma published_cells_seg:
  assumes pub: "published A p sizes n tofMax" and pos: "\<And>d. d \<in> {1..n} \<Longrightarrow> 0 < sizes d" and k: "k \<in> {1..2 * n}"
  shows "published_cells A p n k =
    int ` {seg_start sizes n tofMax k..<seg_start sizes n tofMax k + seg_len sizes n tofMax k}"
proof (cases "k \<le> n")
  case True
  then have "published_cells A p n k = {int (pix_off sizes k)..int (pix_off sizes k + sizes k - 1)}"
    using pub k by (auto simp: published_cells_def published_def)
  also have "\<dots> = int ` {pix_off sizes k..<pix_off sizes k + sizes k}"
    using pos [of k] True k unfolding image_int_atLeastLessThan
    by (simp add: atLeastLessThanPlusOne_atLeastAtMost_int [symmetric])
  finally show ?thesis using True by (simp add: seg_start_def seg_len_def)
next
  case False
  then have "k - n \<in> {1..n}" using k by auto
  then have "published_cells A p n k = {int (tof_off sizes n tofMax (k - n))..int (tof_off sizes n tofMax (k - n) + tofMax)}"
    using pub False by (auto simp: published_cells_def published_def)
  also have "\<dots> = int ` {tof_off sizes n tofMax (k - n)..<tof_off sizes n tofMax (k - n) + (tofMax + 1)}"
    unfolding image_int_atLeastLessThan
    by (simp add: atLeastLessThanPlusOne_atLeastAtMost_int [symmetric] ac_simps)
  finally show ?thesis using False by (simp add: seg_start_def seg_len_def)
qed

text \<open>(C12) The segments that a successful allocation publishes (the pixel cells and the spectrum of
  every detector) tile the buffer: together they are exactly its cells, and no cell belongs to
  two of them. So a detector that stays inside its segments never counts into another one.\<close>

theorem allocArray_tiles:
  assumes "asyn_port A" "alloc_config A (plib s) n tofMax" "m_dataAlloc s"
    "alloc_ok (buf_len (sizes_of A (plib s)) n tofMax)"
  shows "\<exists>s' xs. allocArray alloc_ok A s = (asynSuccess, s') \<and> p_Data s' = Some xs
    \<and> (\<Union>k\<in>{1..2 * n}. published_cells A (plib s') n k) = {0..<int (length xs)}
    \<and> (\<forall>i\<in>{1..2 * n}. \<forall>j\<in>{1..2 * n}. i \<noteq> j \<longrightarrow>
         published_cells A (plib s') n i \<inter> published_cells A (plib s') n j = {})"
proof -
  define S where "S = sizes_of A (plib s)"
  obtain p where p: "published A p S n tofMax" "allocArray alloc_ok A s = (asynSuccess,
      s\<lparr>plib := setI A 0 ADnEDAllocSpaceStatus ALLOC_STATUS_OK p,
        m_dataMaxSize := of_nat (\<Sum>d\<in>{1..n}. S d),
        m_bufferMaxSize := of_nat (buf_len S n tofMax), m_tofMax := of_nat tofMax, m_dataAlloc := False,
        p_Data := Some (replicate (buf_len S n tofMax) 0)\<rparr>)" (is "_ = (_, ?s')")
    using asyn_port.allocArray_eq [OF assms(1-3), of alloc_ok "buf_len S n tofMax"] assms(4)
    unfolding S_def by blast
  have pub: "published A (plib ?s') S n tofMax" using p(1) asyn_port.published_status [OF assms(1)] by simp
  obtain m where n: "n = Suc m" using assms(2) by (cases n) (auto simp: alloc_config_def)
  have cells: "published_cells A (plib ?s') n k =
      int ` {seg_start S n tofMax k..<seg_start S n tofMax k + seg_len S n tofMax k}" if "k \<in> {1..2 * n}" for k
    using published_cells_seg [OF pub _ that] assms(2) by (auto simp: alloc_config_def S_def)
  have "(\<Union>k\<in>{1..2 * n}. published_cells A (plib ?s') n k) = int ` {0..<buf_len S n tofMax}"
    using tl.tiling(1) [of S m tofMax] cells unfolding n by (simp add: image_UN [symmetric])
  moreover have "published_cells A (plib ?s') n i \<inter> published_cells A (plib ?s') n j = {}"
    if "i \<in> {1..2 * n}" "j \<in> {1..2 * n}" "i \<noteq> j" for i j
  proof -
    have "{seg_start S n tofMax i..<seg_start S n tofMax i + seg_len S n tofMax i}
        \<inter> {seg_start S n tofMax j..<seg_start S n tofMax j + seg_len S n tofMax j} = {}"
      using tl.tiling(2) [of i m j S tofMax] that unfolding n by simp
    then show ?thesis
      unfolding cells [OF that(1)] cells [OF that(2)] by (metis image_Int image_is_empty inj_of_nat)
  qed
  ultimately show ?thesis
    using p(2) by (intro exI [of _ ?s'] exI [of _ "replicate (buf_len S n tofMax) 0"])
      (simp add: image_int_atLeastLessThan)
qed

theorem allocArray_tiles_witness:
  "\<exists>s' xs. allocArray (calloc_ok demo_machine) store_asyn demo_state = (asynSuccess, s') \<and> p_Data s' = Some xs
    \<and> (\<Union>k\<in>{1..2 * 2}. published_cells store_asyn (plib s') 2 k) = {0..<int (length xs)}"
proof -
  have "buf_len (sizes_of store_asyn demo_store) 2 7 = 41" using demo_sizes by (simp add: buf_len_def one_to_two)
  then show ?thesis
    using allocArray_tiles [OF st.asyn_port_axioms, of demo_state 2 7 "calloc_ok demo_machine"] demo_config
    by (auto simp: demo_machine_def)
qed

section \<open>Allocation that fails\<close>

lemma alloc_pixels_reversed:
  assumes "\<exists>d\<in>set ds. \<not> det_ordered A (plib s) d" "set ds \<subseteq> {0..ADNED_MAX_DETS}" "asyn_port A"
  shows "\<exists>p m. alloc_pixels A ds s =
    (False, s\<lparr>plib := setI A 0 ADnEDAllocSpaceStatus ALLOC_STATUS_FAIL p, m_dataMaxSize := m\<rparr>)"
  using assms
proof (induction ds arbitrary: s)
  case Nil
  then show ?case by simp
next
  case (Cons d ds)
  show ?case
  proof (cases "det_ordered A (plib s) d")
    case True
    obtain p where p: "alloc_pixels A (d # ds) s = alloc_pixels A ds
           (s\<lparr>plib := p, m_dataMaxSize := m_dataMaxSize s + det_size A (plib s) d\<rparr>)"
        "pixel_layout A d d (m_dataMaxSize s) (plib s) p"
      using asyn_port.alloc_pixels_one [OF assms(3) _ True] Cons.prems(2) by auto
    have "\<exists>e\<in>set ds. \<not> det_ordered A p e"
      using Cons.prems(1) True pixel_layout_ordered [OF p(2)] by auto
    then show ?thesis
      using Cons.IH [of "s\<lparr>plib := p, m_dataMaxSize := m_dataMaxSize s + det_size A (plib s) d\<rparr>"] Cons.prems(2,3) p(1)
      by auto
  next
    case False
    then show ?thesis
      by (intro exI [of _ "plib s"] exI [of _ "m_dataMaxSize s"]) (simp add: det_ordered_def)
  qed
qed

text \<open>A detector whose pixel range is reversed makes the allocation fail: the call returns an
  error, reports the status FAIL, keeps the old buffer, and leaves the request pending. The new
  \<open>TOFMax\<close> is stored all the same, so that it no longer describes the buffer that was kept.\<close>

theorem allocArray_reversed:
  assumes "asyn_port A" "m_dataAlloc s" "getIntegerParam A (plib s) 0 ADnEDNumDet = of_nat n"
    "1 \<le> d" "d \<le> n" "n \<le> ADNED_MAX_DETS" "\<not> det_ordered A (plib s) d"
  shows "\<exists>s'. allocArray alloc_ok A s = (asynError, s') \<and> p_Data s' = p_Data s
    \<and> m_bufferMaxSize s' = m_bufferMaxSize s \<and> m_dataAlloc s'
    \<and> m_tofMax s' = getIntegerParam A (plib s) 0 ADnEDTOFMax
    \<and> getIntegerParam A (plib s') 0 ADnEDAllocSpaceStatus = ALLOC_STATUS_FAIL"
proof -
  have n: "det_range (of_nat n) = [1..<Suc n]" "(of_nat n :: 32 word) \<noteq> 0"
    using assms(4-6) by (simp_all add: det_range_def sint32_of_nat word_of_nat_eq_0_iff nat_dvd_not_less)
  define s1 where "s1 = s\<lparr>m_tofMax := getIntegerParam A (plib s) 0 ADnEDTOFMax, m_dataMaxSize := 0\<rparr>"
  have "\<exists>e\<in>set [1..<Suc n]. \<not> det_ordered A (plib s1) e" using assms(4,5,7) by (intro bexI [of _ d]) (auto simp: s1_def)
  moreover have "set [1..<Suc n] \<subseteq> {0..ADNED_MAX_DETS}" using assms(6) by auto
  ultimately obtain p m where "alloc_pixels A [1..<Suc n] s1 =
      (False, s1\<lparr>plib := setI A 0 ADnEDAllocSpaceStatus ALLOC_STATUS_FAIL p, m_dataMaxSize := m\<rparr>)"
    using alloc_pixels_reversed [OF _ _ assms(1)] by blast
  then show ?thesis
    using assms(2,3) n asyn_port.get_set_int [OF assms(1)]
    by (simp add: allocArray_def Let_def s1_def del: upt_Suc)
qed

theorem allocArray_reversed_witness:
  "\<exists>s'. allocArray (calloc_ok demo_machine) store_asyn
      (demo_state\<lparr>plib := setI store_asyn 2 ADnEDDetPixelNumEnd 50 demo_store, p_Data := Some [1, 2, 3]\<rparr>) = (asynError, s')
    \<and> p_Data s' = Some [1, 2, 3] \<and> m_tofMax s' = 7"
proof -
  have "\<not> det_ordered store_asyn (setI store_asyn 2 ADnEDDetPixelNumEnd 50 demo_store) 2"
    "getIntegerParam store_asyn (setI store_asyn 2 ADnEDDetPixelNumEnd 50 demo_store) 0 ADnEDNumDet = 2"
    "getIntegerParam store_asyn (setI store_asyn 2 ADnEDDetPixelNumEnd 50 demo_store) 0 ADnEDTOFMax = 7"
    by (simp_all add: det_ordered_def st.get_set_int demo_get) (simp_all add: demo_ints_def)
  then show ?thesis
    using allocArray_reversed [OF st.asyn_port_axioms, of "demo_state\<lparr>plib := setI store_asyn 2 ADnEDDetPixelNumEnd 50 demo_store,
      p_Data := Some [1, 2, 3]\<rparr>" 2 2 "calloc_ok demo_machine"] by auto
qed

end
