(* ===== verification/Maintenance.thy ===== *)
theory Maintenance
  imports Layout
begin

text \<open>
  Clearing and checking: \<open>clearParams\<close>, \<open>resetTOFArray\<close> and \<open>checkPixelMap\<close> on a buffer whose length is
  the one the driver has recorded (\<open>buf_inv\<close>).
\<close>

section \<open>Invariant of the buffer\<close>

definition buf_inv :: "('p, 't) adned \<Rightarrow> bool" where
  "buf_inv s \<longleftrightarrow> (case p_Data s of None \<Rightarrow> True | Some xs \<Rightarrow> length xs = unat (m_bufferMaxSize s))"

lemma clear_data_ok:
  assumes "buf_inv s"
  shows "clear_data s = Inr (s\<lparr>p_Data := map_option (\<lambda>xs. replicate (length xs) 0) (p_Data s)\<rparr>)"
proof (cases "p_Data s")
  case None
  then have "s\<lparr>p_Data := None\<rparr> = s" by simp
  with None show ?thesis by (simp add: clear_data_def)
next
  case (Some xs)
  then show ?thesis using assms by (simp add: clear_data_def buf_inv_def mem_zero_def)
qed

lemma alloc_pixels_frame:
  "alloc_pixels A ds s = (ok, s') \<Longrightarrow> \<exists>p m. s' = s\<lparr>plib := p, m_dataMaxSize := m\<rparr>"
proof (induction ds arbitrary: s)
  case Nil
  then show ?case by (intro exI [of _ "plib s"] exI [of _ "m_dataMaxSize s"]) simp
next
  case (Cons d ds)
  show ?case
  proof (cases "det_ordered A (plib s) d")
    case True
    then obtain p m where "alloc_pixels A ds (s\<lparr>plib := p, m_dataMaxSize := m\<rparr>) = (ok, s')"
      using Cons.prems by (auto simp: det_ordered_def Let_def)
    from Cons.IH [OF this] show ?thesis by auto
  next
    case False
    then show ?thesis using Cons.prems
      by (intro exI [of _ "plib s'"] exI [of _ "m_dataMaxSize s"]) (auto simp: det_ordered_def)
  qed
qed

lemma length_mem_zero: "mem_zero i n xs = Inr ys \<Longrightarrow> length ys = length xs"
  by (auto simp: mem_zero_def split: if_splits)

lemma resetTOFArray_frame:
  assumes "resetTOFArray A d s = Inr s'"
  shows "\<exists>ys. s' = s\<lparr>p_Data := ys\<rparr> \<and> map_option length ys = map_option length (p_Data s)"
proof (cases "s' = s")
  case True
  then show ?thesis by (intro exI [of _ "p_Data s"]) simp
next
  case False
  then obtain xs ys where "p_Data s = Some xs" "s' = s\<lparr>p_Data := Some ys\<rparr>"
      "mem_zero (sint (getIntegerParam A (plib s) d ADnEDDetNDArrayTOFStart)) (unat (m_tofMax s + 1)) xs = Inr ys"
    using assms by (auto simp: resetTOFArray_def Let_def split: if_splits option.splits)
  then show ?thesis using length_mem_zero by (intro exI [of _ "Some ys"]) auto
qed

lemma buf_inv_allocArray:
  assumes "buf_inv s"
  shows "buf_inv (snd (allocArray ok A s))"
proof (cases "m_dataAlloc s \<and> getIntegerParam A (plib s) 0 ADnEDNumDet \<noteq> 0")
  case False
  then show ?thesis using assms by (auto simp: allocArray_def buf_inv_def Let_def split: option.splits)
next
  case True
  define nd tm where "nd = getIntegerParam A (plib s) 0 ADnEDNumDet" and "tm = getIntegerParam A (plib s) 0 ADnEDTOFMax"
  obtain fin s2 where ap: "alloc_pixels A (det_range nd) (s\<lparr>m_tofMax := tm, m_dataMaxSize := 0\<rparr>) = (fin, s2)"
    by (cases "alloc_pixels A (det_range nd) (s\<lparr>m_tofMax := tm, m_dataMaxSize := 0\<rparr>)")
  obtain p m where s2: "s2 = s\<lparr>m_tofMax := tm, plib := p, m_dataMaxSize := m\<rparr>"
    using alloc_pixels_frame [OF ap] by auto
  show ?thesis
    using assms True ap unfolding nd_def tm_def s2
    by (cases fin) (simp_all add: allocArray_def buf_inv_def Let_def split: option.splits)
qed

section \<open>clearParams\<close>

definition chan_iparams :: "iparam set" where
  "chan_iparams = {ADnEDSeqCounter, ADnEDSeqID, ADnEDSeqIDMissing, ADnEDSeqIDNumMissing, ADnEDBadTimeStamp}"

context asyn_port
begin

lemma clear_channel_step:
  assumes "c \<le> ADNED_MAX_DETS"
  shows "\<exists>p. clear_channel A T c (b, s) = (b, s\<lparr>plib := p,
      m_seqCounter := (m_seqCounter s)(c := 0), m_seqID := (m_seqID s)(c := 0), m_lastSeqID := (m_lastSeqID s)(c := -1),
      m_TimeStamp := (m_TimeStamp s)(c := ts_put T 0 0 (m_TimeStamp s c)),
      m_TimeStampLast := (m_TimeStampLast s)(c := ts_put T 0 0 (m_TimeStampLast s c))\<rparr>)
    \<and> (\<forall>a q. getIntegerParam A p a q = (if a = c \<and> q \<in> chan_iparams then 0 else getIntegerParam A (plib s) a q))
    \<and> getDoubleParam A p = getDoubleParam A (plib s)"
proof -
  define p where "p = calls A c (setI A c ADnEDBadTimeStamp 0 (setI A c ADnEDSeqIDNumMissing 0
    (setI A c ADnEDSeqIDMissing 0 (setI A c ADnEDSeqID 0 (setI A c ADnEDSeqCounter 0 (plib s))))))"
  have "clear_channel A T c (b, s) = (b, s\<lparr>plib := p,
      m_seqCounter := (m_seqCounter s)(c := 0), m_seqID := (m_seqID s)(c := 0), m_lastSeqID := (m_lastSeqID s)(c := -1),
      m_TimeStamp := (m_TimeStamp s)(c := ts_put T 0 0 (m_TimeStamp s c)),
      m_TimeStampLast := (m_TimeStampLast s)(c := ts_put T 0 0 (m_TimeStampLast s c))\<rparr>)"
    using assms by (simp add: clear_channel_def p_def split_beta set_int_ok Let_def)
  moreover have "getIntegerParam A p a q = (if a = c \<and> q \<in> chan_iparams then 0 else getIntegerParam A (plib s) a q)" for a q
    using assms by (auto simp: p_def port_laws chan_iparams_def)
  moreover have "getDoubleParam A p = getDoubleParam A (plib s)" by (simp add: p_def port_laws fun_eq_iff)
  ultimately show ?thesis by blast
qed

lemma clear_channels:
  assumes "set cs \<subseteq> {..ADNED_MAX_DETS}"
  shows "\<exists>s'. fold (clear_channel A T) cs (b, s) = (b, s')
    \<and> p_Data s' = p_Data s \<and> m_bufferMaxSize s' = m_bufferMaxSize s \<and> m_pChargeInt s' = m_pChargeInt s
    \<and> m_pulseCounter s' = m_pulseCounter s \<and> m_detTotalEvents s' = m_detTotalEvents s
    \<and> (\<forall>c. m_seqCounter s' c = (if c \<in> set cs then 0 else m_seqCounter s c)
         \<and> m_seqID s' c = (if c \<in> set cs then 0 else m_seqID s c)
         \<and> m_lastSeqID s' c = (if c \<in> set cs then -1 else m_lastSeqID s c))
    \<and> (\<forall>a q. getIntegerParam A (plib s') a q =
         (if a \<in> set cs \<and> q \<in> chan_iparams then 0 else getIntegerParam A (plib s) a q))
    \<and> getDoubleParam A (plib s') = getDoubleParam A (plib s)"
  using assms
proof (induction cs arbitrary: s)
  case Nil
  then show ?case by simp
next
  case (Cons c cs)
  then have c: "c \<le> ADNED_MAX_DETS" and cs: "set cs \<subseteq> {..ADNED_MAX_DETS}" by auto
  obtain s1 where s1: "clear_channel A T c (b, s) = (b, s1)" "p_Data s1 = p_Data s" "m_bufferMaxSize s1 = m_bufferMaxSize s"
      "m_pChargeInt s1 = m_pChargeInt s" "m_pulseCounter s1 = m_pulseCounter s" "m_detTotalEvents s1 = m_detTotalEvents s"
      "m_seqCounter s1 = (m_seqCounter s)(c := 0)" "m_seqID s1 = (m_seqID s)(c := 0)" "m_lastSeqID s1 = (m_lastSeqID s)(c := -1)"
      "\<forall>a q. getIntegerParam A (plib s1) a q = (if a = c \<and> q \<in> chan_iparams then 0 else getIntegerParam A (plib s) a q)"
      "getDoubleParam A (plib s1) = getDoubleParam A (plib s)"
    using clear_channel_step [OF c, of T b s] by auto
  show ?case using Cons.IH [OF cs, of s1] s1 by auto
qed

lemma clear_dets:
  assumes "set ds \<subseteq> {..ADNED_MAX_DETS}"
  shows "\<exists>p. fold (clear_det A) ds s = s\<lparr>plib := p,
      m_detTotalEvents := (\<lambda>d. if d \<in> set ds then Fin 0 else m_detTotalEvents s d)\<rparr>
    \<and> getIntegerParam A p = getIntegerParam A (plib s)
    \<and> (\<forall>a x. getDoubleParam A p a x = (if a \<in> set ds \<and> x = ADnEDDetEventTotal then Fin 0 else getDoubleParam A (plib s) a x))"
  using assms
proof (induction ds arbitrary: s)
  case Nil
  then show ?case by (intro exI [of _ "plib s"]) simp
next
  case (Cons d ds)
  define s1 where "s1 = clear_det A d s"
  obtain q where q: "s1 = s\<lparr>m_detTotalEvents := (m_detTotalEvents s)(d := Fin 0), plib := q\<rparr>"
      "getIntegerParam A q = getIntegerParam A (plib s)"
      "\<forall>a x. getDoubleParam A q a x = (if a = d \<and> x = ADnEDDetEventTotal then Fin 0 else getDoubleParam A (plib s) a x)"
    using Cons.prems by (auto simp: s1_def clear_det_def port_laws fun_eq_iff)
  obtain p where p: "fold (clear_det A) ds s1 = s1\<lparr>plib := p,
      m_detTotalEvents := (\<lambda>d. if d \<in> set ds then Fin 0 else m_detTotalEvents s1 d)\<rparr>"
      "getIntegerParam A p = getIntegerParam A (plib s1)"
      "\<forall>a x. getDoubleParam A p a x = (if a \<in> set ds \<and> x = ADnEDDetEventTotal then Fin 0 else getDoubleParam A (plib s1) a x)"
    using Cons.IH [of s1] Cons.prems by auto
  have "(\<lambda>e. if e \<in> set ds then Fin 0 else m_detTotalEvents s1 e)
      = (\<lambda>e. if e \<in> set (d # ds) then Fin 0 else m_detTotalEvents s e)"
    by (auto simp: q(1) fun_eq_iff)
  then have "fold (clear_det A) (d # ds) s =
      s\<lparr>plib := p, m_detTotalEvents := (\<lambda>e. if e \<in> set (d # ds) then Fin 0 else m_detTotalEvents s e)\<rparr>"
    using p(1) by (simp add: s1_def [symmetric]) (simp add: q(1))
  then show ?case using p(2,3) q(2,3) by (intro exI [of _ p]) (auto simp: q(1))
qed

end

lemma clear_loops:
  assumes "asyn_port A"
  shows "\<exists>s'. (let (b', s2) = fold (clear_channel A T) [0..<ADNED_MAX_CHANNELS] (b, s) in
        (b', fold (clear_det A) [0..<Suc ADNED_MAX_DETS] s2)) = (b, s')
    \<and> p_Data s' = p_Data s \<and> m_bufferMaxSize s' = m_bufferMaxSize s \<and> m_pChargeInt s' = m_pChargeInt s
    \<and> m_pulseCounter s' = m_pulseCounter s \<and> (\<forall>d\<le>ADNED_MAX_DETS. m_detTotalEvents s' d = Fin 0)
    \<and> (\<forall>c<ADNED_MAX_CHANNELS. m_seqCounter s' c = 0 \<and> m_seqID s' c = 0 \<and> m_lastSeqID s' c = -1)
    \<and> (\<forall>a q. getIntegerParam A (plib s') a q =
         (if a < ADNED_MAX_CHANNELS \<and> q \<in> chan_iparams then 0 else getIntegerParam A (plib s) a q))
    \<and> (\<forall>a x. getDoubleParam A (plib s') a x =
         (if a \<le> ADNED_MAX_DETS \<and> x = ADnEDDetEventTotal then Fin 0 else getDoubleParam A (plib s) a x))"
proof -
  have "set [0..<ADNED_MAX_CHANNELS] \<subseteq> {..ADNED_MAX_DETS}" "set [0..<Suc ADNED_MAX_DETS] \<subseteq> {..ADNED_MAX_DETS}" by auto
  note sub = this
  obtain s2 where s2: "fold (clear_channel A T) [0..<ADNED_MAX_CHANNELS] (b, s) = (b, s2)"
      "p_Data s2 = p_Data s" "m_bufferMaxSize s2 = m_bufferMaxSize s" "m_pChargeInt s2 = m_pChargeInt s"
      "m_pulseCounter s2 = m_pulseCounter s"
      "\<forall>c<ADNED_MAX_CHANNELS. m_seqCounter s2 c = 0 \<and> m_seqID s2 c = 0 \<and> m_lastSeqID s2 c = -1"
      "\<forall>a q. getIntegerParam A (plib s2) a q =
         (if a < ADNED_MAX_CHANNELS \<and> q \<in> chan_iparams then 0 else getIntegerParam A (plib s) a q)"
      "getDoubleParam A (plib s2) = getDoubleParam A (plib s)"
    using asyn_port.clear_channels [OF assms sub(1), of T b s] by (auto simp del: adned_limits)
  show ?thesis using asyn_port.clear_dets [OF assms sub(2), of s2] s2
    by (auto simp del: adned_limits upt_Suc simp: less_Suc_eq_le)
qed

lemma clearParams_result:
  assumes "asyn_port A" "buf_inv s"
  shows "\<exists>s'. clearParams A T s = Inr (asynSuccess, s') \<and> buf_inv s'
    \<and> p_Data s' = map_option (\<lambda>xs. replicate (length xs) 0) (p_Data s)
    \<and> m_pChargeInt s' = Fin 0 \<and> m_pulseCounter s' = 0 \<and> (\<forall>d\<le>ADNED_MAX_DETS. m_detTotalEvents s' d = Fin 0)
    \<and> (\<forall>c<ADNED_MAX_CHANNELS. m_seqCounter s' c = 0 \<and> m_seqID s' c = 0 \<and> m_lastSeqID s' c = -1)
    \<and> (\<forall>a q. getIntegerParam A (plib s') a q =
         (if a = 0 \<and> q = ADnEDPulseCounter \<or> a < ADNED_MAX_CHANNELS \<and> q \<in> chan_iparams then 0
          else getIntegerParam A (plib s) a q))
    \<and> (\<forall>a x. getDoubleParam A (plib s') a x =
         (if a = 0 \<and> (x = ADnEDPCharge \<or> x = ADnEDPChargeInt) \<or> a \<le> ADNED_MAX_DETS \<and> x = ADnEDDetEventTotal
          then Fin 0 else getDoubleParam A (plib s) a x))"
proof -
  note port = asyn_port.port_laws [OF assms(1)]
  define p where "p = setD A 0 ADnEDPChargeInt (Fin 0) (setD A 0 ADnEDPCharge (Fin 0) (setI A 0 ADnEDPulseCounter 0 (plib s)))"
  define s1 where "s1 = s\<lparr>plib := p, m_pChargeInt := Fin 0, m_pulseCounter := 0,
    p_Data := map_option (\<lambda>xs. replicate (length xs) 0) (p_Data s)\<rparr>"
  have "buf_inv (s\<lparr>plib := p, m_pChargeInt := Fin 0, m_pulseCounter := 0\<rparr>)" using assms(2) by (simp add: buf_inv_def split: option.splits)
  from clear_data_ok [OF this]
  have cd: "clear_data (s\<lparr>plib := p, m_pChargeInt := Fin 0, m_pulseCounter := 0\<rparr>) = Inr s1" by (simp add: s1_def)
  obtain s' where s': "(let (b', s2) = fold (clear_channel A T) [0..<ADNED_MAX_CHANNELS] (True, s1) in
        (b', fold (clear_det A) [0..<Suc ADNED_MAX_DETS] s2)) = (True, s')"
      "p_Data s' = p_Data s1" "m_bufferMaxSize s' = m_bufferMaxSize s1" "m_pChargeInt s' = m_pChargeInt s1"
      "m_pulseCounter s' = m_pulseCounter s1" "\<forall>d\<le>ADNED_MAX_DETS. m_detTotalEvents s' d = Fin 0"
      "\<forall>c<ADNED_MAX_CHANNELS. m_seqCounter s' c = 0 \<and> m_seqID s' c = 0 \<and> m_lastSeqID s' c = -1"
      "\<forall>a q. getIntegerParam A (plib s') a q =
         (if a < ADNED_MAX_CHANNELS \<and> q \<in> chan_iparams then 0 else getIntegerParam A (plib s1) a q)"
      "\<forall>a x. getDoubleParam A (plib s') a x =
         (if a \<le> ADNED_MAX_DETS \<and> x = ADnEDDetEventTotal then Fin 0 else getDoubleParam A (plib s1) a x)"
    using clear_loops [OF assms(1), of T True s1] by blast
  have "clearParams A T s = Inr (asynSuccess, s')"
    using s'(1) cd by (simp add: clearParams_def p_def split_beta Let_def port(1,2) del: upt_Suc adned_limits)
  moreover have "buf_inv s'" using assms(2) s'(2,3) by (auto simp: buf_inv_def s1_def split: option.splits)
  ultimately show ?thesis using s'(2-)
    by (intro exI [of _ s']) (simp add: s1_def p_def port del: adned_limits)
qed



section \<open>resetTOFArray\<close>

lemma unat_plus_one: "(w :: u32) \<noteq> -1 \<Longrightarrow> unat (w + 1) = Suc (unat w)"
  using unatSuc [of w] by (simp add: add.commute add_eq_0_iff)

text \<open>(C35) Resetting one detector's spectrum clears exactly that spectrum. When the detector's segment
  \<open>TOFStart .. TOFStart+m_tofMax\<close> lies inside the buffer, \<open>resetTOFArray\<close> succeeds, its cells are zero
  afterwards, and no other cell and no other member changes.\<close>

theorem resetTOFArray_segment:
  assumes "p_Data s = Some xs" "0 < m_tofMax s" "m_tofMax s \<noteq> -1"
    "0 < sint (getIntegerParam A (plib s) d ADnEDDetNDArrayTOFStart)"
    "nat (sint (getIntegerParam A (plib s) d ADnEDDetNDArrayTOFStart)) + unat (m_tofMax s) < length xs"
  shows "\<exists>ys. resetTOFArray A d s = Inr (s\<lparr>p_Data := Some ys\<rparr>) \<and> length ys = length xs
    \<and> (\<forall>k<length xs. ys ! k =
        (if sint (getIntegerParam A (plib s) d ADnEDDetNDArrayTOFStart) \<le> int k
          \<and> int k \<le> sint (getIntegerParam A (plib s) d ADnEDDetNDArrayTOFStart) + uint (m_tofMax s) then 0 else xs ! k))"
proof -
  define a where "a = sint (getIntegerParam A (plib s) d ADnEDDetNDArrayTOFStart)"
  have n: "unat (m_tofMax s + 1) = Suc (unat (m_tofMax s))"
    using assms(3) by (rule unat_plus_one)
  obtain ys where ys: "mem_zero a (unat (m_tofMax s + 1)) xs = Inr ys" "length ys = length xs"
      "\<forall>k<length xs. ys ! k = (if nat a \<le> k \<and> k < nat a + unat (m_tofMax s + 1) then 0 else xs ! k)"
    using mem_zero_ok [of a "unat (m_tofMax s + 1)" xs] assms(4,5) n by (auto simp: a_def)
  have "(nat a \<le> k \<and> k < nat a + unat (m_tofMax s + 1)) = (a \<le> int k \<and> int k \<le> a + uint (m_tofMax s))" for k
  proof -
    have "uint (m_tofMax s) = int (unat (m_tofMax s))" "0 < a" using assms(4) by (simp_all add: a_def)
    then show ?thesis unfolding n by linarith
  qed
  then show ?thesis using ys assms(1,2,4) by (auto simp: resetTOFArray_def a_def [symmetric] Let_def)
qed

theorem resetTOFArray_segment_witness:
  "\<exists>ys. resetTOFArray store_asyn 1 (run_state\<lparr>p_Data := Some (replicate 41 5)\<rparr>)
      = Inr (run_state\<lparr>p_Data := Some ys\<rparr>) \<and> ys ! 24 = 5 \<and> ys ! 25 = 0 \<and> ys ! 32 = 0 \<and> ys ! 33 = 5"
proof -
  define s xs where "s = run_state\<lparr>p_Data := Some (replicate 41 5)\<rparr>" and "xs = replicate 41 (5 :: u32)"
  have s: "p_Data s = Some xs" "m_tofMax s = 7" "getIntegerParam store_asyn (plib s) 1 ADnEDDetNDArrayTOFStart = 25"
      "s\<lparr>p_Data := p\<rparr> = run_state\<lparr>p_Data := p\<rparr>" "length xs = 41" "\<And>k. k < 41 \<Longrightarrow> xs ! k = 5" for p
    by (simp_all add: s_def xs_def run_get run_ints_def)
  obtain ys where "resetTOFArray store_asyn 1 s = Inr (run_state\<lparr>p_Data := Some ys\<rparr>)"
      "\<forall>k<41. ys ! k = (if 25 \<le> int k \<and> int k \<le> 25 + 7 then 0 else xs ! k)"
    using resetTOFArray_segment [of s xs store_asyn 1] unfolding s by auto
  then show ?thesis unfolding s_def [symmetric] by (intro exI [of _ ys]) (simp add: s(6))
qed

text \<open>(C40) After a failed allocation the next reset can write past the buffer. \<open>allocArray\<close> stores the new
  \<open>TOFMax\<close> before its checks; when it then fails because no detector is configured, the old, smaller
  buffer stays, and \<open>resetTOFArray\<close> clears as many cells as the new maximum says.\<close>

theorem reset_after_failed_alloc:
  assumes "m_dataAlloc s" "getIntegerParam A (plib s) 0 ADnEDNumDet = 0" "p_Data s = Some xs"
    "getIntegerParam A (plib s) 0 ADnEDTOFMax = tm" "0 < tm" "tm \<noteq> -1"
    "0 < sint (getIntegerParam A (plib s) d ADnEDDetNDArrayTOFStart)"
    "length xs \<le> nat (sint (getIntegerParam A (plib s) d ADnEDDetNDArrayTOFStart)) + unat tm"
  shows "\<exists>s'. allocArray ok A s = (asynError, s') \<and> p_Data s' = Some xs \<and> resetTOFArray A d s' = Inl Oob_Write"
proof -
  have "unat (tm + 1) = Suc (unat tm)" using assms(6) by (rule unat_plus_one)
  then show ?thesis using assms by (auto simp: allocArray_def resetTOFArray_def mem_zero_def)
qed

theorem reset_after_failed_alloc_witness:
  "\<exists>s'. allocArray (calloc_ok demo_machine) store_asyn
       (run_state\<lparr>m_dataAlloc := True, plib := setI store_asyn 0 ADnEDTOFMax 100
          (setI store_asyn 0 ADnEDNumDet 0 (plib run_state))\<rparr>) = (asynError, s')
    \<and> resetTOFArray store_asyn 1 s' = Inl Oob_Write"
proof -
  define s where "s = run_state\<lparr>m_dataAlloc := True, plib := setI store_asyn 0 ADnEDTOFMax 100
          (setI store_asyn 0 ADnEDNumDet 0 (plib run_state))\<rparr>"
  have "m_dataAlloc s" "getIntegerParam store_asyn (plib s) 0 ADnEDNumDet = 0" "p_Data s = Some (replicate 41 0)"
    "getIntegerParam store_asyn (plib s) 0 ADnEDTOFMax = 100"
    "getIntegerParam store_asyn (plib s) 1 ADnEDDetNDArrayTOFStart = 25"
    by (simp_all add: s_def st.get_set_int run_get run_ints_def)
  then show ?thesis
    using reset_after_failed_alloc [of s store_asyn "replicate 41 0" 100 1 "calloc_ok demo_machine"]
    unfolding s_def [symmetric] by auto
qed

section \<open>checkPixelMap\<close>

definition map_inv :: "nat \<Rightarrow> ('p, 't) adned \<Rightarrow> bool" where
  "map_inv d s \<longleftrightarrow> (case p_PixelMap s d of None \<Rightarrow> True | Some xs \<Rightarrow> unat (m_PixelMapSize s d) \<le> length xs)"

lemma check_loop_result:
  "(\<And>i. i \<in> set is \<Longrightarrow> i < length xs) \<Longrightarrow> check_loop limit is xs = Inr (\<exists>i\<in>set is. limit < xs ! i)"
  by (induction "is") (auto simp: mem_read_def)

lemma length_memset_bytes: "n \<le> length xs \<Longrightarrow> length (memset_bytes n xs) = length xs"
  by (auto simp: memset_bytes_def Let_def)

text \<open>(C36) What the check of a pixel map guarantees. The check never reads outside the loaded map. It
  reports success exactly when there is a non-empty map none of whose entries exceeds the detector's
  size, and then changes nothing; otherwise the map is out of use afterwards (there is none, or its size is zero),
  its memory keeps its length, and the maps of all other detectors are untouched. The bound is the size
  itself, one more than the largest index of the detector's segment.\<close>

theorem checkPixelMap_spec:
  assumes "map_inv d s"
  shows "\<exists>st s'. checkPixelMap A d s = Inr (st, s') \<and> map_inv d s' \<and> st \<in> {asynSuccess, asynError}
    \<and> (st = asynSuccess \<longleftrightarrow> p_PixelMap s d \<noteq> None \<and> m_PixelMapSize s d \<noteq> 0 \<and> (\<forall>i<unat (m_PixelMapSize s d).
         the (p_PixelMap s d) ! i \<le> getIntegerParam A (plib s) d ADnEDDetPixelNumSize))
    \<and> (if st = asynSuccess then s' = s
       else (p_PixelMap s' d = None \<or> m_PixelMapSize s' d = 0) \<and> (\<forall>e. e \<noteq> d \<longrightarrow> p_PixelMap s' e = p_PixelMap s e \<and> m_PixelMapSize s' e = m_PixelMapSize s e)
         \<and> map_option length (p_PixelMap s' d) = map_option length (p_PixelMap s d) \<and> plib s' = plib s \<and> p_Data s' = p_Data s)"
proof (cases "p_PixelMap s d")
  case None
  then show ?thesis using assms by (auto simp: checkPixelMap_def map_inv_def)
next
  case (Some xs)
  define n lim where "n = unat (m_PixelMapSize s d)" and "lim = getIntegerParam A (plib s) d ADnEDDetPixelNumSize"
  have len: "n \<le> length xs" using assms Some by (simp add: map_inv_def n_def)
  then have loop: "check_loop lim [0..<n] xs = Inr (\<exists>i<n. lim < xs ! i)"
    using check_loop_result [of "[0..<n]" xs lim] by auto
  have pos: "(0 < m_PixelMapSize s d) = (m_PixelMapSize s d \<noteq> 0)" by (simp add: word_gt_0)
  show ?thesis
  proof (cases "0 < m_PixelMapSize s d \<and> (\<exists>i<n. lim < xs ! i)")
    case True
    then have "checkPixelMap A d s = Inr (asynError, s\<lparr>p_PixelMap := (p_PixelMap s)(d := Some (memset_bytes n xs)),
        m_PixelMapSize := (m_PixelMapSize s)(d := 0)\<rparr>)"
      using Some loop by (simp add: checkPixelMap_def n_def lim_def Let_def)
    moreover obtain i where "i < n" "\<not> xs ! i \<le> lim" using True by (auto simp: not_le)
    ultimately show ?thesis using Some length_memset_bytes [OF len]
      by (auto simp: map_inv_def n_def lim_def)
  next
    case False
    then consider "m_PixelMapSize s d = 0" | "m_PixelMapSize s d \<noteq> 0" "\<forall>i<n. xs ! i \<le> lim"
      unfolding pos by (meson not_less)
    then show ?thesis
    proof cases
      case 1
      then show ?thesis using Some assms by (simp add: checkPixelMap_def Let_def)
    next
      case 2
      then have "check_loop lim [0..<n] xs = Inr False" using loop by (auto simp: not_less)
      then have "checkPixelMap A d s = Inr (asynSuccess, s)"
        using Some 2(1) pos by (simp add: checkPixelMap_def n_def lim_def Let_def)
      then show ?thesis using 2 Some assms by (simp add: n_def lim_def)
    qed
  qed
qed

theorem checkPixelMap_spec_witness:
  "\<exists>st s'. checkPixelMap store_asyn 1 (run_state\<lparr>p_PixelMap := (\<lambda>_. Some [4, 5, 6]), m_PixelMapSize := (\<lambda>_. 3)\<rparr>) = Inr (st, s')
    \<and> m_PixelMapSize s' 1 = 0 \<and> m_PixelMapSize s' 2 = 3"
proof -
  define s where "s = run_state\<lparr>p_PixelMap := (\<lambda>_. Some [4, 5, 6]), m_PixelMapSize := (\<lambda>_. 3)\<rparr>"
  have s: "p_PixelMap s = (\<lambda>_. Some [4, 5, 6])" "m_PixelMapSize s = (\<lambda>_. 3)"
    "getIntegerParam store_asyn (plib s) (Suc 0) ADnEDDetPixelNumSize = 5"
    by (simp_all add: s_def run_get run_ints_def)
  have "map_inv 1 s" by (simp add: map_inv_def s)
  from checkPixelMap_spec [OF this, of store_asyn] obtain st s' where st: "checkPixelMap store_asyn 1 s = Inr (st, s')"
      "(st = asynSuccess) = (p_PixelMap s 1 \<noteq> None \<and> m_PixelMapSize s 1 \<noteq> 0 \<and> (\<forall>i<unat (m_PixelMapSize s 1).
         the (p_PixelMap s 1) ! i \<le> getIntegerParam store_asyn (plib s) 1 ADnEDDetPixelNumSize))"
      "st \<noteq> asynSuccess \<longrightarrow> (p_PixelMap s' 1 = None \<or> m_PixelMapSize s' 1 = 0)
         \<and> (\<forall>e. e \<noteq> 1 \<longrightarrow> m_PixelMapSize s' e = m_PixelMapSize s e) \<and> map_option length (p_PixelMap s' 1) = map_option length (p_PixelMap s 1)"
    by metis
  have "\<exists>i<3. \<not> [4, 5, 6] ! i \<le> (5 :: u32)" by (intro exI [of _ 2]) simp
  then have "st \<noteq> asynSuccess" using st(2) by (simp add: s)
  then show ?thesis using st(1,3) s(1,2) unfolding s_def [symmetric] by auto
qed

end
