(* ===== verification/Blocks.thy ===== *)
theory Blocks
  imports ADnED_Prelude
begin

text \<open>
  Stores into heap blocks, as the map file reader, the mask plugin and the axis record make them.
  \<open>mem_write\<close> is one store; \<open>writes n v S f\<close> says that a statement \<open>f\<close> on a block of \<open>n\<close> elements
  never leaves the block and stores \<open>v\<close> in exactly the cells of \<open>S\<close>. The rules for a store, a skipped
  store and a loop let a proof follow the loop nest of the source.
\<close>

definition mem_write :: "int \<Rightarrow> 'a \<Rightarrow> 'a list \<Rightarrow> 'a list res" where
  "mem_write i v xs = (if 0 \<le> i \<and> nat i < length xs then Inr (xs[nat i := v]) else Inl Oob_Write)"

definition writes :: "nat \<Rightarrow> 'a \<Rightarrow> nat set \<Rightarrow> ('a list \<Rightarrow> 'a list res) \<Rightarrow> bool" where
  "writes n v S f \<longleftrightarrow> (\<forall>xs. length xs = n \<longrightarrow>
     (\<exists>ys. f xs = Inr ys \<and> length ys = n \<and> (\<forall>k<n. ys ! k = (if k \<in> S then v else xs ! k))))"

named_theorems writes_rules

lemma writes_store [writes_rules]: "k < n \<Longrightarrow> writes n v {k} (mem_write (int k) v)"
  by (auto simp: writes_def mem_write_def nth_list_update)

lemma writes_skip [writes_rules]: "writes n v {} Inr"
  by (simp add: writes_def)

lemma writes_if [writes_rules]:
  "(b \<Longrightarrow> writes n v S f) \<Longrightarrow> (\<not> b \<Longrightarrow> writes n v T g) \<Longrightarrow> writes n v (if b then S else T) (if b then f else g)"
  by simp

lemma writes_seq:
  assumes "writes n v S f" "writes n v T g"
  shows "writes n v (S \<union> T) (\<lambda>xs. res_bind (f xs) g)"
  unfolding writes_def
proof (intro allI impI)
  fix xs :: "'a list" assume "length xs = n"
  then obtain ys where ys: "f xs = Inr ys" "length ys = n" "\<forall>k<n. ys ! k = (if k \<in> S then v else xs ! k)"
    using assms(1) by (auto simp: writes_def)
  then obtain zs where "g ys = Inr zs" "length zs = n" "\<forall>k<n. zs ! k = (if k \<in> T then v else ys ! k)"
    using assms(2) by (auto simp: writes_def)
  with ys show "\<exists>zs. res_bind (f xs) g = Inr zs \<and> length zs = n \<and> (\<forall>k<n. zs ! k = (if k \<in> S \<union> T then v else xs ! k))"
    by (intro exI [of _ zs]) auto
qed

lemma writes_foldR [writes_rules]:
  assumes "\<And>i. i \<in> set is \<Longrightarrow> writes n v (S i) (f i)"
  shows "writes n v (\<Union>i\<in>set is. S i) (foldR f is)"
  using assms
proof (induction "is")
  case Nil
  then show ?case by (simp add: writes_def)
next
  case (Cons i "is")
  have "foldR f (i # is) = (\<lambda>xs. res_bind (f i xs) (foldR f is))" by auto
  then show ?case using writes_seq [of n v "S i" "f i" "\<Union>i\<in>set is. S i" "foldR f is"] Cons by simp
qed

lemma writesD:
  assumes "writes n v S f" "length xs = n"
  obtains ys where "f xs = Inr ys" "length ys = n" "\<And>k. k < n \<Longrightarrow> ys ! k = (if k \<in> S then v else xs ! k)"
  using assms by (auto simp: writes_def)

lemma writes_cong: "writes n v S f \<Longrightarrow> S \<inter> {..<n} = T \<inter> {..<n} \<Longrightarrow> writes n v T f"
  unfolding writes_def by (fastforce simp: set_eq_iff)

text \<open>The cell in column \<open>x\<close> and row \<open>y\<close> of a block of rows of \<open>w\<close> elements.\<close>

lemma row_cell: "x < w \<Longrightarrow> (y * w + x) mod w = x \<and> (y * w + x) div w = (y :: nat)"
  by simp

lemma row_cell_lt: "x < w \<Longrightarrow> y < h \<Longrightarrow> y * w + x < (w :: nat) * h"
proof -
  assume "x < w" "y < h"
  then have "y * w + x < y * w + w" by simp
  also have "\<dots> = Suc y * w" by simp
  also have "\<dots> \<le> h * w" using \<open>y < h\<close> by (intro mult_right_mono) auto
  finally show ?thesis by (simp add: mult.commute)
qed

lemma factors_less: "x * y < k \<Longrightarrow> 0 < x \<Longrightarrow> 0 < y \<Longrightarrow> x < k \<and> y < (k :: nat)"
  by (cases x; cases y) auto

lemma row_cells:
  assumes "0 < w"
  shows "(\<Union>y\<in>{y. y < h \<and> Q y}. \<Union>x\<in>{x. x < w \<and> P x y}. {y * w + x}) \<inter> {..<w * h}
       = {k. Q (k div w) \<and> P (k mod w) (k div w)} \<inter> {..<w * (h :: nat)}"
proof (intro equalityI subsetI)
  fix k assume "k \<in> (\<Union>y\<in>{y. y < h \<and> Q y}. \<Union>x\<in>{x. x < w \<and> P x y}. {y * w + x}) \<inter> {..<w * h}"
  then obtain x y where "x < w" "Q y" "P x y" "k = y * w + x" "k < w * h" by auto
  then show "k \<in> {k. Q (k div w) \<and> P (k mod w) (k div w)} \<inter> {..<w * h}" using row_cell [of x w y] by simp
next
  fix k assume "k \<in> {k. Q (k div w) \<and> P (k mod w) (k div w)} \<inter> {..<w * h}"
  moreover then have "k div w < h" "k mod w < w" "k = k div w * w + k mod w"
    using assms by (auto simp: less_mult_imp_div_less mult.commute)
  ultimately show "k \<in> (\<Union>y\<in>{y. y < h \<and> Q y}. \<Union>x\<in>{x. x < w \<and> P x y}. {y * w + x}) \<inter> {..<w * h}" by blast
qed

end
