(* ===== verification/MapFile.thy ===== *)
theory MapFile
  imports Float64 Blocks
begin

text \<open>
  \<open>ADnEDFile.cpp\<close>: the reader of pixel map and transformation files. The first line of a file is the number
  of elements, each further line is one element. The C library is modelled as far as the reader uses it:
  \<open>fgets\<close> on the bytes not yet read, C strings that end at a NUL, \<open>strtol\<close> in base 10 for a 64-bit
  \<open>long\<close>, \<open>strtod\<close> in the C locale, and \<open>errno\<close> as far as the reader tests it: whether it is
  \<open>ERANGE\<close>. \<open>errno\<close> is changed by failing calls only, and nothing in the reader clears it, so it is an
  argument and a result of every operation. A \<open>throw\<close> is the left part of a sum.
\<close>

section \<open>The C library\<close>

definition NUL :: char where "NUL = CHR 0x00"
definition LF :: char where "LF = CHR 0x0A"

definition isspace :: "char \<Rightarrow> bool" where
  "isspace c \<longleftrightarrow> c = CHR '' '' \<or> c = CHR 0x09 \<or> c = CHR 0x0A \<or> c = CHR 0x0B \<or> c = CHR 0x0C \<or> c = CHR 0x0D"

text \<open>\<open>fgets(line, n + 1, p_FILE)\<close>: at most \<open>n\<close> bytes, up to and including a newline. On an empty rest it returns NULL.\<close>

fun fgets :: "nat \<Rightarrow> string \<Rightarrow> string \<times> string" where
  "fgets 0 bytes = ([], bytes)"
| "fgets (Suc n) [] = ([], [])"
| "fgets (Suc n) (c # bytes) =
     (if c = LF then ([c], bytes) else let (line, rest) = fgets n bytes in (c # line, rest))"

definition c_str :: "string \<Rightarrow> string" where "c_str = takeWhile (\<lambda>c. c \<noteq> NUL)"

definition digit_value :: "char \<Rightarrow> nat option" where
  "digit_value c = (let k = of_char c :: nat in if 48 \<le> k \<and> k \<le> 57 then Some (k - 48) else None)"

definition hex_value :: "char \<Rightarrow> nat option" where
  "hex_value c = (let k = of_char c :: nat in
     if 48 \<le> k \<and> k \<le> 57 then Some (k - 48)
     else if 65 \<le> k \<and> k \<le> 70 then Some (k - 55)
     else if 97 \<le> k \<and> k \<le> 102 then Some (k - 87) else None)"

definition number :: "nat \<Rightarrow> (char \<Rightarrow> nat option) \<Rightarrow> string \<Rightarrow> nat" where
  "number base value ds = foldl (\<lambda>a c. a * base + the (value c)) 0 ds"

abbreviation isdigit :: "char \<Rightarrow> bool" where "isdigit c \<equiv> digit_value c \<noteq> None"

fun sign :: "string \<Rightarrow> bool \<times> string" where
  "sign (c # s) = (if c = CHR ''-'' then (True, s) else if c = CHR ''+'' then (False, s) else (False, c # s))"
| "sign [] = (False, [])"

definition LONG_MAX :: int where "LONG_MAX = 2 ^ 63 - 1"
definition LONG_MIN :: int where "LONG_MIN = - (2 ^ 63)"

text \<open>\<open>None\<close>: no conversion, \<open>end == line\<close>. The flag says that \<open>errno\<close> has been set to \<open>ERANGE\<close>.\<close>

definition strtol :: "string \<Rightarrow> (int \<times> bool) option" where
  "strtol s =
     (let (neg, t) = sign (dropWhile isspace s);
          ds = takeWhile isdigit t;
          v = (if neg then - int (number 10 digit_value ds) else int (number 10 digit_value ds))
      in if ds = [] then None
         else if LONG_MAX < v then Some (LONG_MAX, True)
         else if v < LONG_MIN then Some (LONG_MIN, True)
         else Some (v, False))"

definition lower :: "char \<Rightarrow> char" where
  "lower c = (let k = of_char c :: nat in if 65 \<le> k \<and> k \<le> 90 then char_of (k + 32) else c)"

definition starts :: "string \<Rightarrow> string \<Rightarrow> bool" where
  "starts w s \<longleftrightarrow> map lower (take (length w) s) = w"

text \<open>The exponent part of a number, introduced by the letter \<open>x\<close>; 0 if there is none.\<close>

definition exponent :: "char \<Rightarrow> string \<Rightarrow> int" where
  "exponent x s =
     (case s of
        [] \<Rightarrow> 0
      | c # t \<Rightarrow>
          let (neg, u) = sign t; ds = takeWhile isdigit u
          in if lower c \<noteq> x \<or> ds = [] then 0
             else if neg then - int (number 10 digit_value ds) else int (number 10 digit_value ds))"

definition power_of :: "rat \<Rightarrow> int \<Rightarrow> rat" where
  "power_of b e = (if 0 \<le> e then b ^ nat e else inverse (b ^ nat (- e)))"

text \<open>Digits with an optional fraction and exponent; \<open>None\<close> if there is no digit.\<close>

definition mantissa :: "nat \<Rightarrow> (char \<Rightarrow> nat option) \<Rightarrow> char \<Rightarrow> rat \<Rightarrow> string \<Rightarrow> rat option" where
  "mantissa base value x eb s =
     (let ip = takeWhile (\<lambda>c. value c \<noteq> None) s;
          r1 = drop (length ip) s;
          fp = (case r1 of [] \<Rightarrow> [] | c # t \<Rightarrow> if c = CHR ''.'' then takeWhile (\<lambda>c. value c \<noteq> None) t else []);
          r2 = (case r1 of [] \<Rightarrow> [] | c # t \<Rightarrow> if c = CHR ''.'' then drop (length fp) t else r1)
      in if ip = [] \<and> fp = [] then None
         else Some (of_nat (number base value (ip @ fp)) / of_nat base ^ length fp * power_of eb (exponent x r2)))"

text \<open>\<open>uf\<close>: for which results too small for a normal double \<open>errno\<close> is set, which C leaves to the implementation.\<close>

definition strtod :: "(rat \<Rightarrow> bool) \<Rightarrow> string \<Rightarrow> (f64 \<times> bool) option" where
  "strtod uf s =
     (let (neg, t) = sign (dropWhile isspace s)
      in if starts ''inf'' t then Some (if neg then NInf else PInf, False)
         else if starts ''nan'' t then Some (NaN, False)
         else
           let m = (case (if starts ''0x'' t then mantissa 16 hex_value (CHR ''p'') 2 (drop 2 t) else None) of
                      None \<Rightarrow> mantissa 10 digit_value (CHR ''e'') 10 t
                    | Some r \<Rightarrow> Some r)
           in case m of
                None \<Rightarrow> None
              | Some a \<Rightarrow>
                  let r = (if neg then - a else a); x = rnd r
                  in Some (x, x = PInf \<or> x = NInf \<or> (r \<noteq> 0 \<and> \<bar>r\<bar> < pow2 (-1022) \<and> uf r)))"

section \<open>The file object\<close>

definition ADNEDFILE_MAX_STRING :: nat where "ADNEDFILE_MAX_STRING = 256"

datatype file_error =
    File_Not_Readable | File_Not_Opened | No_Size | File_Is_Null | Array_Is_Null
  | Not_An_Int | Not_A_Double | Whitespace_In_Line

text \<open>\<open>p_FILE\<close> is what is left to read of an open file.\<close>

record ADnEDFile =
  m_Size :: u32
  p_FILE :: "string option"

record fsys =
  access_ok :: "string \<Rightarrow> bool"
  fopen_r :: "string \<Rightarrow> string option"

text \<open>\<open>strncpy\<close> puts no NUL after a name of 255 or more bytes: the name runs on into what follows in memory.\<close>

definition stored_name :: "string \<Rightarrow> string \<Rightarrow> string" where
  "stored_name tail fileName =
     (if length fileName < ADNEDFILE_MAX_STRING - 1 then fileName else take (ADNEDFILE_MAX_STRING - 1) fileName @ tail)"

definition new_ADnEDFile :: "fsys \<Rightarrow> string \<Rightarrow> string \<Rightarrow> bool \<Rightarrow> bool \<times> (file_error + ADnEDFile)" where
  "new_ADnEDFile F tail fileName erange =
     (if fileName = [] then (erange, Inr \<lparr>m_Size = 0, p_FILE = None\<rparr>)
      else if \<not> access_ok F (stored_name tail fileName) then (False, Inl File_Not_Readable)
      else case fopen_r F (stored_name tail fileName) of
             None \<Rightarrow> (False, Inl File_Not_Opened)
           | Some bytes \<Rightarrow>
               let (line, rest) = fgets (ADNEDFILE_MAX_STRING - 2) bytes
               in case strtol (c_str line) of
                    None \<Rightarrow> (erange, Inl No_Size)
                  | Some (v, er) \<Rightarrow>
                      if erange \<or> er then (True, Inl No_Size)
                      else (False, Inr \<lparr>m_Size = word_of_int v, p_FILE = Some rest\<rparr>))"

definition getSize :: "ADnEDFile \<Rightarrow> u32" where "getSize f = m_Size f"

definition rejected_chars :: "char set" where "rejected_chars = {CHR ''#'', CHR '' '', CHR 0x0A, CHR 0x09}"

lemma fgets_parts: "fgets n bytes = (line, rest) \<Longrightarrow> line @ rest = bytes"
  by (induction n bytes arbitrary: line rule: fgets.induct) (auto split: if_splits prod.splits)

lemma fgets_some: "0 < n \<Longrightarrow> bytes \<noteq> [] \<Longrightarrow> fgets n bytes = (line, rest) \<Longrightarrow> line \<noteq> []"
  by (cases n; cases bytes) (auto split: if_splits prod.splits)

lemma fgets_shorter: "bytes \<noteq> [] \<Longrightarrow> fgets (ADNEDFILE_MAX_STRING - 2) bytes = (line, rest) \<Longrightarrow> length rest < length bytes"
  using fgets_some [of "ADNEDFILE_MAX_STRING - 2" bytes line rest] fgets_parts [of "ADNEDFILE_MAX_STRING - 2" bytes line rest]
  by (auto simp: ADNEDFILE_MAX_STRING_def)

text \<open>The loop of \<open>readDataIntoIntArray\<close> and of \<open>readDataIntoDoubleArray\<close>, which differ in the conversion and
  in the message of the exception. \<open>line[strlen(line)-1]\<close> lies before the buffer when the line starts with a NUL.\<close>

function read_lines ::
    "(string \<Rightarrow> ('v \<times> bool) option) \<Rightarrow> file_error \<Rightarrow> u32 \<Rightarrow> string \<Rightarrow> nat \<Rightarrow> 'v list \<Rightarrow> bool
      \<Rightarrow> (bool \<times> (file_error + 'v list)) res" where
  "read_lines conv bad sz bytes index arr erange =
     (if bytes = [] then Inr (erange, Inr arr)
      else
        let (line, rest) = fgets (ADNEDFILE_MAX_STRING - 2) bytes
        in if unat sz \<le> index then Inr (erange, Inr arr)
           else if c_str line = [] then Inl Oob_Write
           else
             let text = butlast (c_str line)
             in if set text \<inter> rejected_chars \<noteq> {} then Inr (erange, Inl Whitespace_In_Line)
                else case conv text of
                  None \<Rightarrow> Inr (erange, Inl bad)
                | Some (v, er) \<Rightarrow>
                    if erange \<or> er then Inr (True, Inl bad)
                    else res_bind (mem_write (int index) v arr)
                           (\<lambda>arr'. read_lines conv bad sz rest (Suc index) arr' erange))"
  by pat_completeness auto
termination
  by (relation "measure (\<lambda>(conv, bad, sz, bytes, index, arr, erange). length bytes)")
    (auto intro: fgets_shorter [OF _ sym])

declare read_lines.simps [simp del]

text \<open>\<open>static_cast<epicsUInt32>(strtol(line, &end, 10))\<close>.\<close>

definition line_to_u32 :: "string \<Rightarrow> (u32 \<times> bool) option" where
  "line_to_u32 s = map_option (\<lambda>(v, er). (word_of_int v, er)) (strtol s)"

definition readDataIntoIntArray :: "ADnEDFile \<Rightarrow> u32 list option \<Rightarrow> bool \<Rightarrow> (bool \<times> (file_error + u32 list)) res" where
  "readDataIntoIntArray f pArray erange =
     (case p_FILE f of
        None \<Rightarrow> Inr (erange, Inl File_Is_Null)
      | Some bytes \<Rightarrow> (case pArray of
            None \<Rightarrow> Inr (erange, Inl Array_Is_Null)
          | Some arr \<Rightarrow> read_lines line_to_u32 Not_An_Int (m_Size f) bytes 0 arr erange))"

definition readDataIntoDoubleArray ::
    "(rat \<Rightarrow> bool) \<Rightarrow> ADnEDFile \<Rightarrow> f64 list option \<Rightarrow> bool \<Rightarrow> (bool \<times> (file_error + f64 list)) res" where
  "readDataIntoDoubleArray uf f pArray erange =
     (case p_FILE f of
        None \<Rightarrow> Inr (erange, Inl File_Is_Null)
      | Some bytes \<Rightarrow> (case pArray of
            None \<Rightarrow> Inr (erange, Inl Array_Is_Null)
          | Some arr \<Rightarrow> read_lines (strtod uf) Not_A_Double (m_Size f) bytes 0 arr erange))"

section \<open>Safety\<close>

lemma c_str_text: "NUL \<notin> set s \<Longrightarrow> c_str s = s"
  unfolding c_str_def by (rule takeWhile_eq_all_conv [THEN iffD2]) auto

lemma read_lines_safe:
  "NUL \<notin> set bytes \<Longrightarrow> unat sz \<le> length arr \<Longrightarrow>
     \<exists>e r. read_lines conv bad sz bytes index arr erange = Inr (e, r) \<and> (case r of Inl x \<Rightarrow> x \<in> {bad, Whitespace_In_Line} | Inr xs \<Rightarrow> length xs = length arr)"
proof (induction conv bad sz bytes index arr erange rule: read_lines.induct)
  case (1 conv bad sz bytes index arr erange)
  show ?case
  proof (cases "bytes = [] \<or> unat sz \<le> index")
    case True
    then show ?thesis by (auto simp: read_lines.simps [of conv bad sz bytes] split: prod.splits)
  next
    case False
    obtain line rest where f: "fgets (ADNEDFILE_MAX_STRING - 2) bytes = (line, rest)" by force
    have parts: "line @ rest = bytes" "line \<noteq> []"
      using fgets_parts [OF f] fgets_some [OF _ _ f] False by (auto simp: ADNEDFILE_MAX_STRING_def)
    then have nul: "c_str line = line" "NUL \<notin> set rest" using "1.prems"(1) by (auto intro: c_str_text)
    define t where "t = butlast line"
    show ?thesis
    proof (cases "set t \<inter> rejected_chars \<noteq> {} \<or> conv t = None \<or> (\<exists>v er. conv t = Some (v, er) \<and> (erange \<or> er))")
      case True
      then show ?thesis using False parts(2) f nul(1)
        by (auto simp: read_lines.simps [of conv bad sz bytes] t_def [symmetric])
    next
      case ok: False
      then obtain v where v: "conv t = Some (v, False)" "\<not> erange" "set t \<inter> rejected_chars = {}" by fastforce
      have idx: "index < length arr" using False "1.prems"(2) by simp
      have "read_lines conv bad sz bytes index arr erange = read_lines conv bad sz rest (Suc index) (arr[index := v]) erange"
        using False parts(2) f nul(1) v idx by (simp add: read_lines.simps [of conv bad sz bytes] t_def [symmetric] mem_write_def)
      moreover have "\<exists>e r. read_lines conv bad sz rest (Suc index) (arr[index := v]) erange = Inr (e, r)
          \<and> (case r of Inl x \<Rightarrow> x \<in> {bad, Whitespace_In_Line} | Inr xs \<Rightarrow> length xs = length (arr[index := v]))"
        using "1.IH" [of "(line, rest)" line rest t "(v, False)" v False "arr[index := v]"] False f nul parts v "1.prems"(2)
        by (simp add: t_def)
      ultimately show ?thesis unfolding length_list_update by metis
    qed
  qed
qed

text \<open>(C20) Reading a map never writes outside the array. For every file without NUL bytes, well-formed or not, and an
  array of at least the size the first line announced, both readers end normally or with an exception;
  when they end normally the array has kept its length.\<close>

theorem read_arrays_safe:
  assumes "p_FILE f = Some bytes" "NUL \<notin> set bytes" "unat (m_Size f) \<le> length xs" "unat (m_Size f) \<le> length ds"
  shows "(\<exists>e r. readDataIntoIntArray f (Some xs) erange = Inr (e, r)
        \<and> (case r of Inl x \<Rightarrow> x \<in> {Not_An_Int, Whitespace_In_Line} | Inr ys \<Rightarrow> length ys = length xs))
    \<and> (\<exists>e r. readDataIntoDoubleArray uf f (Some ds) erange = Inr (e, r)
        \<and> (case r of Inl x \<Rightarrow> x \<in> {Not_A_Double, Whitespace_In_Line} | Inr ys \<Rightarrow> length ys = length ds))"
  unfolding readDataIntoIntArray_def readDataIntoDoubleArray_def assms(1) option.case
  by (intro conjI read_lines_safe assms)

theorem read_arrays_safe_witness:
  "\<exists>e r. readDataIntoIntArray \<lparr>m_Size = 2, p_FILE = Some ''x y''\<rparr> (Some [0, 0]) True = Inr (e, r)"
  using read_arrays_safe [of "\<lparr>m_Size = 2, p_FILE = Some ''x y''\<rparr>" "''x y''" "[0, 0]" "[NaN, NaN]" True "\<lambda>_. False"]
  by (auto simp: NUL_def)

section \<open>Printed files\<close>

text \<open>Decimal notation, and a file that announces \<open>n\<close> elements and holds those of \<open>vs\<close>.\<close>

fun show_nat :: "nat \<Rightarrow> string" where
  "show_nat n = (if n < 10 then [char_of (48 + n)] else show_nat (n div 10) @ [char_of (48 + n mod 10)])"

declare show_nat.simps [simp del]

definition map_lines :: "nat list \<Rightarrow> string" where
  "map_lines vs = concat (map (\<lambda>v. show_nat v @ [LF]) vs)"

definition map_file :: "nat \<Rightarrow> nat list \<Rightarrow> string" where
  "map_file n vs = show_nat n @ [LF] @ map_lines vs"

lemma digit_char: "k < 10 \<Longrightarrow> digit_value (char_of (48 + k)) = Some k"
  by (simp add: digit_value_def)

lemma digit_chars: "isdigit c \<Longrightarrow> c \<noteq> NUL \<and> c \<noteq> LF \<and> c \<notin> rejected_chars \<and> \<not> isspace c \<and> c \<noteq> CHR ''-'' \<and> c \<noteq> CHR ''+''"
  by (auto simp: digit_value_def Let_def NUL_def LF_def rejected_chars_def isspace_def)

lemma show_nat_digits: "c \<in> set (show_nat n) \<Longrightarrow> isdigit c"
proof (induction n rule: show_nat.induct)
  case (1 n)
  then show ?case by (cases "n < 10") (auto simp: show_nat.simps [of n] digit_char)
qed

lemma show_nat_nonempty: "show_nat n \<noteq> []"
  by (simp add: show_nat.simps [of n])

lemma number_append: "number b v (xs @ [c]) = number b v xs * b + the (v c)"
  by (simp add: number_def)

lemma number_show: "number 10 digit_value (show_nat n) = n"
proof (induction n rule: show_nat.induct)
  case (1 n)
  show ?case
  proof (cases "n < 10")
    case True
    then show ?thesis by (simp add: show_nat.simps [of n] number_def digit_char)
  next
    case False
    then show ?thesis using 1 by (simp add: show_nat.simps [of n] number_append digit_char)
  qed
qed

lemma length_show: "n < 10 ^ Suc k \<Longrightarrow> length (show_nat n) \<le> Suc k"
proof (induction n arbitrary: k rule: show_nat.induct)
  case (1 n)
  show ?case
  proof (cases "n < 10")
    case True
    then show ?thesis by (simp add: show_nat.simps [of n])
  next
    case False
    then obtain j where j: "k = Suc j" using 1(2) by (cases k) auto
    then have "n div 10 < 10 ^ Suc j" using 1(2) by (simp add: div_less_iff_less_mult mult.commute)
    then show ?thesis using 1(1) [OF False] j False by (simp add: show_nat.simps [of n])
  qed
qed

lemma length_show_u32: "n < 2 ^ 32 \<Longrightarrow> length (show_nat n) \<le> 10"
  using length_show [of n 9] by simp

lemma fgets_line:
  "LF \<notin> set s \<Longrightarrow> length s < n \<Longrightarrow> fgets n (s @ LF # rest) = (s @ [LF], rest)"
proof (induction s arbitrary: n)
  case Nil
  then show ?case by (cases n) auto
next
  case (Cons c s)
  then show ?case by (cases n) auto
qed

lemma strtol_digits:
  assumes "ds \<noteq> []" "\<forall>c\<in>set ds. isdigit c" "int (number 10 digit_value ds) \<le> LONG_MAX" "rest = [] \<or> \<not> isdigit (hd rest)"
  shows "strtol (ds @ rest) = Some (int (number 10 digit_value ds), False)"
proof -
  obtain c cs where ds: "ds = c # cs" using assms(1) by (cases ds) auto
  have c: "\<not> isspace c" "c \<noteq> CHR ''-''" "c \<noteq> CHR ''+''" using assms(2) digit_chars ds by auto
  have "sign (dropWhile isspace (ds @ rest)) = (False, ds @ rest)" using c ds by simp
  moreover have "takeWhile isdigit (ds @ rest) = ds"
    using assms(2,4) by (cases rest) (auto simp: takeWhile_append2 takeWhile_eq_all_conv [THEN iffD2])
  moreover have "LONG_MIN \<le> int (number 10 digit_value ds)" by (simp add: LONG_MIN_def)
  ultimately show ?thesis using assms(1,3) by (simp add: strtol_def)
qed

lemma line_to_u32_show: "v < 2 ^ 32 \<Longrightarrow> line_to_u32 (show_nat v) = Some (of_nat v, False)"
  using strtol_digits [of "show_nat v" "[]"] show_nat_nonempty [of v] show_nat_digits [of _ v]
  by (auto simp: line_to_u32_def number_show LONG_MAX_def)

lemma show_nat_line:
  assumes "v < 2 ^ 32"
  shows "fgets (ADNEDFILE_MAX_STRING - 2) (show_nat v @ LF # rest) = (show_nat v @ [LF], rest)"
    "c_str (show_nat v @ [LF]) = show_nat v @ [LF]" "set (show_nat v) \<inter> rejected_chars = {}" "c_str (show_nat v) = show_nat v"
proof -
  have d: "c \<noteq> NUL \<and> c \<noteq> LF \<and> c \<notin> rejected_chars" if "c \<in> set (show_nat v)" for c
    using digit_chars show_nat_digits that by blast
  show "fgets (ADNEDFILE_MAX_STRING - 2) (show_nat v @ LF # rest) = (show_nat v @ [LF], rest)"
    using d length_show_u32 [OF assms] by (intro fgets_line) (auto simp: ADNEDFILE_MAX_STRING_def)
  show "c_str (show_nat v @ [LF]) = show_nat v @ [LF]" using d by (intro c_str_text) (auto simp: LF_def NUL_def)
  show "c_str (show_nat v) = show_nat v" using d by (intro c_str_text) auto
  show "set (show_nat v) \<inter> rejected_chars = {}" using d by blast
qed

lemma map_lines_Cons: "map_lines (v # vs) = show_nat v @ LF # map_lines vs"
  by (simp add: map_lines_def)

text \<open>Reading printed lines fills the next cells of the array.\<close>

lemma read_printed:
  assumes "\<forall>v\<in>set vs. v < 2 ^ 32" "index + length vs \<le> unat sz" "unat sz = length arr"
  shows "read_lines line_to_u32 bad sz (map_lines vs @ bytes) index arr False =
    read_lines line_to_u32 bad sz bytes (index + length vs) (take index arr @ map of_nat vs @ drop (index + length vs) arr) False"
  using assms
proof (induction vs arbitrary: index arr)
  case Nil
  then show ?case by (simp add: map_lines_def)
next
  case (Cons v vs)
  define arr' where "arr' = arr[index := of_nat v :: u32]"
  have v: "v < 2 ^ 32" and idx: "index < length arr" "index < unat sz" using Cons.prems by simp_all
  have "read_lines line_to_u32 bad sz (map_lines (v # vs) @ bytes) index arr False
      = read_lines line_to_u32 bad sz (map_lines vs @ bytes) (Suc index) arr' False"
    using show_nat_line(2,3) [OF v] show_nat_line(1) [OF v, of "map_lines vs @ bytes"] line_to_u32_show [OF v] idx
    by (simp add: map_lines_Cons read_lines.simps [of _ _ _ "show_nat v @ LF # map_lines vs @ bytes"] mem_write_def arr'_def)
  also have "\<dots> = read_lines line_to_u32 bad sz bytes (Suc index + length vs)
      (take (Suc index) arr' @ map of_nat vs @ drop (Suc index + length vs) arr') False"
    using Cons.prems by (intro Cons.IH) (simp_all add: arr'_def)
  also have "take (Suc index) arr' @ map of_nat vs @ drop (Suc index + length vs) arr'
      = take index arr @ map of_nat (v # vs) @ drop (index + length (v # vs)) arr"
    using idx by (simp add: arr'_def take_Suc_conv_app_nth)
  finally show ?case by simp
qed

lemma read_done: "unat sz \<le> index \<Longrightarrow> read_lines conv bad sz bytes index arr e = Inr (e, Inr arr)"
  by (simp add: read_lines.simps [of conv bad sz bytes] split: prod.splits)

lemma read_eof: "read_lines conv bad sz [] index arr e = Inr (e, Inr arr)"
  by (simp add: read_lines.simps [of conv bad sz "[]"])

lemma open_printed:
  assumes "fileName \<noteq> []" "length fileName < 255" "access_ok F fileName" "fopen_r F fileName = Some (map_file n vs @ bytes)" "n < 2 ^ 32"
  shows "new_ADnEDFile F tail fileName False = (False, Inr \<lparr>m_Size = of_nat n, p_FILE = Some (map_lines vs @ bytes)\<rparr>)"
proof -
  have "stored_name tail fileName = fileName" using assms(2) by (simp add: stored_name_def ADNEDFILE_MAX_STRING_def)
  moreover have "fgets (ADNEDFILE_MAX_STRING - 2) (map_file n vs @ bytes) = (show_nat n @ [LF], map_lines vs @ bytes)"
    using show_nat_line(1) [OF assms(5)] by (simp add: map_file_def)
  moreover have "\<not> isdigit LF" by (simp add: digit_value_def LF_def)
  then have "strtol (show_nat n @ [LF]) = Some (int n, False)"
    using strtol_digits [of "show_nat n" "[LF]"] show_nat_nonempty [of n] show_nat_digits [of _ n] assms(5)
    by (auto simp: number_show LONG_MAX_def)
  ultimately show ?thesis using assms(1,3,4) show_nat_line(2) [OF assms(5)] by (simp add: new_ADnEDFile_def)
qed

lemma printed_file_read:
  assumes "fileName \<noteq> []" "length fileName < 255" "access_ok F fileName" "fopen_r F fileName = Some (map_file n vs)"
    "n < 2 ^ 32" "\<forall>v\<in>set vs. v < 2 ^ 32"
  shows "\<exists>f. new_ADnEDFile F tail fileName False = (False, Inr f) \<and> unat (getSize f) = n
    \<and> readDataIntoIntArray f (Some (replicate n 0)) False
      = Inr (False, Inr (map of_nat (take n vs) @ replicate (n - length vs) 0))"
proof -
  have n: "unat (of_nat n :: u32) = n" using assms(5) by (simp add: unat32_of_nat)
  have split: "map_lines vs = map_lines (take n vs) @ map_lines (drop n vs)"
    by (simp add: map_lines_def flip: map_append concat_append)
  have "read_lines line_to_u32 Not_An_Int (of_nat n) (map_lines vs) 0 (replicate n 0) False
      = read_lines line_to_u32 Not_An_Int (of_nat n) (map_lines (drop n vs)) (length (take n vs))
          (map of_nat (take n vs) @ replicate (n - length vs) 0) False"
    unfolding split using assms(6) n by (subst read_printed) (auto dest: in_set_takeD simp: min_def)
  also have "\<dots> = Inr (False, Inr (map of_nat (take n vs) @ replicate (n - length vs) 0))"
    using n by (cases "n \<le> length vs") (simp_all add: read_done read_eof map_lines_def)
  finally show ?thesis
    using open_printed [of fileName F n vs "[]"] assms(1-5) n by (simp add: readDataIntoIntArray_def getSize_def)
qed

text \<open>(C19) What is printed is read back. A file that announces \<open>n\<close> elements and then lists the numbers \<open>vs\<close>, one per
  line, opens without an exception and fills a zeroed array of \<open>n\<close> elements with \<open>vs\<close>: numbers beyond
  the announced size are ignored, and missing ones leave zeros.\<close>

theorem map_file_roundtrip:
  assumes "fileName \<noteq> []" "length fileName < 255" "access_ok F fileName" "fopen_r F fileName = Some (map_file n vs)"
    "n < 2 ^ 32" "\<forall>v\<in>set vs. v < 2 ^ 32"
  shows "\<exists>f. new_ADnEDFile F tail fileName False = (False, Inr f) \<and> unat (getSize f) = n
    \<and> readDataIntoIntArray f (Some (replicate n 0)) False
      = Inr (False, Inr (map of_nat (take n vs) @ replicate (n - length vs) 0))"
  using assms by (rule printed_file_read)

definition demo_files :: "string \<Rightarrow> fsys" where
  "demo_files content = \<lparr>access_ok = (\<lambda>_. True), fopen_r = (\<lambda>_. Some content)\<rparr>"

theorem map_file_roundtrip_witness:
  "\<exists>f. new_ADnEDFile (demo_files (map_file 4 [7, 42, 5])) [] ''m'' False = (False, Inr f)
    \<and> readDataIntoIntArray f (Some (replicate 4 0)) False = Inr (False, Inr [7, 42, 5, 0])"
  using map_file_roundtrip [of "''m''" "demo_files (map_file 4 [7, 42, 5])" 4 "[7, 42, 5]" "[]"]
  by (auto simp: demo_files_def)

lemma butlast_show: "10 \<le> v \<Longrightarrow> butlast (show_nat v) = show_nat (v div 10)"
  by (simp add: show_nat.simps [of v])

lemma fgets_rest: "LF \<notin> set s \<Longrightarrow> length s \<le> n \<Longrightarrow> fgets n s = (s, [])"
proof (induction s arbitrary: n)
  case Nil
  then show ?case by (cases n) simp_all
next
  case (Cons c s)
  then show ?case by (cases n) auto
qed

text \<open>Without a final newline the last number loses its last digit. The reader takes the last character of every
  line for the newline; on a file whose last line has none, the element read is the number divided by ten,
  and a one-digit number is refused as not being a number.\<close>

theorem missing_newline:
  assumes "fileName \<noteq> []" "length fileName < 255" "access_ok F fileName"
    "fopen_r F fileName = Some (map_file (Suc (length vs)) vs @ show_nat v)"
    "Suc (length vs) < 2 ^ 32" "\<forall>u\<in>set vs. u < 2 ^ 32" "v < 2 ^ 32"
  shows "\<exists>f. new_ADnEDFile F tail fileName False = (False, Inr f)
    \<and> readDataIntoIntArray f (Some (replicate (Suc (length vs)) 0)) False
      = Inr (False, if v < 10 then Inl Not_An_Int else Inr (map of_nat vs @ [of_nat (v div 10)]))"
proof -
  define n where "n = Suc (length vs)"
  have n: "unat (of_nat n :: u32) = n" using assms(5) by (simp add: n_def unat32_of_nat del: of_nat_Suc)
  have d: "LF \<notin> set (show_nat v)" using digit_chars show_nat_digits by blast
  have line: "fgets (ADNEDFILE_MAX_STRING - 2) (show_nat v) = (show_nat v, [])"
    using d length_show_u32 [OF assms(7)] by (intro fgets_rest) (auto simp: ADNEDFILE_MAX_STRING_def)
  have "read_lines line_to_u32 Not_An_Int (of_nat n) (map_lines vs @ show_nat v) 0 (replicate n 0) False
      = read_lines line_to_u32 Not_An_Int (of_nat n) (show_nat v) (length vs) (map of_nat vs @ [0]) False"
  proof -
    have "drop (length vs) (replicate n (0 :: u32)) = [0]" unfolding n_def drop_replicate by simp
    moreover have "length vs \<le> n" by (simp add: n_def)
    ultimately show ?thesis using read_printed [of vs 0 "of_nat n" "replicate n 0" Not_An_Int "show_nat v"] assms(6) n by simp
  qed
  also have "\<dots> = Inr (False, if v < 10 then Inl Not_An_Int else Inr (map of_nat vs @ [of_nat (v div 10)]))"
  proof (cases "v < 10")
    case True
    then have "butlast (show_nat v) = []" "line_to_u32 [] = None"
      by (simp_all add: show_nat.simps [of v] line_to_u32_def strtol_def)
    then show ?thesis using True n line show_nat_line(4) [OF assms(7)] show_nat_nonempty [of v]
      by (simp add: read_lines.simps [of _ _ _ "show_nat v"] n_def)
  next
    case False
    then have t: "butlast (show_nat v) = show_nat (v div 10)" "v div 10 < 2 ^ 32" using assms(7) by (simp_all add: butlast_show)
    then show ?thesis
      using False n line show_nat_line(4) [OF assms(7)] show_nat_nonempty [of v] show_nat_line(3) [OF t(2)] line_to_u32_show [OF t(2)]
      by (simp add: read_lines.simps [of _ _ _ "show_nat v"] n_def mem_write_def read_eof list_update_append)
  qed
  finally show ?thesis
    using open_printed [of fileName F n vs "show_nat v"] assms(1-5) n by (simp add: readDataIntoIntArray_def n_def)
qed

theorem missing_newline_witness:
  "\<exists>f. new_ADnEDFile (demo_files (map_file 2 [7] @ show_nat 42)) [] ''m'' False = (False, Inr f)
    \<and> readDataIntoIntArray f (Some (replicate 2 0)) False = Inr (False, Inr [7, 4])"
  using missing_newline [of "''m''" "demo_files (map_file 2 [7] @ show_nat 42)" "[7]" 42 "[]"]
  by (auto simp: demo_files_def simp flip: numeral_2_eq_2)

text \<open>One number out of range makes later loads fail. A line whose number does not fit a \<open>long\<close> leaves \<open>errno\<close> at
  \<open>ERANGE\<close>; nothing clears it, and from then on every readable file with a size line is refused, well-formed
  or not, as long as no failing call gives \<open>errno\<close> another value.\<close>

theorem stale_errno:
  assumes "c_str line = line" "line \<noteq> []" "set (butlast line) \<inter> rejected_chars = {}" "strtol (butlast line) = Some (v, True)"
    "fgets (ADNEDFILE_MAX_STRING - 2) bytes = (line, rest)" "bytes \<noteq> []" "0 < unat sz"
    "fileName \<noteq> []" "access_ok F (stored_name tail fileName)" "fopen_r F (stored_name tail fileName) \<noteq> None"
  shows "readDataIntoIntArray \<lparr>m_Size = sz, p_FILE = Some bytes\<rparr> (Some arr) False = Inr (True, Inl Not_An_Int)
    \<and> new_ADnEDFile F tail fileName True = (True, Inl No_Size)"
proof -
  have "line_to_u32 (butlast line) = Some (word_of_int v, True)" using assms(4) by (simp add: line_to_u32_def)
  then have "readDataIntoIntArray \<lparr>m_Size = sz, p_FILE = Some bytes\<rparr> (Some arr) False = Inr (True, Inl Not_An_Int)"
    using assms(1-3,5-7) by (simp add: readDataIntoIntArray_def read_lines.simps [of _ _ _ bytes])
  moreover have "new_ADnEDFile F tail fileName True = (True, Inl No_Size)"
    using assms(8-10) by (auto simp: new_ADnEDFile_def split: option.splits prod.splits)
  ultimately show ?thesis by blast
qed

definition huge_line :: string where "huge_line = ''99999999999999999999'' @ [LF]"

theorem stale_errno_witness:
  "readDataIntoIntArray \<lparr>m_Size = 1, p_FILE = Some huge_line\<rparr> (Some [0]) False = Inr (True, Inl Not_An_Int)
    \<and> new_ADnEDFile (demo_files (map_file 4 [7, 42, 5])) [] ''m'' True = (True, Inl No_Size)"
proof -
  have "c_str huge_line = huge_line" "huge_line \<noteq> []" "set (butlast huge_line) \<inter> rejected_chars = {}"
    "strtol (butlast huge_line) = Some (LONG_MAX, True)" "0 < unat (1 :: u32)"
    by (simp_all add: huge_line_def c_str_def NUL_def LF_def rejected_chars_def strtol_def digit_value_def isspace_def number_def LONG_MAX_def)
  moreover have "fgets (ADNEDFILE_MAX_STRING - 2) huge_line = (huge_line, [])"
    unfolding huge_line_def by (rule fgets_line [where rest = "[]"]) (simp_all add: LF_def ADNEDFILE_MAX_STRING_def)
  ultimately show ?thesis
    using stale_errno [of huge_line LONG_MAX huge_line "[]" 1 "''m''" "demo_files (map_file 4 [7, 42, 5])" "[]" "[0]"]
    by (simp add: demo_files_def)
qed

end
