(* ===== verification/Commands.thy ===== *)
theory Commands
  imports Maintenance MapFile
begin

text \<open>
  The asyn write entry points of \<open>ADnED.cpp\<close>: \<open>writeInt32\<close>, \<open>writeFloat64\<close>, \<open>writeOctet\<close>, with the
  helpers that recognise transformation parameters and the two debug prints. \<open>getAddress\<close> is asyn's: its
  result, a status and an address, is the argument \<open>ga\<close>; \<open>asynNDArrayDriver::writeOctet\<close> is
  areaDetector's: the argument \<open>base\<close>. The four \<open>epicsEvent\<close>s through which the driver talks to its
  threads are flags of the record \<open>ioc\<close> (signalled or not), and so is \<open>errno == ERANGE\<close>.
\<close>

section \<open>State\<close>

record ('p, 't) ioc =
  drv :: "('p, 't) adned"
  ev_start :: bool
  ev_stop :: bool
  ev_startFrame :: bool
  ev_stopFrame :: bool
  err_range :: bool

section \<open>Transformation parameters\<close>

definition matchTransInt :: "iparam \<Rightarrow> u32 option" where
  "matchTransInt q =
     (if q = ADnEDDetTOFTransInt0 then Some 0 else if q = ADnEDDetTOFTransInt1 then Some 1
      else if q = ADnEDDetTOFTransInt2 then Some 2 else if q = ADnEDDetTOFTransInt3 then Some 3
      else if q = ADnEDDetTOFTransInt4 then Some 4 else if q = ADnEDDetTOFTransInt5 then Some 5 else None)"

definition matchTransFloat :: "dparam \<Rightarrow> u32 option" where
  "matchTransFloat q =
     (if q = ADnEDDetTOFTransFloat0 then Some 0 else if q = ADnEDDetTOFTransFloat1 then Some 1
      else if q = ADnEDDetTOFTransFloat2 then Some 2 else if q = ADnEDDetTOFTransFloat3 then Some 3
      else if q = ADnEDDetTOFTransFloat4 then Some 4 else if q = ADnEDDetTOFTransFloat5 then Some 5 else None)"

definition matchTransFile :: "sparam \<Rightarrow> u32 option" where
  "matchTransFile q =
     (if q = ADnEDDetTOFTransFile0 then Some 0 else if q = ADnEDDetTOFTransFile1 then Some 1
      else if q = ADnEDDetTOFTransFile2 then Some 2 else if q = ADnEDDetTOFTransFile3 then Some 3
      else if q = ADnEDDetTOFTransFile4 then Some 4 else if q = ADnEDDetTOFTransFile5 then Some 5 else None)"

text \<open>Access through \<open>p_Transform[addr]\<close>; element 0 is never initialised.\<close>

definition on_transform ::
    "nat \<Rightarrow> (transform \<Rightarrow> ('a \<times> transform) res) \<Rightarrow> ('p, 't) adned \<Rightarrow> ('a \<times> ('p, 't) adned) res" where
  "on_transform addr f s =
     (case p_Transform s addr of
        None \<Rightarrow> Inl Uninit_Deref
      | Some t \<Rightarrow> res_bind (f t) (\<lambda>(r, t'). Inr (r, s\<lparr>p_Transform := (p_Transform s)(addr := Some t')\<rparr>)))"

section \<open>Debug prints\<close>

text \<open>The values printed; what matters is which cells are read.\<close>

fun read_cells :: "nat list \<Rightarrow> 'a list \<Rightarrow> 'a list res" where
  "read_cells [] xs = Inr []"
| "read_cells (i # is) xs = res_bind (mem_read (int i) xs) (\<lambda>v. res_bind (read_cells is xs) (\<lambda>vs. Inr (v # vs)))"

definition printPixelMap :: "nat \<Rightarrow> ('p, 't) adned \<Rightarrow> u32 list res" where
  "printPixelMap det s =
     (case p_PixelMap s det of
        None \<Rightarrow> Inr []
      | Some xs \<Rightarrow> if 0 < m_PixelMapSize s det then read_cells [0..<unat (m_PixelMapSize s det)] xs else Inr [])"

definition printParams :: "transform \<Rightarrow> f64 list list res" where
  "printParams t = foldR (\<lambda>i out.
     case p_Array t i of
       None \<Rightarrow> Inr (out @ [[]])
     | Some xs \<Rightarrow>
         if 0 < m_ArraySize t i
         then res_bind (read_cells [0..<unat (m_ArraySize t i)] xs) (\<lambda>vs. Inr (out @ [vs]))
         else Inr (out @ [[]])) [0..<ADNED_MAX_TRANSFORM_PARAMS] []"

definition printTofTrans :: "nat \<Rightarrow> ('p, 't) adned \<Rightarrow> f64 list list res" where
  "printTofTrans det s = (case p_Transform s det of None \<Rightarrow> Inl Uninit_Deref | Some t \<Rightarrow> printParams t)"

section \<open>writeInt32\<close>

text \<open>How a branch of the dispatch ends: with \<open>return\<close>, or by falling through with the value to be stored.\<close>

datatype ('p, 't) branch = Return asynStatus "('p, 't) ioc" | Fall i32 "('p, 't) ioc"

abbreviation upd_plib :: "('p \<Rightarrow> 'p) \<Rightarrow> ('p, 't) adned \<Rightarrow> ('p, 't) adned" where
  "upd_plib f d \<equiv> d\<lparr>plib := f (plib d)\<rparr>"

text \<open>The four parameters that need a new allocation.\<close>

definition layout_params :: "iparam list" where
  "layout_params = [ADnEDDetPixelNumStart, ADnEDDetPixelNumEnd, ADnEDDetPixelNumSize, ADnEDTOFMax]"

definition wi_start :: "'p asyn \<Rightarrow> 't pvtime \<Rightarrow> i32 \<Rightarrow> i32 \<Rightarrow> ('p, 't) ioc \<Rightarrow> ('p, 't) branch res" where
  "wi_start A T adStatus v s =
     (if v = 0 then Inr (Fall v s)
      else if adStatus = ADStatusIdle \<or> adStatus = ADStatusError \<or> adStatus = ADStatusAborted
      then res_bind (clearParams A T (drv s)) (\<lambda>(st, d).
             Inr (Fall v (s\<lparr>drv := upd_plib (setI A 0 ADnEDPause 0) d, ev_start := True\<rparr>)))
      else Inr (Return asynError (s\<lparr>drv := upd_plib (\<lambda>p. calls A 0 (setI A 0 ADnEDStart 0 p)) (drv s)\<rparr>)))"

definition wi_stop :: "'p asyn \<Rightarrow> i32 \<Rightarrow> i32 \<Rightarrow> ('p, 't) ioc \<Rightarrow> ('p, 't) branch" where
  "wi_stop A adStatus v s =
     (if v = 0 then Fall v s
      else if adStatus = ADStatusAcquire
      then Fall v (s\<lparr>drv := upd_plib (setI A 0 ADnEDPause 0) (drv s), ev_stop := True\<rparr>)
      else Return asynError (s\<lparr>drv := upd_plib (\<lambda>p. calls A 0 (setI A 0 ADnEDStop 0 p)) (drv s)\<rparr>))"

definition wi_alloc :: "machine \<Rightarrow> 'p asyn \<Rightarrow> i32 \<Rightarrow> i32 \<Rightarrow> ('p, 't) ioc \<Rightarrow> ('p, 't) branch" where
  "wi_alloc M A adStatus v s =
     (if adStatus = ADStatusAcquire then Return asynError s
      else
        let (st, d) = allocArray (calloc_ok M) A (drv s)
        in if st \<noteq> asynSuccess
           then Return asynError (s\<lparr>drv := upd_plib (\<lambda>p. calls A 0
                  (setI A 0 ADStatus ADStatusError (setS A 0 ADStatusMessage ''allocArray Error''
                    (setI A 0 ADnEDAllocSpaceStatus ALLOC_STATUS_FAIL p)))) d\<rparr>)
           else Fall v (s\<lparr>drv := d\<rparr>))"

definition wi_limit :: "nat \<Rightarrow> i32 \<Rightarrow> i32 \<Rightarrow> ('p, 't) ioc \<Rightarrow> ('p, 't) branch" where
  "wi_limit bound adStatus v s =
     (if adStatus = ADStatusAcquire then Return asynError s
      else if int bound < sint v then Return asynError s
      else Fall v s)"

definition wi_dispatch ::
    "machine \<Rightarrow> 'p asyn \<Rightarrow> 't pvtime \<Rightarrow> iparam \<Rightarrow> nat \<Rightarrow> i32 \<Rightarrow> i32 \<Rightarrow> ('p, 't) ioc \<Rightarrow> ('p, 't) branch res" where
  "wi_dispatch M A T q addr adStatus v s =
     (if q = ADnEDReset
      then res_bind (clearParams A T (drv s)) (\<lambda>(st, d). Inr (Fall v (s\<lparr>drv := d\<rparr>)))
      else if q = ADnEDStart then wi_start A T adStatus v s
      else if q = ADnEDStop then Inr (wi_stop A adStatus v s)
      else if q \<in> set layout_params then
        if adStatus \<noteq> ADStatusAcquire
        then Inr (Fall v (s\<lparr>drv := (drv s)\<lparr>m_dataAlloc := True\<rparr>\<rparr>))
        else Inr (Return asynError s)
      else if q = ADnEDAllocSpace then Inr (wi_alloc M A adStatus v s)
      else if q = ADnEDNumDet then Inr (wi_limit ADNED_MAX_DETS adStatus v s)
      else if q = ADnEDNumChannels then Inr (wi_limit ADNED_MAX_CHANNELS adStatus v s)
      else if q = ADnEDDetTOFTransPrint then res_bind (printTofTrans addr (drv s)) (\<lambda>_. Inr (Fall v s))
      else if q = ADnEDDetTOFTransDebug
      then res_bind (on_transform addr (\<lambda>t. Inr ((), setDebug (v \<noteq> 0) t)) (drv s)) (\<lambda>(_, d). Inr (Fall v (s\<lparr>drv := d\<rparr>)))
      else if q = ADnEDDetPixelMapPrint then res_bind (printPixelMap addr (drv s)) (\<lambda>_. Inr (Fall v s))
      else if q = ADnEDDetPixelROISizeX then Inr (Fall (if sint v \<le> 0 then 1 else v) s)
      else if q = ADnEDDetPixelROIEnable
      then Inr (Fall v (if v = 1 then s\<lparr>drv := upd_plib (setI A addr ADnEDDetTOFROIEnable 0) (drv s)\<rparr> else s))
      else if q = ADnEDDetTOFROIEnable
      then Inr (Fall v (if v = 1 then s\<lparr>drv := upd_plib (setI A addr ADnEDDetPixelROIEnable 0) (drv s)\<rparr> else s))
      else if q = ADnEDDetTOFArrayReset
      then res_bind (resetTOFArray A addr (drv s)) (\<lambda>d. Inr (Fall v (s\<lparr>drv := d\<rparr>)))
      else Inr (Fall v s))"

text \<open>From \<open>matchTransInt\<close> to the end.\<close>

definition wi_finish :: "'p asyn \<Rightarrow> iparam \<Rightarrow> nat \<Rightarrow> i32 \<Rightarrow> ('p, 't) ioc \<Rightarrow> (asynStatus \<times> ('p, 't) ioc) res" where
  "wi_finish A q addr v s =
     res_bind (case matchTransInt q of
                 None \<Rightarrow> Inr (ADNED_TRANSFORM_OK, drv s)
               | Some i \<Rightarrow> on_transform addr (\<lambda>t. Inr (setIntParam i v t)) (drv s)) (\<lambda>(rc, d1).
       let d2 = (if m_dataAlloc d1 then upd_plib (\<lambda>p. calls A 0 (setI A 0 ADnEDAllocSpaceStatus ALLOC_STATUS_REQ p)) d1 else d1)
       in if rc \<noteq> ADNED_TRANSFORM_OK then Inr (asynError, s\<lparr>drv := upd_plib (calls A addr) d2\<rparr>)
          else
            let (st, p) = setIntegerParam A (plib d2) addr q v
            in if st \<noteq> asynSuccess then Inr (st, s\<lparr>drv := d2\<lparr>plib := p\<rparr>\<rparr>)
               else Inr (st, s\<lparr>drv := d2\<lparr>plib := calls A addr p\<rparr>\<rparr>))"

definition writeInt32 ::
    "machine \<Rightarrow> 'p asyn \<Rightarrow> 't pvtime \<Rightarrow> asynStatus \<times> nat \<Rightarrow> iparam \<Rightarrow> i32 \<Rightarrow> ('p, 't) ioc \<Rightarrow> (asynStatus \<times> ('p, 't) ioc) res" where
  "writeInt32 M A T ga q v s =
     (if fst ga \<noteq> asynSuccess then Inr (fst ga, s)
      else
        let addr = snd ga; adStatus = getIntegerParam A (plib (drv s)) 0 ADStatus
        in res_bind (wi_dispatch M A T q addr adStatus v s) (\<lambda>b.
             case b of Return st s' \<Rightarrow> Inr (st, s') | Fall v' s' \<Rightarrow> wi_finish A q addr v' s'))"

section \<open>writeFloat64\<close>

definition writeFloat64 ::
    "'p asyn \<Rightarrow> asynStatus \<times> nat \<Rightarrow> dparam \<Rightarrow> f64 \<Rightarrow> ('p, 't) ioc \<Rightarrow> (asynStatus \<times> ('p, 't) ioc) res" where
  "writeFloat64 A ga q v s =
     (if fst ga \<noteq> asynSuccess then Inr (fst ga, s)
      else
        let addr = snd ga
        in res_bind (case matchTransFloat q of
                       None \<Rightarrow> Inr (ADNED_TRANSFORM_OK, drv s)
                     | Some i \<Rightarrow> on_transform addr (\<lambda>t. Inr (setDoubleParamT i v t)) (drv s)) (\<lambda>(rc, d).
             if rc \<noteq> ADNED_TRANSFORM_OK then Inr (asynError, s\<lparr>drv := upd_plib (calls A addr) d\<rparr>)
             else
               let (st, p) = setDoubleParam A (plib d) addr q v
               in if st \<noteq> asynSuccess then Inr (st, s\<lparr>drv := d\<lparr>plib := p\<rparr>\<rparr>)
                  else Inr (st, s\<lparr>drv := d\<lparr>plib := calls A addr p\<rparr>\<rparr>)))"

section \<open>writeOctet\<close>

definition calloc_block :: "machine \<Rightarrow> nat \<Rightarrow> nat \<Rightarrow> 'a \<Rightarrow> 'a list option" where
  "calloc_block M words n zero = (if calloc_ok M (words * n) then Some (replicate n zero) else None)"

text \<open>The \<open>try\<close> block of the transformation files, with the \<open>catch\<close>. The temporary array is freed on every path.
  \<open>calloc_ok\<close> counts 32-bit words.\<close>

definition load_transform ::
    "machine \<Rightarrow> (rat \<Rightarrow> bool) \<Rightarrow> fsys \<Rightarrow> string \<Rightarrow> u32 \<Rightarrow> nat \<Rightarrow> string \<Rightarrow> ('p, 't) ioc \<Rightarrow> (asynStatus \<times> ('p, 't) ioc) res" where
  "load_transform M uf F tail transIndex addr fileName s =
     (case new_ADnEDFile F tail fileName (err_range s) of
        (e1, Inl _) \<Rightarrow> Inr (asynError, s\<lparr>err_range := e1\<rparr>)
      | (e1, Inr f) \<Rightarrow>
          if getSize f = 0 then Inr (asynSuccess, s\<lparr>err_range := e1\<rparr>)
          else
            res_bind (readDataIntoDoubleArray uf f (calloc_block M 2 (unat (getSize f)) (Fin 0)) e1) (\<lambda>(e2, r).
              case r of
                Inl _ \<Rightarrow> Inr (asynError, s\<lparr>err_range := e2\<rparr>)
              | Inr xs \<Rightarrow>
                  res_bind (on_transform addr (setDoubleArray (\<lambda>n. calloc_ok M (2 * n)) transIndex (Some xs) (getSize f)) (drv s)) (\<lambda>(rc, d).
                    Inr (if rc \<noteq> ADNED_TRANSFORM_OK then asynError else asynSuccess, s\<lparr>drv := d, err_range := e2\<rparr>))))"

definition set_map :: "nat \<Rightarrow> u32 list option \<Rightarrow> ('p, 't) adned \<Rightarrow> ('p, 't) adned" where
  "set_map addr m d = d\<lparr>p_PixelMap := (p_PixelMap d)(addr := m)\<rparr>"

definition set_map_size :: "nat \<Rightarrow> u32 \<Rightarrow> ('p, 't) adned \<Rightarrow> ('p, 't) adned" where
  "set_map_size addr n d = d\<lparr>m_PixelMapSize := (m_PixelMapSize d)(addr := n)\<rparr>"

text \<open>The branch of the pixel map: free the old map, then load and check the new one. The \<open>catch\<close> frees the map and
  leaves the status and the recorded size alone.\<close>

definition load_pixel_map ::
    "machine \<Rightarrow> 'p asyn \<Rightarrow> fsys \<Rightarrow> string \<Rightarrow> nat \<Rightarrow> string \<Rightarrow> ('p, 't) ioc \<Rightarrow> (asynStatus \<times> ('p, 't) ioc) res" where
  "load_pixel_map M A F tail addr fileName s =
     (let d0 = (if p_PixelMap (drv s) addr = None then drv s else set_map_size addr 0 (set_map addr None (drv s)))
      in case new_ADnEDFile F tail fileName (err_range s) of
           (e1, Inl _) \<Rightarrow> Inr (asynSuccess, s\<lparr>drv := set_map addr None d0, err_range := e1\<rparr>)
         | (e1, Inr f) \<Rightarrow>
             if getSize f = 0 then Inr (asynSuccess, s\<lparr>drv := d0, err_range := e1\<rparr>)
             else
               let d1 = set_map_size addr (getSize f) d0;
                   block = calloc_block M 1 (unat (getSize f)) 0
               in res_bind (readDataIntoIntArray f block e1) (\<lambda>(e2, r).
                    case r of
                      Inl _ \<Rightarrow> Inr (asynSuccess, s\<lparr>drv := set_map addr None d1, err_range := e2\<rparr>)
                    | Inr xs \<Rightarrow>
                        res_bind (checkPixelMap A addr (set_map addr (Some xs) d1)) (\<lambda>(st, d2).
                          Inr (st, s\<lparr>drv := if st = asynError then set_map addr None d2 else d2, err_range := e2\<rparr>))))"

definition is_base_octet :: "sparam \<Rightarrow> bool" where
  "is_base_octet q \<longleftrightarrow> (case q of ADStatusMessage \<Rightarrow> True | ADManufacturer \<Rightarrow> True | ADModel \<Rightarrow> True | BaseOctet _ \<Rightarrow> True | _ \<Rightarrow> False)"

definition wo_action ::
    "machine \<Rightarrow> (rat \<Rightarrow> bool) \<Rightarrow> 'p asyn \<Rightarrow> fsys \<Rightarrow> string \<Rightarrow> (nat \<Rightarrow> sparam \<Rightarrow> string \<Rightarrow> 'p \<Rightarrow> asynStatus \<times> 'p)
      \<Rightarrow> nat \<Rightarrow> sparam \<Rightarrow> string \<Rightarrow> ('p, 't) ioc \<Rightarrow> (asynStatus \<times> ('p, 't) ioc) res" where
  "wo_action M uf A F tail base addr q v s =
     (case matchTransFile q of
        Some i \<Rightarrow> load_transform M uf F tail i addr v s
      | None \<Rightarrow>
          if q = ADnEDDetPixelMapFile then load_pixel_map M A F tail addr v s
          else if is_base_octet q
          then let (st, p) = base addr q v (plib (drv s)) in Inr (st, s\<lparr>drv := (drv s)\<lparr>plib := p\<rparr>\<rparr>)
          else Inr (asynSuccess, s))"

definition writeOctet ::
    "machine \<Rightarrow> (rat \<Rightarrow> bool) \<Rightarrow> 'p asyn \<Rightarrow> fsys \<Rightarrow> string \<Rightarrow> (nat \<Rightarrow> sparam \<Rightarrow> string \<Rightarrow> 'p \<Rightarrow> asynStatus \<times> 'p)
      \<Rightarrow> asynStatus \<times> nat \<Rightarrow> sparam \<Rightarrow> string \<Rightarrow> ('p, 't) ioc \<Rightarrow> (asynStatus \<times> ('p, 't) ioc) res" where
  "writeOctet M uf A F tail base ga q v s =
     (if fst ga \<noteq> asynSuccess then Inr (fst ga, s)
      else
        let addr = snd ga
        in res_bind (wo_action M uf A F tail base addr q v s) (\<lambda>(status, s1).
             if status \<noteq> asynSuccess then Inr (asynError, s1\<lparr>drv := upd_plib (calls A addr) (drv s1)\<rparr>)
             else
               let p = setS A addr q v (plib (drv s1));
                   (st, p2) = callParamCallbacks A p addr
               in Inr (st, s1\<lparr>drv := (drv s1)\<lparr>plib := p2\<rparr>\<rparr>)))"

end
