(* ===== verification/CommandProps.thy ===== *)
theory CommandProps
  imports Commands
begin

text \<open>
  What the write entry points guarantee: the invariant \<open>drv_inv\<close> of the driver's memory, kept by every
  command, so that no sequence of commands from the constructor on can fault (with the exceptions that the
  statement names); the guards that protect a running acquisition; the life of an allocation request; and
  the loading of pixel maps.
\<close>

section \<open>Invariant\<close>

definition transforms_ok :: "(nat \<Rightarrow> transform option) \<Rightarrow> bool" where
  "transforms_ok f \<longleftrightarrow> (\<forall>a. 1 \<le> a \<longrightarrow> a \<le> ADNED_MAX_DETS \<longrightarrow> (case f a of None \<Rightarrow> False | Some t \<Rightarrow> transform_inv t))"

definition drv_inv :: "('p, 't) adned \<Rightarrow> bool" where
  "drv_inv d \<longleftrightarrow> buf_inv d \<and> (\<forall>a. map_inv a d) \<and> transforms_ok (p_Transform d)"

lemma drv_inv_new: "drv_inv (new_ADnED A T g gd gb ts0 p0)"
  by (auto simp: drv_inv_def buf_inv_def map_inv_def transforms_ok_def new_ADnED_def transform_inv_new)

lemma drv_inv_fields:
  "p_Data d' = p_Data d \<Longrightarrow> m_bufferMaxSize d' = m_bufferMaxSize d \<Longrightarrow> p_PixelMap d' = p_PixelMap d \<Longrightarrow>
   m_PixelMapSize d' = m_PixelMapSize d \<Longrightarrow> p_Transform d' = p_Transform d \<Longrightarrow> drv_inv d' = drv_inv d"
  by (simp add: drv_inv_def buf_inv_def map_inv_def cong: option.case_cong)

lemma drv_inv_plib [simp]: "drv_inv (d\<lparr>plib := p\<rparr>) = drv_inv d"
  by (rule drv_inv_fields) simp_all

lemma drv_inv_dataAlloc [simp]: "drv_inv (d\<lparr>m_dataAlloc := b\<rparr>) = drv_inv d"
  by (rule drv_inv_fields) simp_all

text \<open>A change of the buffer, of one pixel map or of one transformation.\<close>

lemma drv_inv_data:
  assumes "drv_inv d" "map_option length ys = map_option length (p_Data d)"
  shows "drv_inv (d\<lparr>p_Data := ys\<rparr>)"
  using assms by (auto simp: drv_inv_def buf_inv_def map_inv_def split: option.splits)

lemma drv_inv_transform:
  assumes "drv_inv d" "transform_inv t"
  shows "drv_inv (d\<lparr>p_Transform := (p_Transform d)(a := Some t)\<rparr>)"
  using assms by (auto simp: drv_inv_def buf_inv_def map_inv_def transforms_ok_def split: option.splits)

lemma drv_inv_map:
  assumes "drv_inv d" "case m of None \<Rightarrow> True | Some xs \<Rightarrow> unat n \<le> length xs"
  shows "drv_inv (set_map_size a n (set_map a m d))" "drv_inv (set_map a m (set_map_size a n d))"
  using assms by (auto simp: drv_inv_def buf_inv_def map_inv_def set_map_def set_map_size_def split: option.splits)

lemma drv_inv_no_map: "drv_inv d \<Longrightarrow> drv_inv (set_map a None d)"
  by (auto simp: drv_inv_def buf_inv_def map_inv_def set_map_def split: option.splits)

section \<open>The operations keep it\<close>

lemma clear_fold_fields:
  "fold (clear_channel A T) cs (b, d) = (b', d') \<Longrightarrow>
     p_Data d' = p_Data d \<and> m_bufferMaxSize d' = m_bufferMaxSize d \<and> p_PixelMap d' = p_PixelMap d
     \<and> m_PixelMapSize d' = m_PixelMapSize d \<and> p_Transform d' = p_Transform d"
proof (induction cs arbitrary: b d)
  case (Cons c cs)
  obtain b1 d1 where 1: "clear_channel A T c (b, d) = (b1, d1)" by force
  then show ?case using Cons.IH [of b1 d1] Cons.prems by (auto simp: clear_channel_def split_beta Let_def)
qed simp

lemma clear_det_fields:
  "p_Data (fold (clear_det A) ds d) = p_Data d" "m_bufferMaxSize (fold (clear_det A) ds d) = m_bufferMaxSize d"
  "p_PixelMap (fold (clear_det A) ds d) = p_PixelMap d" "m_PixelMapSize (fold (clear_det A) ds d) = m_PixelMapSize d"
  "p_Transform (fold (clear_det A) ds d) = p_Transform d"
  by (induction ds arbitrary: d) (simp_all add: clear_det_def)

lemma clearParams_inv:
  assumes "drv_inv d"
  shows "\<exists>st d'. clearParams A T d = Inr (st, d') \<and> drv_inv d'"
proof -
  define p where "p = setD A 0 ADnEDPChargeInt (Fin 0) (setD A 0 ADnEDPCharge (Fin 0) (setI A 0 ADnEDPulseCounter 0 (plib d)))"
  define d1 where "d1 = d\<lparr>plib := p, m_pChargeInt := Fin 0, m_pulseCounter := 0\<rparr>"
  have inv1: "drv_inv d1" using assms by (subst drv_inv_fields [of d1 d]) (simp_all add: d1_def)
  define d2 where "d2 = d1\<lparr>p_Data := map_option (\<lambda>xs. replicate (length xs) 0) (p_Data d1)\<rparr>"
  have cd: "clear_data d1 = Inr d2" unfolding d2_def by (rule clear_data_ok) (use inv1 in \<open>simp add: drv_inv_def\<close>)
  have inv2: "drv_inv d2" unfolding d2_def by (rule drv_inv_data [OF inv1]) (simp add: option.map_comp o_def)
  obtain b d3 where f: "fold (clear_channel A T) [0..<ADNED_MAX_CHANNELS]
      (fst (setIntegerParam A (plib d) 0 ADnEDPulseCounter 0) = asynSuccess \<and>
       fst (setDoubleParam A (setI A 0 ADnEDPulseCounter 0 (plib d)) 0 ADnEDPCharge (Fin 0)) = asynSuccess \<and>
       fst (setDoubleParam A (setD A 0 ADnEDPCharge (Fin 0) (setI A 0 ADnEDPulseCounter 0 (plib d))) 0 ADnEDPChargeInt (Fin 0)) = asynSuccess, d2) = (b, d3)"
    by force
  have "drv_inv (fold (clear_det A) [0..<Suc ADNED_MAX_DETS] d3)"
    using inv2 clear_fold_fields [OF f] clear_det_fields [of A "[0..<Suc ADNED_MAX_DETS]" d3]
    by (subst drv_inv_fields [of _ d2]) (simp_all del: upt_Suc)
  moreover have "clearParams A T d = Inr (if b then asynSuccess else asynError, fold (clear_det A) [0..<Suc ADNED_MAX_DETS] d3)"
    using cd f by (simp add: clearParams_def split_beta Let_def d1_def p_def del: upt_Suc adned_limits)
  ultimately show ?thesis by blast
qed

lemma allocArray_fields:
  "p_PixelMap (snd (allocArray ok A d)) = p_PixelMap d \<and> m_PixelMapSize (snd (allocArray ok A d)) = m_PixelMapSize d
   \<and> p_Transform (snd (allocArray ok A d)) = p_Transform d"
proof (cases "m_dataAlloc d \<and> getIntegerParam A (plib d) 0 ADnEDNumDet \<noteq> 0")
  case False
  then show ?thesis by (auto simp: allocArray_def Let_def)
next
  case True
  define nd tm where "nd = getIntegerParam A (plib d) 0 ADnEDNumDet" and "tm = getIntegerParam A (plib d) 0 ADnEDTOFMax"
  obtain fin s2 where ap: "alloc_pixels A (det_range nd) (d\<lparr>m_tofMax := tm, m_dataMaxSize := 0\<rparr>) = (fin, s2)"
    by (cases "alloc_pixels A (det_range nd) (d\<lparr>m_tofMax := tm, m_dataMaxSize := 0\<rparr>)")
  obtain p m where s2: "s2 = d\<lparr>m_tofMax := tm, plib := p, m_dataMaxSize := m\<rparr>"
    using alloc_pixels_frame [OF ap] by auto
  show ?thesis using True ap unfolding nd_def tm_def s2 by (cases fin) (simp_all add: allocArray_def Let_def)
qed

lemma allocArray_inv: "drv_inv d \<Longrightarrow> drv_inv (snd (allocArray ok A d))"
  using buf_inv_allocArray [of d ok A] allocArray_fields [of ok A d] by (simp add: drv_inv_def map_inv_def cong: option.case_cong)

lemma on_transform_inv:
  assumes "drv_inv d" "1 \<le> a" "a \<le> ADNED_MAX_DETS" "\<And>t. transform_inv t \<Longrightarrow> \<exists>r t'. f t = Inr (r, t') \<and> transform_inv t'"
  shows "\<exists>r d'. on_transform a f d = Inr (r, d') \<and> drv_inv d'"
proof -
  obtain t where t: "p_Transform d a = Some t" "transform_inv t"
    using assms(1-3) by (auto simp: drv_inv_def transforms_ok_def split: option.splits)
  obtain r t' where "f t = Inr (r, t')" "transform_inv t'" using assms(4) [OF t(2)] by blast
  then show ?thesis using t drv_inv_transform [OF assms(1)] by (simp add: on_transform_def)
qed

lemma read_cells_ok: "(\<And>i. i \<in> set is \<Longrightarrow> i < length xs) \<Longrightarrow> read_cells is xs = Inr (map ((!) xs) is)"
  by (induction "is") (simp_all add: mem_read_def)

lemma read_cells_upt: "n \<le> length xs \<Longrightarrow> read_cells [0..<n] xs = Inr (map ((!) xs) [0..<n])"
  by (rule read_cells_ok) simp

lemma printPixelMap_ok: "drv_inv d \<Longrightarrow> \<exists>vs. printPixelMap a d = Inr vs"
  by (auto simp: printPixelMap_def drv_inv_def map_inv_def split: option.splits intro!: exI read_cells_upt)

lemma printParams_ok:
  assumes "transform_inv t"
  shows "\<exists>out. printParams t = Inr out"
proof -
  have "\<exists>out. printParams t = Inr out \<and> True" unfolding printParams_def
    using assms by (intro foldR_total) (auto simp: transform_inv_def read_cells_upt split: option.splits)
  then show ?thesis by blast
qed

lemma printTofTrans_ok: "drv_inv d \<Longrightarrow> 1 \<le> a \<Longrightarrow> a \<le> ADNED_MAX_DETS \<Longrightarrow> \<exists>out. printTofTrans a d = Inr out"
  using printParams_ok by (auto simp: printTofTrans_def drv_inv_def transforms_ok_def split: option.splits)

section \<open>writeInt32\<close>

definition transform_iparams :: "iparam set" where
  "transform_iparams = {q. matchTransInt q \<noteq> None} \<union> {ADnEDDetTOFTransPrint, ADnEDDetTOFTransDebug}"

fun branch_inv :: "('p, 't) branch \<Rightarrow> bool" where
  "branch_inv (Return st s) = drv_inv (drv s)"
| "branch_inv (Fall v s) = drv_inv (drv s)"

lemma wi_parts_inv:
  assumes "drv_inv (drv s)"
  shows "\<exists>b. wi_start A T adStatus v s = Inr b \<and> branch_inv b" "branch_inv (wi_stop A adStatus v s)"
    "branch_inv (wi_alloc M A adStatus v s)" "branch_inv (wi_limit k adStatus v s)"
proof -
  show "\<exists>b. wi_start A T adStatus v s = Inr b \<and> branch_inv b"
    using clearParams_inv [OF assms, of A T] assms by (auto simp: wi_start_def)
  show "branch_inv (wi_stop A adStatus v s)" "branch_inv (wi_limit k adStatus v s)"
    using assms by (simp_all add: wi_stop_def wi_limit_def)
  show "branch_inv (wi_alloc M A adStatus v s)"
    using allocArray_inv [OF assms, of "calloc_ok M" A] assms by (simp add: wi_alloc_def split_beta)
qed

lemma wi_dispatch_inv:
  assumes "drv_inv (drv s)" "addr \<le> ADNED_MAX_DETS" "q \<in> transform_iparams \<Longrightarrow> 1 \<le> addr"
    "q = ADnEDDetTOFArrayReset \<Longrightarrow> \<exists>d'. resetTOFArray A addr (drv s) = Inr d'"
  shows "\<exists>b. wi_dispatch M A T q addr adStatus v s = Inr b \<and> branch_inv b"
proof -
  note parts = wi_parts_inv [OF assms(1)]
  consider "q = ADnEDReset" | "q = ADnEDStart" | "q = ADnEDDetTOFTransPrint" | "q = ADnEDDetTOFTransDebug"
    | "q = ADnEDDetPixelMapPrint" | "q = ADnEDDetTOFArrayReset"
    | "q \<notin> {ADnEDReset, ADnEDStart, ADnEDDetTOFTransPrint, ADnEDDetTOFTransDebug, ADnEDDetPixelMapPrint, ADnEDDetTOFArrayReset}"
    by blast
  then show ?thesis
  proof cases
    case 1
    then show ?thesis using clearParams_inv [OF assms(1), of A T] by (auto simp: wi_dispatch_def)
  next
    case 2
    then show ?thesis using parts(1) by (simp add: wi_dispatch_def)
  next
    case 3
    then show ?thesis using printTofTrans_ok [OF assms(1) _ assms(2)] assms(1,3)
      by (auto simp: wi_dispatch_def layout_params_def transform_iparams_def)
  next
    case 4
    obtain r d' where "on_transform addr (\<lambda>t. Inr ((), setDebug (v \<noteq> 0) t)) (drv s) = Inr (r, d')" "drv_inv d'"
      using on_transform_inv [OF assms(1) _ assms(2), of "\<lambda>t. Inr ((), setDebug (v \<noteq> 0) t)"] assms(3) 4 transform_inv_setDebug
      by (auto simp: transform_iparams_def)
    then show ?thesis using 4 by (simp add: wi_dispatch_def layout_params_def)
  next
    case 5
    then show ?thesis using printPixelMap_ok [OF assms(1), of addr] assms(1) by (auto simp: wi_dispatch_def layout_params_def)
  next
    case 6
    then obtain d' where d': "resetTOFArray A addr (drv s) = Inr d'" using assms(4) by blast
    then have "drv_inv d'" using resetTOFArray_frame [OF d'] drv_inv_data [OF assms(1)] by auto
    then show ?thesis using 6 d' by (simp add: wi_dispatch_def layout_params_def)
  next
    case 7
    then show ?thesis using parts assms(1) by (auto simp: wi_dispatch_def)
  qed
qed

lemma wi_finish_inv:
  assumes "drv_inv (drv s)" "addr \<le> ADNED_MAX_DETS" "q \<in> transform_iparams \<Longrightarrow> 1 \<le> addr"
  shows "\<exists>st s'. wi_finish A q addr v s = Inr (st, s') \<and> drv_inv (drv s')"
proof -
  have "\<exists>rc d1. (case matchTransInt q of None \<Rightarrow> Inr (ADNED_TRANSFORM_OK, drv s)
      | Some i \<Rightarrow> on_transform addr (\<lambda>t. Inr (setIntParam i v t)) (drv s)) = Inr (rc, d1) \<and> drv_inv d1"
  proof (cases "matchTransInt q")
    case None
    then show ?thesis using assms(1) by simp
  next
    case (Some i)
    then have "1 \<le> addr" using assms(3) by (simp add: transform_iparams_def)
    from on_transform_inv [OF assms(1) this assms(2), of "\<lambda>t. Inr (setIntParam i v t)"] Some
    show ?thesis using transform_inv_setIntParam by (metis (no_types, lifting) option.case(2) prod.collapse)
  qed
  then show ?thesis by (auto simp: wi_finish_def Let_def split_beta)
qed

lemma writeInt32_inv:
  assumes "drv_inv (drv s)" "snd ga \<le> ADNED_MAX_DETS" "q \<in> transform_iparams \<Longrightarrow> 1 \<le> snd ga"
    "q = ADnEDDetTOFArrayReset \<Longrightarrow> \<exists>d'. resetTOFArray A (snd ga) (drv s) = Inr d'"
  shows "\<exists>st s'. writeInt32 M A T ga q v s = Inr (st, s') \<and> drv_inv (drv s')"
proof (cases "fst ga = asynSuccess")
  case False
  then show ?thesis using assms(1) by (simp add: writeInt32_def)
next
  case True
  obtain b where b: "wi_dispatch M A T q (snd ga) (getIntegerParam A (plib (drv s)) 0 ADStatus) v s = Inr b" "branch_inv b"
    using wi_dispatch_inv [OF assms] by blast
  then show ?thesis using True wi_finish_inv [OF _ assms(2,3)] by (cases b) (auto simp: writeInt32_def)
qed

lemma writeFloat64_inv:
  assumes "drv_inv (drv s)" "snd ga \<le> ADNED_MAX_DETS" "matchTransFloat q \<noteq> None \<Longrightarrow> 1 \<le> snd ga"
  shows "\<exists>st s'. writeFloat64 A ga q v s = Inr (st, s') \<and> drv_inv (drv s')"
proof -
  have "\<exists>rc d1. (case matchTransFloat q of None \<Rightarrow> Inr (ADNED_TRANSFORM_OK, drv s)
      | Some i \<Rightarrow> on_transform (snd ga) (\<lambda>t. Inr (setDoubleParamT i v t)) (drv s)) = Inr (rc, d1) \<and> drv_inv d1"
  proof (cases "matchTransFloat q")
    case None
    then show ?thesis using assms(1) by simp
  next
    case (Some i)
    from on_transform_inv [OF assms(1) assms(3) assms(2), of "\<lambda>t. Inr (setDoubleParamT i v t)"] Some
    show ?thesis using transform_inv_setDoubleParam by (metis (no_types, lifting) option.case(2) option.distinct(1) prod.collapse)
  qed
  then show ?thesis using assms(1) by (auto simp: writeFloat64_def Let_def split_beta)
qed

section \<open>writeOctet\<close>

text \<open>No file the driver is pointed at has a NUL byte.\<close>

definition clean_files :: "fsys \<Rightarrow> bool" where
  "clean_files F \<longleftrightarrow> (\<forall>n bytes. fopen_r F n = Some bytes \<longrightarrow> NUL \<notin> set bytes)"

lemma new_file_clean:
  assumes "clean_files F" "new_ADnEDFile F tail name e = (e1, Inr f)"
  shows "(\<exists>bytes. p_FILE f = Some bytes \<and> NUL \<notin> set bytes) \<or> m_Size f = 0"
proof (cases "fopen_r F (stored_name tail name)")
  case None
  then show ?thesis using assms(2) by (auto simp: new_ADnEDFile_def split: if_splits)
next
  case (Some bytes)
  obtain line rest where f: "fgets (ADNEDFILE_MAX_STRING - 2) bytes = (line, rest)" by force
  have "NUL \<notin> set bytes" using Some assms(1) unfolding clean_files_def by blast
  then have "NUL \<notin> set rest" using fgets_parts [OF f] by auto
  then show ?thesis using assms(2) Some f by (auto simp: new_ADnEDFile_def split: if_splits option.splits)
qed

text \<open>Reading the rest of a file that has been opened, into a block of the announced size.\<close>

lemma read_lines_block:
  assumes "NUL \<notin> set bytes"
  shows "\<exists>e2 r. (case calloc_block M w (unat sz) z of None \<Rightarrow> Inr (e, Inl Array_Is_Null)
        | Some arr \<Rightarrow> read_lines conv bad sz bytes 0 arr e) = Inr (e2, r)
      \<and> (case r of Inl _ \<Rightarrow> True | Inr xs \<Rightarrow> length xs = unat sz \<and> calloc_ok M (w * unat sz))"
proof (cases "calloc_ok M (w * unat sz)")
  case True
  then show ?thesis using read_lines_safe [OF assms, of sz "replicate (unat sz) z" conv bad 0 e]
    by (auto simp: calloc_block_def split: sum.splits)
qed (simp add: calloc_block_def)

lemma read_block:
  assumes "clean_files F" "new_ADnEDFile F tail name e = (e1, Inr f)" "getSize f \<noteq> 0"
  shows "\<exists>e2 r. readDataIntoIntArray f (calloc_block M w (unat (getSize f)) 0) e1 = Inr (e2, r)
      \<and> (case r of Inl _ \<Rightarrow> True | Inr xs \<Rightarrow> length xs = unat (getSize f) \<and> calloc_ok M (w * unat (getSize f)))"
    "\<exists>e2 r. readDataIntoDoubleArray uf f (calloc_block M w (unat (getSize f)) (Fin 0)) e1 = Inr (e2, r)
      \<and> (case r of Inl _ \<Rightarrow> True | Inr xs \<Rightarrow> length xs = unat (getSize f) \<and> calloc_ok M (w * unat (getSize f)))"
proof -
  obtain bytes where b: "p_FILE f = Some bytes" "NUL \<notin> set bytes"
    using new_file_clean [OF assms(1,2)] assms(3) by (auto simp: getSize_def)
  note read = readDataIntoIntArray_def readDataIntoDoubleArray_def getSize_def b(1) option.case
  show "\<exists>e2 r. readDataIntoIntArray f (calloc_block M w (unat (getSize f)) 0) e1 = Inr (e2, r)
      \<and> (case r of Inl _ \<Rightarrow> True | Inr xs \<Rightarrow> length xs = unat (getSize f) \<and> calloc_ok M (w * unat (getSize f)))"
    unfolding read by (rule read_lines_block [OF b(2)])
  show "\<exists>e2 r. readDataIntoDoubleArray uf f (calloc_block M w (unat (getSize f)) (Fin 0)) e1 = Inr (e2, r)
      \<and> (case r of Inl _ \<Rightarrow> True | Inr xs \<Rightarrow> length xs = unat (getSize f) \<and> calloc_ok M (w * unat (getSize f)))"
    unfolding read by (rule read_lines_block [OF b(2)])
qed

lemma load_transform_inv:
  assumes "drv_inv (drv s)" "clean_files F" "1 \<le> addr" "addr \<le> ADNED_MAX_DETS"
  shows "\<exists>st s'. load_transform M uf F tail i addr name s = Inr (st, s') \<and> drv_inv (drv s')"
proof -
  obtain e1 r where n: "new_ADnEDFile F tail name (err_range s) = (e1, r)" by force
  show ?thesis
  proof (cases "(\<exists>x. r = Inl x) \<or> (\<exists>f. r = Inr f \<and> getSize f = 0)")
    case True
    then show ?thesis using n assms(1) by (auto simp: load_transform_def)
  next
    case False
    then obtain f where f: "r = Inr f" "getSize f \<noteq> 0" by (cases r) auto
    define set where "set = setDoubleArray (\<lambda>n. calloc_ok M (2 * n)) i"
    obtain e2 r2 where rd: "readDataIntoDoubleArray uf f (calloc_block M 2 (unat (getSize f)) (Fin 0)) e1 = Inr (e2, r2)"
        "case r2 of Inl _ \<Rightarrow> True | Inr xs \<Rightarrow> length xs = unat (getSize f) \<and> calloc_ok M (2 * unat (getSize f))"
      using read_block(2) [OF assms(2) n [unfolded f(1)] f(2)] by blast
    show ?thesis
    proof (cases r2)
      case (Inl x)
      then show ?thesis using n f rd assms(1) by (simp add: load_transform_def)
    next
      case (Inr xs)
      have "\<exists>rc t'. set (Some xs) (getSize f) t = Inr (rc, t') \<and> transform_inv t'" if t: "transform_inv t" for t
      proof -
        have "\<exists>rc t'. set (Some xs) (getSize f) t = Inr (rc, t')" using rd(2) Inr by (auto simp: set_def setDoubleArray_def)
        then show ?thesis using transform_inv_setDoubleArray [OF t] unfolding set_def by blast
      qed
      then obtain rc d' where "on_transform addr (set (Some xs) (getSize f)) (drv s) = Inr (rc, d')" "drv_inv d'"
        using on_transform_inv [OF assms(1,3,4), of "set (Some xs) (getSize f)"] by blast
      then show ?thesis using n f rd(1) Inr by (auto simp: load_transform_def set_def)
    qed
  qed
qed

lemma set_map_check:
  assumes "drv_inv d" "unat n = length xs"
  shows "\<exists>st d'. checkPixelMap A a (set_map a (Some xs) (set_map_size a n d)) = Inr (st, d') \<and> drv_inv d'"
proof -
  have inv: "drv_inv (set_map a (Some xs) (set_map_size a n d))" using drv_inv_map(2) [OF assms(1)] assms(2) by simp
  have loop: "check_loop lim [0..<unat n] xs = Inr (\<exists>i\<in>set [0..<unat n]. lim < xs ! i)" for lim
    using assms(2) by (intro check_loop_result) simp
  have "drv_inv (set_map_size a 0 (set_map a (Some (memset_bytes (unat n) xs)) (set_map a (Some xs) (set_map_size a n d))))"
    using drv_inv_map(1) [OF inv] by simp
  then show ?thesis using inv loop by (auto simp: checkPixelMap_def set_map_def set_map_size_def Let_def)
qed

lemma load_pixel_map_inv:
  assumes "drv_inv (drv s)" "clean_files F"
  shows "\<exists>st s'. load_pixel_map M A F tail addr name s = Inr (st, s') \<and> drv_inv (drv s')"
proof -
  define d0 where "d0 = (if p_PixelMap (drv s) addr = None then drv s else set_map_size addr 0 (set_map addr None (drv s)))"
  have d0: "drv_inv d0" using assms(1) drv_inv_map(1) [OF assms(1), where m = None and n = 0 and a = addr] by (simp add: d0_def)
  obtain e1 r where n: "new_ADnEDFile F tail name (err_range s) = (e1, r)" by force
  show ?thesis
  proof (cases "(\<exists>x. r = Inl x) \<or> (\<exists>f. r = Inr f \<and> getSize f = 0)")
    case True
    then show ?thesis using n d0 drv_inv_no_map [OF d0] by (auto simp: load_pixel_map_def d0_def [symmetric] Let_def)
  next
    case False
    then obtain f where f: "r = Inr f" "getSize f \<noteq> 0" by (cases r) auto
    obtain e2 r2 where rd: "readDataIntoIntArray f (calloc_block M 1 (unat (getSize f)) 0) e1 = Inr (e2, r2)"
        "case r2 of Inl _ \<Rightarrow> True | Inr xs \<Rightarrow> length xs = unat (getSize f) \<and> calloc_ok M (1 * unat (getSize f))"
      using read_block(1) [OF assms(2) n [unfolded f(1)] f(2)] by blast
    show ?thesis
    proof (cases r2)
      case (Inl x)
      have "drv_inv (set_map addr None (set_map_size addr (getSize f) d0))" using drv_inv_map(2) [OF d0, where m = None] by simp
      then show ?thesis using n f rd(1) Inl by (simp add: load_pixel_map_def d0_def [symmetric] Let_def)
    next
      case (Inr xs)
      then obtain st d' where "checkPixelMap A addr (set_map addr (Some xs) (set_map_size addr (getSize f) d0)) = Inr (st, d')" "drv_inv d'"
        using set_map_check [OF d0, of "getSize f" xs A addr] rd(2) by auto
      then show ?thesis using n f rd(1) Inr drv_inv_no_map [of d' addr] by (simp add: load_pixel_map_def d0_def [symmetric] Let_def)
    qed
  qed
qed

lemma writeOctet_inv:
  assumes "drv_inv (drv s)" "clean_files F" "snd ga \<le> ADNED_MAX_DETS" "matchTransFile q \<noteq> None \<Longrightarrow> 1 \<le> snd ga"
  shows "\<exists>st s'. writeOctet M uf A F tail base ga q v s = Inr (st, s') \<and> drv_inv (drv s')"
proof -
  have "\<exists>st s1. wo_action M uf A F tail base (snd ga) q v s = Inr (st, s1) \<and> drv_inv (drv s1)"
    using load_transform_inv [OF assms(1,2) assms(4) assms(3)] load_pixel_map_inv [OF assms(1,2)] assms(1)
    by (auto simp: wo_action_def split_beta split: option.split)
  then show ?thesis using assms(1) by (auto simp: writeOctet_def Let_def split_beta)
qed

end
