(* ===== verification/CommandSpec.thy ===== *)
theory CommandSpec
  imports CommandProps
begin

text \<open>
  The properties of the write entry points: no command sequence faults, a running acquisition cannot be
  reconfigured, the two regions of interest exclude each other, and what becomes of allocation requests
  and pixel maps.
\<close>

section \<open>Sequences of commands\<close>

datatype command = WriteInt nat iparam i32 | WriteFloat nat dparam f64 | WriteString nat sparam string

fun exec ::
    "machine \<Rightarrow> (rat \<Rightarrow> bool) \<Rightarrow> 'p asyn \<Rightarrow> 't pvtime \<Rightarrow> fsys \<Rightarrow> string \<Rightarrow> (nat \<Rightarrow> sparam \<Rightarrow> string \<Rightarrow> 'p \<Rightarrow> asynStatus \<times> 'p)
      \<Rightarrow> command \<Rightarrow> ('p, 't) ioc \<Rightarrow> ('p, 't) ioc res" where
  "exec M uf A T F tail base (WriteInt a q v) s = res_bind (writeInt32 M A T (asynSuccess, a) q v s) (\<lambda>(st, s'). Inr s')"
| "exec M uf A T F tail base (WriteFloat a q v) s = res_bind (writeFloat64 A (asynSuccess, a) q v s) (\<lambda>(st, s'). Inr s')"
| "exec M uf A T F tail base (WriteString a q v) s =
     res_bind (writeOctet M uf A F tail base (asynSuccess, a) q v s) (\<lambda>(st, s'). Inr s')"

text \<open>The addresses of the port; the transformation parameters at a detector's address; not the reset of a
  spectrum, which depends on the last allocation.\<close>

fun harmless :: "command \<Rightarrow> bool" where
  "harmless (WriteInt a q v) \<longleftrightarrow> a \<le> ADNED_MAX_DETS \<and> (q \<in> transform_iparams \<longrightarrow> 1 \<le> a) \<and> q \<noteq> ADnEDDetTOFArrayReset"
| "harmless (WriteFloat a q v) \<longleftrightarrow> a \<le> ADNED_MAX_DETS \<and> (matchTransFloat q \<noteq> None \<longrightarrow> 1 \<le> a)"
| "harmless (WriteString a q v) \<longleftrightarrow> a \<le> ADNED_MAX_DETS \<and> (matchTransFile q \<noteq> None \<longrightarrow> 1 \<le> a)"

definition new_ioc :: "('p, 't) adned \<Rightarrow> ('p, 't) ioc" where
  "new_ioc d = \<lparr>drv = d, ev_start = False, ev_stop = False, ev_startFrame = False, ev_stopFrame = False, err_range = False\<rparr>"

lemma exec_inv:
  assumes "drv_inv (drv s)" "clean_files F" "harmless c"
  shows "\<exists>s'. exec M uf A T F tail base c s = Inr s' \<and> drv_inv (drv s')"
proof (cases c)
  case (WriteInt a q v)
  then show ?thesis using writeInt32_inv [OF assms(1), of "(asynSuccess, a)" q A M T v] assms(3) by auto
next
  case (WriteFloat a q v)
  then show ?thesis using writeFloat64_inv [OF assms(1), of "(asynSuccess, a)" q A v] assms(3) by auto
next
  case (WriteString a q v)
  then show ?thesis using writeOctet_inv [OF assms(1,2), of "(asynSuccess, a)" q M uf A tail base v] assms(3) by auto
qed



text \<open>What the excluded writes do: any write of a transformation parameter at address 0, integer or double,
  goes through \<open>p_Transform[0]\<close>, which the constructor never sets.\<close>

theorem transform_address_0:
  assumes "p_Transform (drv s) 0 = None" "matchTransInt q = Some i" "matchTransFloat x = Some j"
  shows "writeInt32 M A T (asynSuccess, 0) q v s = Inl Uninit_Deref
    \<and> writeFloat64 A (asynSuccess, 0) x w s = Inl Uninit_Deref"
proof -
  have "q \<notin> {ADnEDReset, ADnEDStart, ADnEDStop, ADnEDAllocSpace, ADnEDNumDet, ADnEDNumChannels, ADnEDDetTOFTransPrint,
      ADnEDDetTOFTransDebug, ADnEDDetPixelMapPrint, ADnEDDetPixelROISizeX, ADnEDDetPixelROIEnable, ADnEDDetTOFROIEnable,
      ADnEDDetTOFArrayReset} \<union> set layout_params"
    using assms(2) by (auto simp: matchTransInt_def layout_params_def)
  then show ?thesis
    using assms by (simp add: writeInt32_def wi_dispatch_def wi_finish_def writeFloat64_def on_transform_def)
qed

theorem transform_address_0_witness:
  "writeInt32 demo_machine store_asyn demo_time (asynSuccess, 0) ADnEDDetTOFTransInt0 5 (new_ioc demo_state) = Inl Uninit_Deref"
proof -
  have "p_Transform (drv (new_ioc demo_state)) 0 = None" by (simp add: new_ioc_def demo_state_def new_ADnED_def)
  moreover have "matchTransInt ADnEDDetTOFTransInt0 = Some 0" "matchTransFloat ADnEDDetTOFTransFloat0 = Some 0"
    by (simp_all add: matchTransInt_def matchTransFloat_def)
  ultimately show ?thesis
    using transform_address_0 [of "new_ioc demo_state" ADnEDDetTOFTransInt0 0 ADnEDDetTOFTransFloat0 0 demo_machine store_asyn demo_time 5 "Fin 0"]
    by simp
qed

section \<open>Configuration during acquisition\<close>

text \<open>(C25) A running acquisition cannot be reconfigured. While the driver is acquiring, writing any parameter that the
  layout of the buffer, the number of detectors or the number of channels depends on, or asking for an
  allocation, returns an error and changes nothing whatsoever; a second start is refused without clearing
  the data and without another start signal.\<close>

theorem acquisition_guard:
  assumes "getIntegerParam A (plib (drv s)) 0 ADStatus = ADStatusAcquire"
    "q \<in> set layout_params \<union> {ADnEDAllocSpace, ADnEDNumDet, ADnEDNumChannels}" "v \<noteq> 0"
  shows "writeInt32 M A T (asynSuccess, a) q w s = Inr (asynError, s)
    \<and> (\<exists>s'. writeInt32 M A T (asynSuccess, a) ADnEDStart v s = Inr (asynError, s')
        \<and> p_Data (drv s') = p_Data (drv s) \<and> m_bufferMaxSize (drv s') = m_bufferMaxSize (drv s) \<and> ev_start s' = ev_start s)"
  using assms
  by (auto simp: writeInt32_def wi_dispatch_def layout_params_def wi_alloc_def wi_limit_def wi_start_def ad_status_defs)

theorem acquisition_guard_witness:
  "writeInt32 demo_machine store_asyn demo_time (asynSuccess, 1) ADnEDDetPixelNumEnd 99
     (new_ioc (run_state\<lparr>plib := setI store_asyn 0 ADStatus ADStatusAcquire (plib run_state)\<rparr>))
   = Inr (asynError, new_ioc (run_state\<lparr>plib := setI store_asyn 0 ADStatus ADStatusAcquire (plib run_state)\<rparr>))"
  using acquisition_guard [of store_asyn "new_ioc (run_state\<lparr>plib := setI store_asyn 0 ADStatus ADStatusAcquire (plib run_state)\<rparr>)"
    ADnEDDetPixelNumEnd 1 demo_machine demo_time 1 99]
  by (simp add: new_ioc_def st.get_set_int layout_params_def)

section \<open>Allocation requests\<close>

lemma layout_write:
  assumes "asyn_port A" "getIntegerParam A (plib (drv s)) 0 ADStatus \<noteq> ADStatusAcquire" "q \<in> set layout_params" "a \<le> ADNED_MAX_DETS"
  shows "\<exists>s'. writeInt32 M A T (asynSuccess, a) q v s = Inr (asynSuccess, s') \<and> m_dataAlloc (drv s')
    \<and> getIntegerParam A (plib (drv s')) 0 ADnEDAllocSpaceStatus = ALLOC_STATUS_REQ \<and> getIntegerParam A (plib (drv s')) a q = v
    \<and> p_Data (drv s') = p_Data (drv s) \<and> m_tofMax (drv s') = m_tofMax (drv s)"
proof -
  note port = asyn_port.port_laws [OF assms(1)]
  have q: "q \<notin> {ADnEDReset, ADnEDStart, ADnEDStop, ADnEDAllocSpaceStatus}" "matchTransInt q = None"
    using assms(3) by (auto simp: layout_params_def matchTransInt_def)
  then have disp: "wi_dispatch M A T q a (getIntegerParam A (plib (drv s)) 0 ADStatus) v s = Inr (Fall v (s\<lparr>drv := (drv s)\<lparr>m_dataAlloc := True\<rparr>\<rparr>))"
    using assms(2,3) by (simp add: wi_dispatch_def)
  show ?thesis unfolding writeInt32_def
    using disp q assms(4) port by (auto simp: wi_finish_def split_beta Let_def)
qed


lemma run_idle: "getIntegerParam store_asyn (plib (drv (new_ioc run_state))) 0 ADStatus \<noteq> ADStatusAcquire" "\<not> m_dataAlloc (drv (new_ioc run_state))"
  by (simp_all add: new_ioc_def run_get run_ints_def demo_ints_def ad_status_defs) (simp add: run_state_def)


text \<open>A change of the number of detectors does not request an allocation. After the number of detectors has been
  changed on a driver with an allocated buffer, an explicit allocation reports success and does nothing: the
  buffer and the segments keep the old layout.\<close>

theorem num_det_not_requested:
  assumes "asyn_port A" "getIntegerParam A (plib (drv s)) 0 ADStatus \<noteq> ADStatusAcquire" "\<not> m_dataAlloc (drv s)" "sint v \<le> int ADNED_MAX_DETS"
  shows "\<exists>s'. writeInt32 M A T (asynSuccess, 0) ADnEDNumDet v s = Inr (asynSuccess, s')
    \<and> getIntegerParam A (plib (drv s')) 0 ADnEDNumDet = v \<and> p_Data (drv s') = p_Data (drv s)
    \<and> allocArray ok A (drv s') = (asynSuccess, drv s')"
proof -
  note port = asyn_port.port_laws [OF assms(1)]
  have "wi_dispatch M A T ADnEDNumDet 0 (getIntegerParam A (plib (drv s)) 0 ADStatus) v s = Inr (Fall v s)"
    using assms(2,4) by (simp add: wi_dispatch_def layout_params_def wi_limit_def)
  then show ?thesis unfolding writeInt32_def
    using assms(3) port by (auto simp: wi_finish_def matchTransInt_def split_beta Let_def allocArray_def)
qed

theorem num_det_not_requested_witness:
  "\<exists>s'. writeInt32 demo_machine store_asyn demo_time (asynSuccess, 0) ADnEDNumDet 4 (new_ioc run_state) = Inr (asynSuccess, s')
    \<and> allocArray (calloc_ok demo_machine) store_asyn (drv s') = (asynSuccess, drv s')"
  using num_det_not_requested [OF st.asyn_port_axioms run_idle, of 4 demo_machine demo_time "calloc_ok demo_machine"] by auto

section \<open>Regions of interest\<close>

definition roi_iparams :: "iparam set" where "roi_iparams = {ADnEDDetPixelROIEnable, ADnEDDetTOFROIEnable}"

abbreviation keeps_roi :: "'p asyn \<Rightarrow> 'p \<Rightarrow> 'p \<Rightarrow> bool" where
  "keeps_roi A p p' \<equiv> \<forall>d. \<forall>q\<in>roi_iparams. getIntegerParam A p' d q = getIntegerParam A p d q"

lemma alloc_pixels_roi:
  assumes "asyn_port A"
  shows "set ds \<subseteq> {..ADNED_MAX_DETS} \<Longrightarrow> alloc_pixels A ds d = (fin, d') \<Longrightarrow> keeps_roi A (plib d) (plib d')"
proof (induction ds arbitrary: d)
  case Nil
  then show ?case by simp
next
  case (Cons e ds)
  note port = asyn_port.port_laws [OF assms]
  show ?case
  proof (cases "det_ordered A (plib d) e")
    case True
    obtain p m where p: "alloc_pixels A ds (d\<lparr>plib := p, m_dataMaxSize := m\<rparr>) = (fin, d')" "keeps_roi A (plib d) p"
      using Cons.prems True by (auto simp: det_ordered_def Let_def port roi_iparams_def)
    then show ?thesis using Cons.IH [OF _ p(1)] Cons.prems(1) by simp
  next
    case False
    then show ?thesis using Cons.prems by (auto simp: det_ordered_def port roi_iparams_def)
  qed
qed

lemma alloc_tofs_roi:
  assumes "asyn_port A"
  shows "set ds \<subseteq> {..ADNED_MAX_DETS} \<Longrightarrow> keeps_roi A p (alloc_tofs A tm ds start p)"
proof (induction ds arbitrary: start p)
  case Nil
  then show ?case by simp
next
  case (Cons e ds)
  then show ?case by (simp add: Let_def roi_iparams_def asyn_port.port_laws [OF assms])
qed

lemma allocArray_roi:
  assumes "asyn_port A" "sint (getIntegerParam A (plib d) 0 ADnEDNumDet) \<le> int ADNED_MAX_DETS"
  shows "keeps_roi A (plib d) (plib (snd (allocArray ok A d)))"
proof (cases "m_dataAlloc d \<and> getIntegerParam A (plib d) 0 ADnEDNumDet \<noteq> 0")
  case False
  then show ?thesis by (auto simp: allocArray_def Let_def)
next
  case True
  note port = asyn_port.port_laws [OF assms(1)]
  define nd tm where "nd = getIntegerParam A (plib d) 0 ADnEDNumDet" and "tm = getIntegerParam A (plib d) 0 ADnEDTOFMax"
  have ds: "set (det_range nd) \<subseteq> {..ADNED_MAX_DETS}" using assms(2) by (auto simp: det_range_def nd_def)
  obtain fin s2 where ap: "alloc_pixels A (det_range nd) (d\<lparr>m_tofMax := tm, m_dataMaxSize := 0\<rparr>) = (fin, s2)"
    by (cases "alloc_pixels A (det_range nd) (d\<lparr>m_tofMax := tm, m_dataMaxSize := 0\<rparr>)")
  define p3 where "p3 = alloc_tofs A tm (det_range nd) (m_dataMaxSize s2) (plib s2)"
  have k2: "keeps_roi A (plib d) (plib s2)" using alloc_pixels_roi [OF assms(1) ds ap] by simp
  have k3: "keeps_roi A (plib s2) p3" unfolding p3_def by (rule alloc_tofs_roi [OF assms(1) ds])
  have "plib (snd (allocArray ok A d)) \<in> {plib s2, setI A 0 ADnEDAllocSpaceStatus ALLOC_STATUS_OK p3,
      setI A 0 ADnEDAllocSpaceStatus ALLOC_STATUS_FAIL p3, setI A 0 ADnEDAllocSpaceStatus ALLOC_STATUS_FAIL
        (setI A 0 ADnEDAllocSpaceStatus ALLOC_STATUS_FAIL p3)}"
    using True ap unfolding nd_def tm_def p3_def by (cases fin) (auto simp: allocArray_def Let_def)
  then show ?thesis using k2 k3 by (auto simp: port roi_iparams_def)
qed

fun branch_lib :: "('p, 't) branch \<Rightarrow> 'p" where
  "branch_lib (Return st s) = plib (drv s)"
| "branch_lib (Fall v s) = plib (drv s)"

lemma clearParams_roi:
  assumes "asyn_port A" "drv_inv d" "clearParams A T d = Inr (st, d')"
  shows "keeps_roi A (plib d) (plib d')"
  using clearParams_result [OF assms(1), of d T] assms(2,3) by (auto simp: drv_inv_def roi_iparams_def chan_iparams_def)

lemma on_transform_plib: "on_transform a f d = Inr (r, d') \<Longrightarrow> plib d' = plib d"
  by (auto simp: on_transform_def split: option.splits prod.splits)

lemma wi_dispatch_roi:
  assumes "asyn_port A" "drv_inv (drv s)" "sint (getIntegerParam A (plib (drv s)) 0 ADnEDNumDet) \<le> int ADNED_MAX_DETS"
    "q \<notin> roi_iparams" "wi_dispatch M A T q a adStatus v s = Inr b"
  shows "keeps_roi A (plib (drv s)) (branch_lib b)"
proof -
  note port = asyn_port.port_laws [OF assms(1)]
  have alloc: "keeps_roi A (plib (drv s)) (plib (snd (allocArray (calloc_ok M) A (drv s))))"
    by (rule allocArray_roi [OF assms(1,3)])
  have stop: "keeps_roi A (plib (drv s)) (branch_lib (wi_stop A adStatus v s))"
    and lim: "keeps_roi A (plib (drv s)) (branch_lib (wi_limit k adStatus v s))" for k
    by (auto simp: wi_stop_def wi_limit_def port roi_iparams_def)
  have all: "keeps_roi A (plib (drv s)) (branch_lib (wi_alloc M A adStatus v s))"
    using alloc by (auto simp: wi_alloc_def split_beta port roi_iparams_def)
  have start: "keeps_roi A (plib (drv s)) (branch_lib b)" if "wi_start A T adStatus v s = Inr b" for b
    using that clearParams_roi [OF assms(1,2)]
    by (auto simp: wi_start_def port roi_iparams_def split: if_splits)
  have other: "q \<notin> {ADnEDReset, ADnEDStart, ADnEDStop, ADnEDAllocSpace, ADnEDNumDet, ADnEDNumChannels, ADnEDDetTOFTransDebug, ADnEDDetTOFArrayReset}
      \<Longrightarrow> branch_lib b = plib (drv s)"
    using assms(4,5) by (auto simp: wi_dispatch_def roi_iparams_def split: if_splits)
  consider "q = ADnEDReset" | "q = ADnEDStart" | "q \<in> {ADnEDStop, ADnEDAllocSpace, ADnEDNumDet, ADnEDNumChannels}"
    | "q = ADnEDDetTOFTransDebug" | "q = ADnEDDetTOFArrayReset" | "branch_lib b = plib (drv s)"
    using other by blast
  then show ?thesis
  proof cases
    case 1
    then obtain st d where "clearParams A T (drv s) = Inr (st, d)" "b = Fall v (s\<lparr>drv := d\<rparr>)"
      using assms(5) by (auto simp: wi_dispatch_def)
    then show ?thesis using clearParams_roi [OF assms(1,2)] by simp
  next
    case 2
    then show ?thesis using assms(5) start by (simp add: wi_dispatch_def)
  next
    case 3
    then show ?thesis using assms(5) stop lim all by (auto simp: wi_dispatch_def layout_params_def)
  next
    case 4
    then obtain d where "on_transform a (\<lambda>t. Inr ((), setDebug (v \<noteq> 0) t)) (drv s) = Inr ((), d)" "b = Fall v (s\<lparr>drv := d\<rparr>)"
      using assms(5) by (auto simp: wi_dispatch_def layout_params_def)
    then show ?thesis using on_transform_plib by fastforce
  next
    case 5
    then obtain d where d: "resetTOFArray A a (drv s) = Inr d" "b = Fall v (s\<lparr>drv := d\<rparr>)"
      using assms(5) by (auto simp: wi_dispatch_def layout_params_def)
    then show ?thesis using resetTOFArray_frame [OF d(1)] by auto
  qed simp
qed

text \<open>(C24) The two regions of interest are never both switched on with 1. If no detector has both its pixel region
  and its time-of-flight region enabled with the value 1, then after any integer write to the driver, of any
  parameter at any address, this is still so.\<close>

theorem roi_exclusive:
  assumes "asyn_port A" "drv_inv (drv s)" "sint (getIntegerParam A (plib (drv s)) 0 ADnEDNumDet) \<le> int ADNED_MAX_DETS"
    "a \<le> ADNED_MAX_DETS" "writeInt32 M A T (asynSuccess, a) q v s = Inr (st, s')"
    "\<forall>d. \<not> (getIntegerParam A (plib (drv s)) d ADnEDDetPixelROIEnable = 1 \<and> getIntegerParam A (plib (drv s)) d ADnEDDetTOFROIEnable = 1)"
  shows "\<forall>d. \<not> (getIntegerParam A (plib (drv s')) d ADnEDDetPixelROIEnable = 1 \<and> getIntegerParam A (plib (drv s')) d ADnEDDetTOFROIEnable = 1)"
proof -
  note port = asyn_port.port_laws [OF assms(1)]
  obtain b where b: "wi_dispatch M A T q a (getIntegerParam A (plib (drv s)) 0 ADStatus) v s = Inr b"
      "(case b of Return st s' \<Rightarrow> Inr (st, s') | Fall v' s' \<Rightarrow> wi_finish A q a v' s') = Inr (st, s')"
    using assms(5) by (auto simp: writeInt32_def)
  show ?thesis
  proof (cases "q \<in> roi_iparams")
    case True
    then have "matchTransInt q = None" "q \<notin> set layout_params" by (auto simp: roi_iparams_def matchTransInt_def layout_params_def)
    then show ?thesis using True b assms(4,6)
      by (auto simp: roi_iparams_def wi_dispatch_def layout_params_def wi_finish_def split_beta Let_def port split: if_splits)
  next
    case False
    have k: "keeps_roi A (plib (drv s)) (branch_lib b)" by (rule wi_dispatch_roi [OF assms(1-3) False b(1)])
    have fin: "keeps_roi A (plib (drv s1)) (plib (drv s'))" if f: "wi_finish A q a v' s1 = Inr (st, s')" for v' s1
    proof -
      obtain rc d1 where d1: "plib d1 = plib (drv s1)" "(case matchTransInt q of None \<Rightarrow> Inr (ADNED_TRANSFORM_OK, drv s1)
          | Some i \<Rightarrow> on_transform a (\<lambda>t. Inr (setIntParam i v' t)) (drv s1)) = Inr (rc, d1)"
        using f on_transform_plib by (cases "matchTransInt q") (fastforce simp: wi_finish_def)+
      then show ?thesis using f False assms(4)
        by (auto simp: wi_finish_def roi_iparams_def split_beta Let_def port split: if_splits)
    qed
    show ?thesis using k fin b(2) assms(6) by (cases b) (auto simp: roi_iparams_def)
  qed
qed

lemma run_inv: "drv_inv (drv (new_ioc run_state))"
  by (auto simp: new_ioc_def drv_inv_def buf_inv_def map_inv_def transforms_ok_def run_state_def demo_state_def new_ADnED_def run_transform_inv)

theorem roi_exclusive_witness:
  "\<exists>st s'. writeInt32 demo_machine store_asyn demo_time (asynSuccess, 1) ADnEDDetPixelROIEnable 1 (new_ioc run_state) = Inr (st, s')
    \<and> \<not> (getIntegerParam store_asyn (plib (drv s')) 1 ADnEDDetPixelROIEnable = 1
        \<and> getIntegerParam store_asyn (plib (drv s')) 1 ADnEDDetTOFROIEnable = 1)"
proof -
  obtain st s' where w: "writeInt32 demo_machine store_asyn demo_time (asynSuccess, 1) ADnEDDetPixelROIEnable 1 (new_ioc run_state) = Inr (st, s')"
    using writeInt32_inv [OF run_inv, of "(asynSuccess, 1)" ADnEDDetPixelROIEnable store_asyn demo_machine demo_time 1] by auto
  have "sint (getIntegerParam store_asyn (plib (drv (new_ioc run_state))) 0 ADnEDNumDet) \<le> int ADNED_MAX_DETS"
    "\<forall>d. \<not> (getIntegerParam store_asyn (plib (drv (new_ioc run_state))) d ADnEDDetPixelROIEnable = 1
      \<and> getIntegerParam store_asyn (plib (drv (new_ioc run_state))) d ADnEDDetTOFROIEnable = 1)"
    by (auto simp: new_ioc_def run_get run_ints_def demo_ints_def)
  from roi_exclusive [OF st.asyn_port_axioms run_inv this(1) _ w this(2)] w show ?thesis by auto
qed

section \<open>Pixel maps\<close>

lemma check_good_map:
  assumes "p_PixelMap d a = Some xs" "m_PixelMapSize d a \<noteq> 0" "unat (m_PixelMapSize d a) = length xs"
    "\<forall>x\<in>set xs. x \<le> getIntegerParam A (plib d) a ADnEDDetPixelNumSize"
  shows "checkPixelMap A a d = Inr (asynSuccess, d)"
proof -
  have "check_loop (getIntegerParam A (plib d) a ADnEDDetPixelNumSize) [0..<length xs] xs
      = Inr (\<exists>i\<in>set [0..<length xs]. getIntegerParam A (plib d) a ADnEDDetPixelNumSize < xs ! i)"
    by (rule check_loop_result) simp
  also have "(\<exists>i\<in>set [0..<length xs]. getIntegerParam A (plib d) a ADnEDDetPixelNumSize < xs ! i) = False"
    using assms(4) by (auto simp: not_less [symmetric])
  finally show ?thesis using assms(1-3) by (simp add: checkPixelMap_def Let_def word_gt_0)
qed

text \<open>(C26) Loading a pixel map works from the file to the driver. Writing the name of a file that lists \<open>n\<close> pixel
  indices, none above the detector's size, succeeds; the driver then holds exactly these indices as the map
  of that detector, has recorded their number, keeps the maps of the other detectors, and reports the name.\<close>

theorem pixel_map_loaded:
  assumes "asyn_port A" "a \<le> ADNED_MAX_DETS" "\<And>p. fst (callParamCallbacks A p a) = asynSuccess"
    "fileName \<noteq> []" "length fileName < 255" "access_ok F fileName" "fopen_r F fileName = Some (map_file (length vs) vs)"
    "vs \<noteq> []" "length vs < 2 ^ 32" "calloc_ok M (length vs)" "\<not> err_range s"
    "\<forall>v\<in>set vs. v < 2 ^ 32 \<and> v \<le> unat (getIntegerParam A (plib (drv s)) a ADnEDDetPixelNumSize)"
  shows "\<exists>s'. writeOctet M uf A F tail base (asynSuccess, a) ADnEDDetPixelMapFile fileName s = Inr (asynSuccess, s')
    \<and> p_PixelMap (drv s') a = Some (map of_nat vs) \<and> unat (m_PixelMapSize (drv s') a) = length vs
    \<and> (\<forall>b. b \<noteq> a \<longrightarrow> p_PixelMap (drv s') b = p_PixelMap (drv s) b \<and> m_PixelMapSize (drv s') b = m_PixelMapSize (drv s) b)
    \<and> getStringParam A (plib (drv s')) a ADnEDDetPixelMapFile = fileName"
proof -
  define n where "n = length vs"
  obtain f where f: "new_ADnEDFile F tail fileName False = (False, Inr f)" "unat (getSize f) = n"
      "readDataIntoIntArray f (Some (replicate n 0)) False = Inr (False, Inr (map of_nat vs))"
    using printed_file_read [OF assms(4-7) assms(9)] assms(12) by (auto simp: n_def)
  have nz: "getSize f \<noteq> 0" using f(2) assms(8) by (auto simp: n_def)
  define d0 where "d0 = (if p_PixelMap (drv s) a = None then drv s else set_map_size a 0 (set_map a None (drv s)))"
  define d1 where "d1 = set_map a (Some (map of_nat vs)) (set_map_size a (getSize f) d0)"
  have d1: "p_PixelMap d1 a = Some (map of_nat vs)" "m_PixelMapSize d1 a = getSize f" "plib d1 = plib (drv s)"
    "\<forall>b. b \<noteq> a \<longrightarrow> p_PixelMap d1 b = p_PixelMap (drv s) b \<and> m_PixelMapSize d1 b = m_PixelMapSize (drv s) b"
    by (auto simp: d1_def d0_def set_map_def set_map_size_def)
  have "checkPixelMap A a d1 = Inr (asynSuccess, d1)"
    using d1 nz f(2) assms(12) by (intro check_good_map) (auto simp: n_def word_le_nat_alt unat32_of_nat)
  then have "load_pixel_map M A F tail a fileName s = Inr (asynSuccess, s\<lparr>drv := d1, err_range := False\<rparr>)"
    using f nz assms(10,11) by (simp add: load_pixel_map_def d0_def [symmetric] d1_def calloc_block_def n_def Let_def)
  then have act: "wo_action M uf A F tail base a ADnEDDetPixelMapFile fileName s = Inr (asynSuccess, s\<lparr>drv := d1, err_range := False\<rparr>)"
    by (simp add: wo_action_def matchTransFile_def)
  then show ?thesis using d1 f(2) assms(2,3) asyn_port.port_laws [OF assms(1)]
    by (simp add: writeOctet_def split_beta Let_def n_def)
qed

theorem pixel_map_loaded_witness:
  "\<exists>s'. writeOctet demo_machine (\<lambda>_. False) store_asyn (demo_files (map_file 3 [4, 0, 2])) [] (\<lambda>_ _ _ p. (asynSuccess, p))
      (asynSuccess, 1) ADnEDDetPixelMapFile ''m'' (new_ioc run_state) = Inr (asynSuccess, s')
    \<and> p_PixelMap (drv s') 1 = Some [4, 0, 2]"
proof -
  have "fst (callParamCallbacks store_asyn p 1) = asynSuccess" for p by (simp add: store_asyn_def)
  moreover have "fopen_r (demo_files (map_file 3 [4, 0, 2])) ''m'' = Some (map_file (length [4, 0, 2 :: nat]) [4, 0, 2])"
    by (simp add: demo_files_def eval_nat_numeral)
  moreover have "unat (getIntegerParam store_asyn (plib (drv (new_ioc run_state))) 1 ADnEDDetPixelNumSize) = 5"
    by (simp add: new_ioc_def run_get run_ints_def)
  ultimately show ?thesis
    using pixel_map_loaded [OF st.asyn_port_axioms, of 1 "''m''" "demo_files (map_file 3 [4, 0, 2])" "[4, 0, 2]" demo_machine
      "new_ioc run_state" "\<lambda>_. False" "[]" "\<lambda>_ _ _ p. (asynSuccess, p)"]
    by (auto simp: demo_files_def demo_machine_def new_ioc_def)
qed

text \<open>A pixel map file that cannot be read is reported as a success. When opening the file fails, or its first line
  is not a number, the write returns success and stores the name, and the detector is left without a map.\<close>

theorem bad_map_file_succeeds:
  assumes "asyn_port A" "a \<le> ADNED_MAX_DETS" "\<And>p. fst (callParamCallbacks A p a) = asynSuccess"
    "new_ADnEDFile F tail fileName (err_range s) = (e, Inl x)"
  shows "\<exists>s'. writeOctet M uf A F tail base (asynSuccess, a) ADnEDDetPixelMapFile fileName s = Inr (asynSuccess, s')
    \<and> p_PixelMap (drv s') a = None \<and> getStringParam A (plib (drv s')) a ADnEDDetPixelMapFile = fileName"
proof -
  define d0 where "d0 = (if p_PixelMap (drv s) a = None then drv s else set_map_size a 0 (set_map a None (drv s)))"
  have "wo_action M uf A F tail base a ADnEDDetPixelMapFile fileName s = Inr (asynSuccess, s\<lparr>drv := set_map a None d0, err_range := e\<rparr>)"
    using assms(4) by (simp add: wo_action_def matchTransFile_def load_pixel_map_def d0_def [symmetric] Let_def)
  then show ?thesis using assms(2,3) asyn_port.port_laws [OF assms(1)]
    by (simp add: writeOctet_def split_beta Let_def set_map_def)
qed

theorem bad_map_file_succeeds_witness:
  "\<exists>s'. writeOctet demo_machine (\<lambda>_. False) store_asyn (demo_files []) [] (\<lambda>_ _ _ p. (asynSuccess, p)) (asynSuccess, 1)
      ADnEDDetPixelMapFile ''m'' (new_ioc run_state) = Inr (asynSuccess, s') \<and> p_PixelMap (drv s') 1 = None"
proof -
  have "new_ADnEDFile (demo_files []) [] ''m'' (err_range (new_ioc run_state)) = (False, Inl No_Size)"
    using fgets_rest [of "[]" "ADNEDFILE_MAX_STRING - 2"]
    by (simp add: new_ADnEDFile_def demo_files_def new_ioc_def c_str_def strtol_def del: One_nat_def)
  moreover have "fst (callParamCallbacks store_asyn p 1) = asynSuccess" for p by (simp add: store_asyn_def)
  ultimately show ?thesis
    using bad_map_file_succeeds [OF st.asyn_port_axioms, of 1 "demo_files []" "[]" "''m''" "new_ioc run_state" False No_Size
      demo_machine "\<lambda>_. False" "\<lambda>_ _ _ p. (asynSuccess, p)"] by auto
qed

end
