(* ===== verification/Axis.thy ===== *)
theory Axis
  imports Float64 Blocks
begin

text \<open>
  \<open>ADnEDAxis.c\<close>: the two functions of the aSub record that computes the scale of a plot axis. The record's
  input arrays are read at their first element only. \<open>dpvt\<close> is the work array, \<open>None\<close> before it is
  allocated; \<open>vala\<close> is the output array of the record, of \<open>NOVA\<close> elements.
\<close>

record aSub =
  nova :: u32
  in_a :: f64
  in_b :: i32
  in_c :: f64
  dpvt :: "f64 list option"
  vala :: "f64 list"

definition ADnEDAxisInit :: "aSub \<Rightarrow> int \<times> aSub" where
  "ADnEDAxisInit psub =
     (let n = (if nova psub < 1 then 1 else nova psub)
      in (0, psub\<lparr>nova := n, dpvt := Some (replicate (unat n) (Fin 0))\<rparr>))"

text \<open>\<open>pData[i] = point\<close> for all \<open>i\<close>, and the second loop, which adds the bin to the point after each store.\<close>

definition axis_fill :: "i32 \<Rightarrow> f64 \<Rightarrow> f64 list \<Rightarrow> f64 list res" where
  "axis_fill maxsize point = foldR (\<lambda>i. mem_write (int i) point) [0..<nat (sint maxsize)]"

fun axis_points :: "f64 \<Rightarrow> nat list \<Rightarrow> f64 \<Rightarrow> f64 list \<Rightarrow> f64 list res" where
  "axis_points bin [] point xs = Inr xs"
| "axis_points bin (i # is) point xs = res_bind (mem_write (int i) point xs) (axis_points bin is (fadd point bin))"

text \<open>\<open>memcpy(psub->vala, pData, maxsize*sizeof(double))\<close>; a negative \<open>maxsize\<close> is a huge size.\<close>

definition axis_copy :: "i32 \<Rightarrow> f64 list \<Rightarrow> f64 list \<Rightarrow> f64 list res" where
  "axis_copy maxsize src dst =
     (if sint maxsize < 0 \<or> length src < nat (sint maxsize) then Inl Oob_Read
      else if length dst < nat (sint maxsize) then Inl Oob_Write
      else Inr (take (nat (sint maxsize)) src @ drop (nat (sint maxsize)) dst))"

definition ADnEDAxisProcess :: "aSub \<Rightarrow> (int \<times> aSub) res" where
  "ADnEDAxisProcess psub =
     (let maxsize = nova psub; start = in_a psub; sz = in_b psub; bin = in_c psub
      in if sint maxsize < sint sz then Inr (1, psub)
         else case dpvt psub of
           None \<Rightarrow> if sint maxsize = 0 then Inr (0, psub) else Inl Null_Deref
         | Some pData \<Rightarrow>
             res_bind (axis_fill maxsize (fmul (f_of_i32 sz) bin) pData) (\<lambda>p1.
             res_bind (axis_points bin [0..<nat (sint sz)] start p1) (\<lambda>p2.
             res_bind (axis_copy maxsize p2 (vala psub)) (\<lambda>v.
             Inr (0, psub\<lparr>dpvt := Some p2, vala := v\<rparr>)))))"

section \<open>The scale\<close>

text \<open>Point \<open>k\<close> of the axis: the start value with the bin added \<open>k\<close> times.\<close>

primrec axis_point :: "f64 \<Rightarrow> f64 \<Rightarrow> nat \<Rightarrow> f64" where
  "axis_point start bin 0 = start"
| "axis_point start bin (Suc k) = fadd (axis_point start bin k) bin"

lemma axis_point_shift: "axis_point (fadd a b) b k = axis_point a b (Suc k)"
  by (induction k) simp_all

lemma axis_points_ok:
  "i + n \<le> length xs \<Longrightarrow> axis_points bin [i..<i + n] point xs =
     Inr (take i xs @ map (axis_point point bin) [0..<n] @ drop (i + n) xs)"
proof (induction n arbitrary: i point xs)
  case 0
  then show ?case by simp
next
  case (Suc n)
  have "[i..<i + Suc n] = i # [Suc i..<Suc i + n]" by (simp add: upt_rec)
  then have "axis_points bin [i..<i + Suc n] point xs = axis_points bin [Suc i..<Suc i + n] (fadd point bin) (xs[i := point])"
    using Suc.prems by (simp add: mem_write_def)
  also have "\<dots> = Inr (take (Suc i) (xs[i := point]) @ map (axis_point (fadd point bin) bin) [0..<n] @ drop (Suc i + n) (xs[i := point]))"
    using Suc.prems by (intro Suc.IH) simp
  also have "map (axis_point (fadd point bin) bin) [0..<n] = map (axis_point point bin) [Suc 0..<Suc n]"
    unfolding map_Suc_upt [of 0 n, symmetric] by (simp add: axis_point_shift o_def del: axis_point.simps)
  also have "take (Suc i) (xs[i := point]) = take i xs @ [point]" using Suc.prems by (simp add: take_Suc_conv_app_nth)
  finally show ?case using Suc.prems by (simp add: upt_rec [of 0 "Suc n"] del: upt_Suc)
qed

lemma axis_fill_ok:
  assumes "sint maxsize = int n" "length xs = n"
  shows "axis_fill maxsize v xs = Inr (replicate n v)"
proof -
  have "writes n v (\<Union>i\<in>set [0..<n]. {i}) (foldR (\<lambda>i. mem_write (int i) v) [0..<n])"
    by (intro writes_foldR writes_store) simp
  then obtain ys where "axis_fill maxsize v xs = Inr ys" "length ys = n" "\<And>k. k < n \<Longrightarrow> ys ! k = v"
    using assms by (auto simp: axis_fill_def elim!: writesD)
  moreover then have "ys = replicate n v" by (intro nth_equalityI) simp_all
  ultimately show ?thesis by simp
qed

lemma axis_process:
  assumes "unat (nova p) < 2 ^ 31" "length (vala p) = unat (nova p)" "0 < unat (nova p)" "ADnEDAxisInit p = (r, q)"
  shows "r = 0 \<and> (if int (unat (nova p)) < sint (in_b p) then ADnEDAxisProcess q = Inr (1, q)
    else \<exists>q'. ADnEDAxisProcess q = Inr (0, q') \<and> nova q' = nova p \<and>
      vala q' = map (axis_point (in_a p) (in_c p)) [0..<nat (sint (in_b p))]
        @ replicate (unat (nova p) - nat (sint (in_b p))) (fmul (f_of_i32 (in_b p)) (in_c p)))"
proof -
  define n k where "n = unat (nova p)" and "k = nat (sint (in_b p))"
  have "\<not> nova p < 1" using assms(3) by (simp add: word_less_nat_alt)
  then have q: "r = 0" "q = p\<lparr>dpvt := Some (replicate n (Fin 0))\<rparr>"
    using assms(4) by (auto simp: ADnEDAxisInit_def n_def)
  have sint: "sint (nova p) = int n"
    using assms(1) of_nat_less_iff [where 'a = int, THEN iffD2, OF assms(1)] by (simp add: sint32_if n_def)
  show ?thesis
  proof (cases "int n < sint (in_b p)")
    case True
    then show ?thesis using q sint by (simp add: ADnEDAxisProcess_def n_def [symmetric])
  next
    case False
    then have kn: "k \<le> n" by (simp add: k_def)
    define v where "v = fmul (f_of_i32 (in_b p)) (in_c p)"
    define ys where "ys = map (axis_point (in_a p) (in_c p)) [0..<k] @ replicate (n - k) v"
    have "axis_fill (nova p) v (replicate n (Fin 0)) = Inr (replicate n v)" by (rule axis_fill_ok [OF sint]) simp
    moreover have "axis_points (in_c p) [0..<k] (in_a p) (replicate n v) = Inr ys"
      using axis_points_ok [of 0 k "replicate n v" "in_c p" "in_a p"] kn by (simp add: ys_def)
    moreover have "axis_copy (nova p) ys (vala p) = Inr ys"
      using sint kn assms(2) by (simp add: axis_copy_def ys_def n_def [symmetric])
    ultimately show ?thesis using False sint q
      by (simp add: ADnEDAxisProcess_def Let_def v_def [symmetric] k_def [symmetric] n_def [symmetric] ys_def)
  qed
qed

text \<open>(C33) The record computes the scale it is asked for. After the initialisation, for a requested size of at most
  \<open>NOVA\<close> points, processing succeeds without leaving any array: the output starts with the \<open>size\<close> points
  \<open>start\<close>, \<open>start+bin\<close>, ... and is filled up with \<open>size*bin\<close>. A larger request returns 1 and changes
  nothing.\<close>

theorem axis_scale:
  assumes "unat (nova p) < 2 ^ 31" "length (vala p) = unat (nova p)" "0 < unat (nova p)" "ADnEDAxisInit p = (r, q)"
  shows "r = 0 \<and> (if int (unat (nova p)) < sint (in_b p) then ADnEDAxisProcess q = Inr (1, q)
    else \<exists>q'. ADnEDAxisProcess q = Inr (0, q') \<and> nova q' = nova p \<and>
      vala q' = map (axis_point (in_a p) (in_c p)) [0..<nat (sint (in_b p))]
        @ replicate (unat (nova p) - nat (sint (in_b p))) (fmul (f_of_i32 (in_b p)) (in_c p)))"
  using assms by (rule axis_process)

definition demo_axis :: aSub where
  "demo_axis = \<lparr>nova = 4, in_a = Fin 10, in_b = 3, in_c = Fin 5, dpvt = None, vala = replicate 4 (Fin 0)\<rparr>"

theorem axis_scale_witness:
  "\<exists>q. ADnEDAxisProcess (snd (ADnEDAxisInit demo_axis)) = Inr (0, q)
    \<and> vala q = map (axis_point (Fin 10) (Fin 5)) [0..<3] @ [fmul (Fin 3) (Fin 5)]"
  using axis_scale [of demo_axis 0 "snd (ADnEDAxisInit demo_axis)"]
  by (auto simp: demo_axis_def ADnEDAxisInit_def f_of_i32_def)

lemma axis_point_int:
  "\<bar>a\<bar> + int k * \<bar>b\<bar> \<le> 2 ^ 53 \<Longrightarrow> axis_point (Fin (of_int a)) (Fin (of_int b)) k = Fin (of_int (a + int k * b))"
proof (induction k)
  case 0
  then show ?case by simp
next
  case (Suc k)
  have "\<bar>a + int (Suc k) * b\<bar> \<le> \<bar>a\<bar> + int (Suc k) * \<bar>b\<bar>" by (simp add: abs_mult order_trans [OF abs_triangle_ineq])
  then have "rnd (of_int (a + int (Suc k) * b)) = Fin (of_int (a + int (Suc k) * b))" using Suc.prems by (intro rnd_of_int) simp
  moreover have "\<bar>a\<bar> + int k * \<bar>b\<bar> \<le> 2 ^ 53" using Suc.prems by (simp add: algebra_simps)
  ultimately show ?case using Suc.IH by (simp add: algebra_simps)
qed

text \<open>On integers the scale is exact. When start and bin are integers and no point exceeds \<open>2^53\<close>, point \<open>k\<close> of the
  output is \<open>start + k * bin\<close>, although the code adds the bin repeatedly in floating point.\<close>

theorem axis_scale_exact:
  assumes "unat (nova p) < 2 ^ 31" "length (vala p) = unat (nova p)" "in_a p = Fin (of_int a)" "in_c p = Fin (of_int b)"
    "0 \<le> sint (in_b p)" "sint (in_b p) \<le> int (unat (nova p))" "0 < unat (nova p)" "\<bar>a\<bar> + sint (in_b p) * \<bar>b\<bar> \<le> 2 ^ 53"
  shows "\<exists>q. ADnEDAxisProcess (snd (ADnEDAxisInit p)) = Inr (0, q)
    \<and> (\<forall>k. int k < sint (in_b p) \<longrightarrow> vala q ! k = Fin (of_int (a + int k * b)))"
proof -
  define n where "n = nat (sint (in_b p))"
  obtain q where q: "ADnEDAxisProcess (snd (ADnEDAxisInit p)) = Inr (0, q)"
      "vala q = map (axis_point (in_a p) (in_c p)) [0..<n] @ replicate (unat (nova p) - n) (fmul (f_of_i32 (in_b p)) (in_c p))"
    using axis_process [OF assms(1,2,7) prod.collapse [symmetric]] assms(6) by (auto simp: n_def)
  have "vala q ! k = Fin (of_int (a + int k * b))" if "int k < sint (in_b p)" for k
  proof -
    have k: "k < n" using that by (simp add: n_def)
    have "int k * \<bar>b\<bar> \<le> sint (in_b p) * \<bar>b\<bar>" using that by (intro mult_right_mono) simp_all
    then have "\<bar>a\<bar> + int k * \<bar>b\<bar> \<le> 2 ^ 53" using assms(8) by linarith
    from axis_point_int [OF this] show ?thesis using k by (simp add: q(2) nth_append assms(3,4))
  qed
  then show ?thesis using q(1) by blast
qed

theorem axis_scale_exact_witness:
  "\<exists>q. ADnEDAxisProcess (snd (ADnEDAxisInit demo_axis)) = Inr (0, q) \<and> vala q ! 2 = Fin 20"
  using axis_scale_exact [of demo_axis 10 5] by (fastforce simp: demo_axis_def)

end
