(* ===== verification/Events.thy ===== *)
theory Events
  imports Driver
begin

text \<open>
  \<open>ADnED::eventHandler\<close> (\<open>ADnED.cpp\<close>, lines 981 to 1311). The handler runs under the port lock but
  for the loading of the parameters; here it is one sequential step. Its blocks are the
  definitions below, in the order of the code:
  \<^item> \<open>eh_clock\<close>: read the clock and decide whether this call posts the parameters;
  \<^item> \<open>load_dets\<close>: copy the detector parameters into the members;
  \<^item> \<open>eh_stamp\<close>: time stamp and sequence number checks;
  \<^item> \<open>integrate_event\<close>: one event against one detector;
  \<^item> \<open>eh_post\<close>: post the counters and rates.
  A \<open>pvdata\<close> is what the pvData accessors deliver for the structure of one update.
\<close>

section \<open>Input\<close>

datatype 't ts_field = Ts_Exception | Ts_NoAttach | Ts_Value 't

record 't pvdata =
  pv_timestamp :: "'t ts_field"
  pv_pcharge :: "f64 option"
  pv_pixels :: "u32 list option"
  pv_tof :: "u32 list option"

section \<open>Clock\<close>

definition eh_clock :: "'p asyn \<Rightarrow> u32 \<Rightarrow> u32 \<Rightarrow> ('p, 't) adned \<Rightarrow> bool \<times> f64 \<times> ('p, 't) adned" where
  "eh_clock A secPastEpoch nsec s =
     (let updatePeriod = getDoubleParam A (plib s) 0 ADnEDEventUpdatePeriod;
          now = fadd (f_of_u32 secPastEpoch) (fdiv (f_of_u32 nsec) (Fin 1000000000));
          s1 = s\<lparr>m_nowTimeSecs := now\<rparr>;
          elapsed = fsub now (m_lastTimeSecs s)
      in if flt elapsed (fdiv updatePeriod (Fin 1000)) then (False, Fin 0, s1)
         else (True, elapsed, s1\<lparr>m_lastTimeSecs := now\<rparr>))"

section \<open>Detector parameters\<close>

definition load_det :: "'p asyn \<Rightarrow> 'p \<Rightarrow> nat \<Rightarrow> detValues" where
  "load_det A p det = \<lparr>
     m_detStartValues = getIntegerParam A p det ADnEDDetPixelNumStart,
     m_detEndValues = getIntegerParam A p det ADnEDDetPixelNumEnd,
     m_detSizeValues = getIntegerParam A p det ADnEDDetPixelNumSize,
     m_NDArrayStartValues = getIntegerParam A p det ADnEDDetNDArrayStart,
     m_NDArrayTOFStartValues = getIntegerParam A p det ADnEDDetNDArrayTOFStart,
     m_detTOFROIStartValues = getIntegerParam A p det ADnEDDetTOFROIStart,
     m_detTOFROISizeValues = getIntegerParam A p det ADnEDDetTOFROISize,
     m_detTOFROIEnabled = getIntegerParam A p det ADnEDDetTOFROIEnable,
     m_detPixelMappingEnabled = getIntegerParam A p det ADnEDDetPixelMapEnable,
     m_detTOFTransType = getIntegerParam A p det ADnEDDetTOFTransType,
     m_detTOFTransScale = getDoubleParam A p det ADnEDDetTOFTransScale,
     m_detTOFTransOffset = getDoubleParam A p det ADnEDDetTOFTransOffset,
     m_detPixelROIStartX = getIntegerParam A p det ADnEDDetPixelROIStartX,
     m_detPixelROIStartY = getIntegerParam A p det ADnEDDetPixelROIStartY,
     m_detPixelROISizeX = getIntegerParam A p det ADnEDDetPixelROISizeX,
     m_detPixelROISizeY = getIntegerParam A p det ADnEDDetPixelROISizeY,
     m_detPixelSizeX = getIntegerParam A p det ADnEDDetPixelSizeX,
     m_detPixelROIEnable = getIntegerParam A p det ADnEDDetPixelROIEnable\<rparr>"

text \<open>\<open>False\<close>: the handler returns because of an invalid \<open>PixelROISizeX\<close>.\<close>

fun load_dets :: "'p asyn \<Rightarrow> nat list \<Rightarrow> ('p, 't) adned \<Rightarrow> bool \<times> ('p, 't) adned" where
  "load_dets A [] s = (True, s)"
| "load_dets A (det # dets) s =
     (let v = load_det A (plib s) det; s1 = s\<lparr>m_det := (m_det s)(det := v)\<rparr>
      in if sint (m_detPixelROISizeX v) \<le> 0 then (False, s1) else load_dets A dets s1)"

section \<open>Time stamp and sequence number\<close>

definition eh_sequence :: "'p asyn \<Rightarrow> nat \<Rightarrow> ('p, 't) adned \<Rightarrow> ('p, 't) adned" where
  "eh_sequence A chan s =
     (let last = m_lastSeqID s chan; seq = m_seqID s chan;
          p = (if sint last \<noteq> -1 \<and> seq \<noteq> last + 1
               then let p1 = setI A chan ADnEDSeqIDMissing (last + 1) (plib s);
                        numMissing = getIntegerParam A p1 chan ADnEDSeqIDNumMissing
                    in setI A chan ADnEDSeqIDNumMissing (numMissing + (seq - last + 1)) p1
               else plib s)
      in s\<lparr>plib := p, m_lastSeqID := (m_lastSeqID s)(chan := seq)\<rparr>)"

text \<open>The result: go on?, new pulse?, state.\<close>

definition eh_stamp :: "'p asyn \<Rightarrow> 't pvtime \<Rightarrow> nat \<Rightarrow> 't ts_field \<Rightarrow> ('p, 't) adned
    \<Rightarrow> bool \<times> bool \<times> ('p, 't) adned" where
  "eh_stamp A T chan tsf s0 =
     (let s = s0\<lparr>m_seqCounter := (m_seqCounter s0)(chan := m_seqCounter s0 chan + 1)\<rparr>
      in case tsf of
           Ts_Exception \<Rightarrow> (False, False, s)
         | Ts_NoAttach \<Rightarrow> (False, False, s)
         | Ts_Value ts \<Rightarrow>
             let s1 = s\<lparr>m_TimeStamp := (m_TimeStamp s)(chan := ts)\<rparr>;
                 newPulse = (chan = 0 \<and> ts_ne T (m_TimeStampLast s1 0) ts)
             in if ts_gt T (m_TimeStampLast s1 chan) ts
                then (False, newPulse, s1\<lparr>plib := setI A chan ADnEDBadTimeStamp 1 (plib s1)\<rparr>)
                else
                  let s2 = s1\<lparr>m_TimeStampLast := (m_TimeStampLast s1)
                             (chan := ts_put T (ts_secs T ts) (ts_nsecs T ts) (m_TimeStampLast s1 chan)),
                           m_seqID := (m_seqID s1)(chan := ts_tag T ts)\<rparr>
                  in (True, newPulse, eh_sequence A chan s2))"

section \<open>One event against one detector\<close>

definition in_det :: "detValues \<Rightarrow> u32 \<Rightarrow> bool" where
  "in_det v pixel \<longleftrightarrow> m_detStartValues v \<le> pixel \<and> pixel \<le> m_detEndValues v"

text \<open>The time of flight, transformed if the detector asks for it.\<close>

definition event_tof :: "machine \<Rightarrow> ('p, 't) adned \<Rightarrow> nat \<Rightarrow> detValues \<Rightarrow> i32 \<Rightarrow> u32 \<Rightarrow> f64 res" where
  "event_tof M s det v mappedPixelIndex tofData =
     (if m_detTOFTransType v \<noteq> 0
      then case p_Transform s det of
             None \<Rightarrow> Inl Uninit_Deref
           | Some t \<Rightarrow>
               res_bind (calculate (libm_pow M) t (m_detTOFTransType v) mappedPixelIndex tofData) (\<lambda>tof.
                 if fle (Fin 0) (m_detTOFTransScale v)
                 then Inr (fadd (fmul tof (m_detTOFTransScale v)) (m_detTOFTransOffset v))
                 else Inr tof)
      else Inr (f_of_u32 tofData))"

definition map_pixel :: "('p, 't) adned \<Rightarrow> nat \<Rightarrow> detValues \<Rightarrow> u32 \<Rightarrow> i32 \<Rightarrow> i32 res" where
  "map_pixel s det v pixel mappedPixelIndex =
     (if m_detPixelMappingEnabled v \<noteq> 0 \<and> 0 < m_PixelMapSize s det
      then case p_PixelMap s det of
             None \<Rightarrow> Inr mappedPixelIndex
           | Some m \<Rightarrow> mem_read (uint (pixel - m_detStartValues v)) m
      else Inr mappedPixelIndex)"

definition clamp_bins :: "u32 \<Rightarrow> i32 \<Rightarrow> i32" where
  "clamp_bins tofMax tofBins =
     (if sint tofBins < 1 then 1 else if tofMax < tofBins then tofMax else tofBins)"

text \<open>\<open>int(floor(tof / (m_tofMax / tofBins)))\<close>: the inner division is between integers.\<close>

definition tof_bin :: "machine \<Rightarrow> u32 \<Rightarrow> i32 \<Rightarrow> f64 \<Rightarrow> i32 res" where
  "tof_bin M tofMax tofBins tof =
     res_bind (c_udiv tofMax tofBins) (\<lambda>w.
       Inr (f_to_i32 (cast_i32 M) (ffloor (fdiv tof (f_of_u32 w)))))"

text \<open>The index into a 2-D plot against time of flight. A plot type outside the four known ones
  leaves \<open>tofIndex\<close> as the previous event left it.\<close>

definition plot_index :: "machine \<Rightarrow> u32 \<Rightarrow> detValues \<Rightarrow> i32 \<Rightarrow> i32 \<Rightarrow> i32 \<Rightarrow> f64 \<Rightarrow> i32 \<Rightarrow> i32 res" where
  "plot_index M tofMax v plotType tofBins mapped tof tofIndex =
     (if plotType = PLOT_XTOF
      then res_bind (c_mod mapped (m_detPixelSizeX v)) (\<lambda>x_pos.
             res_bind (tof_bin M tofMax tofBins tof) (\<lambda>b. Inr (x_pos * tofBins + b)))
      else if plotType = PLOT_YTOF
      then res_bind (c_div mapped (m_detPixelSizeX v)) (\<lambda>y_pos.
             res_bind (tof_bin M tofMax tofBins tof) (\<lambda>b. Inr (y_pos * tofBins + b)))
      else if plotType = PLOT_PIXELIDTOF
      then res_bind (tof_bin M tofMax tofBins tof) (\<lambda>b. Inr (mapped * tofBins + b))
      else Inr tofIndex)"

definition tof_in_range :: "u32 \<Rightarrow> f64 \<Rightarrow> bool" where
  "tof_in_range tofMax tof \<longleftrightarrow> fle tof (f_of_u32 tofMax) \<and> fle (Fin 0) tof"

text \<open>The 2-D histogram: the new buffer and the new \<open>tofIndex\<close>.\<close>

definition update_pixels ::
    "machine \<Rightarrow> u32 \<Rightarrow> detValues \<Rightarrow> i32 \<Rightarrow> i32 \<Rightarrow> i32 \<Rightarrow> f64 \<Rightarrow> u32 list \<times> i32 \<Rightarrow> (u32 list \<times> i32) res" where
  "update_pixels M tofMax v plotType tofBins mapped tof = (\<lambda>(xs, tofIndex).
     if m_detTOFROIEnabled v \<noteq> 0
     then if fle (f_of_i32 (m_detTOFROIStartValues v)) tof
             \<and> flt tof (f_of_i32 (m_detTOFROIStartValues v + m_detTOFROISizeValues v))
          then res_bind (bump (sint (m_NDArrayStartValues v + mapped)) xs) (\<lambda>ys. Inr (ys, tofIndex))
          else Inr (xs, tofIndex)
     else if plotType = PLOT_XY
     then res_bind (bump (sint (m_NDArrayStartValues v + mapped)) xs) (\<lambda>ys. Inr (ys, tofIndex))
     else if tof_in_range tofMax tof
     then res_bind (plot_index M tofMax v plotType tofBins mapped tof tofIndex) (\<lambda>ti.
            if sint ti < sint (m_detSizeValues v - 1)
            then res_bind (bump (sint (m_NDArrayStartValues v + ti)) xs) (\<lambda>ys. Inr (ys, ti))
            else Inr (xs, ti))
     else Inr (xs, tofIndex))"

text \<open>Is the mapped pixel inside the X/Y region of interest? (Called with \<open>m_detPixelSizeX > 0\<close>.)\<close>

definition in_pixel_roi :: "detValues \<Rightarrow> i32 \<Rightarrow> bool res" where
  "in_pixel_roi v mapped =
     res_bind (c_mod mapped (m_detPixelSizeX v)) (\<lambda>x.
       Inr (sint (m_detPixelROIStartX v) \<le> sint x
            \<and> sint x < sint (m_detPixelROIStartX v + m_detPixelROISizeX v)
            \<and> sint (m_detPixelROIStartY v * m_detPixelSizeX v) \<le> sint mapped
            \<and> sint mapped < sint ((m_detPixelROIStartY v + m_detPixelROISizeY v) * m_detPixelSizeX v)))"

text \<open>The time-of-flight histogram.\<close>

definition update_tof :: "u32 \<Rightarrow> detValues \<Rightarrow> i32 \<Rightarrow> f64 \<Rightarrow> u32 \<Rightarrow> u32 list \<Rightarrow> u32 list res" where
  "update_tof tofMax v mapped tof tofInt xs =
     (if tof_in_range tofMax tof
      then if m_detPixelROIEnable v \<noteq> 0
           then if m_detPixelMappingEnabled v = 0
                then bump (uint (m_NDArrayTOFStartValues v + tofInt)) xs
                else if 0 < sint (m_detPixelSizeX v)
                     then res_bind (in_pixel_roi v mapped) (\<lambda>inside.
                            if inside then bump (uint (m_NDArrayTOFStartValues v + tofInt)) xs
                            else Inr xs)
                     else Inr xs
           else bump (uint (m_NDArrayTOFStartValues v + tofInt)) xs
      else Inr xs)"

text \<open>The body of the loop over the detectors, for one event \<open>(pixel, tofData)\<close>. The pair carries
  \<open>tofIndex\<close>, which outlives the iteration.\<close>

definition integrate_event :: "machine \<Rightarrow> 'p asyn \<Rightarrow> u32 \<Rightarrow> u32 \<Rightarrow> nat
    \<Rightarrow> ('p, 't) adned \<times> i32 \<Rightarrow> (('p, 't) adned \<times> i32) res" where
  "integrate_event M A pixel tofData det = (\<lambda>(s, tofIndex).
     let v = m_det s det in
     if in_det v pixel then
       let mapped0 = pixel - m_detStartValues v in
       res_bind (event_tof M s det v mapped0 tofData) (\<lambda>tof.
       res_bind (map_pixel s det v pixel mapped0) (\<lambda>mapped.
       let tofInt = f_to_u32 (cast_u32 M) (ffloor tof);
           plotType = getIntegerParam A (plib s) det ADnEDDet2DType;
           tofBins = clamp_bins (m_tofMax s) (getIntegerParam A (plib s) det ADnEDDetTOFNumBins)
       in case p_Data s of
            None \<Rightarrow> Inl Null_Deref
          | Some xs \<Rightarrow>
              res_bind (update_pixels M (m_tofMax s) v plotType tofBins mapped tof (xs, tofIndex)) (\<lambda>(ys, ti).
              res_bind (update_tof (m_tofMax s) v mapped tof tofInt ys) (\<lambda>zs.
              Inr (s\<lparr>p_Data := Some zs,
                     m_detEventsSinceLastUpdate := (m_detEventsSinceLastUpdate s)
                       (det := m_detEventsSinceLastUpdate s det + 1),
                     m_detTotalEvents := (m_detTotalEvents s)
                       (det := fadd (m_detTotalEvents s det) (Fin 1))\<rparr>, ti)))))
     else Inr (s, tofIndex))"

definition integrate_all :: "machine \<Rightarrow> 'p asyn \<Rightarrow> nat list \<Rightarrow> (u32 \<times> u32) list
    \<Rightarrow> ('p, 't) adned \<Rightarrow> ('p, 't) adned res" where
  "integrate_all M A dets events s =
     res_bind (foldR (\<lambda>(pixel, tofData). foldR (integrate_event M A pixel tofData) dets) events (s, 0))
       (\<lambda>(s', _). Inr s')"

section \<open>Posting\<close>

definition event_rate :: "machine \<Rightarrow> u32 \<Rightarrow> f64 \<Rightarrow> u32" where
  "event_rate M events timeDiffSecs =
     f_to_u32 (cast_u32 M) (ffloor (fdiv (f_of_u32 events) timeDiffSecs))"

definition post_channel :: "'p asyn \<Rightarrow> nat \<Rightarrow> ('p, 't) adned \<Rightarrow> ('p, 't) adned" where
  "post_channel A chan s = s\<lparr>plib := setI A chan ADnEDSeqID (m_seqID s chan)
     (setI A chan ADnEDSeqCounter (m_seqCounter s chan) (plib s))\<rparr>"

definition post_det :: "machine \<Rightarrow> 'p asyn \<Rightarrow> f64 \<Rightarrow> nat \<Rightarrow> ('p, 't) adned \<Rightarrow> ('p, 't) adned" where
  "post_det M A timeDiffSecs det s =
     s\<lparr>plib := setD A det ADnEDDetEventTotal (m_detTotalEvents s det)
         (setI A det ADnEDDetEventRate (event_rate M (m_detEventsSinceLastUpdate s det) timeDiffSecs) (plib s)),
       m_detEventsSinceLastUpdate := (m_detEventsSinceLastUpdate s)(det := 0)\<rparr>"

definition eh_post :: "machine \<Rightarrow> 'p asyn \<Rightarrow> i32 \<Rightarrow> i32 \<Rightarrow> f64 \<Rightarrow> f64 \<Rightarrow> ('p, 't) adned \<Rightarrow> ('p, 't) adned" where
  "eh_post M A numChan numDet timeDiffSecs pCharge s =
     (let s1 = fold (post_channel A) [0..<nat (sint numChan)] s;
          p2 = setI A 0 ADnEDPulseCounter (m_pulseCounter s1) (plib s1);
          p3 = setI A 0 ADnEDEventRate (event_rate M (m_eventsSinceLastUpdate s1) timeDiffSecs) p2;
          s3 = s1\<lparr>plib := p3, m_eventsSinceLastUpdate := 0\<rparr>;
          s4 = fold (post_det M A timeDiffSecs) (det_range numDet) s3;
          p5 = setD A 0 ADnEDPCharge pCharge (plib s4);
          p6 = setD A 0 ADnEDPChargeInt (m_pChargeInt s4) p5;
          p7 = fold (calls A) [0..<nat (max (sint numChan) (sint numDet) + 1)] p6
      in s4\<lparr>plib := calls A 0 p7\<rparr>)"

section \<open>The handler\<close>

definition clamp_max :: "nat \<Rightarrow> i32 \<Rightarrow> i32" where
  "clamp_max m n = (if int m < sint n then of_nat m else n)"

definition eh_events :: "machine \<Rightarrow> 'p asyn \<Rightarrow> i32 \<Rightarrow> bool \<Rightarrow> bool \<Rightarrow> f64 \<Rightarrow> (u32 \<times> u32) list
    \<Rightarrow> ('p, 't) adned \<Rightarrow> ('p, 't) adned res" where
  "eh_events M A numDet paused newPulse pCharge events s =
     (if paused then Inr s
      else res_bind (integrate_all M A (det_range numDet) events s) (\<lambda>s1.
             Inr (if newPulse
                  then s1\<lparr>m_pChargeInt := fadd (m_pChargeInt s1) pCharge,
                          m_pulseCounter := m_pulseCounter s1 + 1\<rparr>
                  else s1)))"

text \<open>From the proton charge on, once the time stamp is accepted.\<close>

definition eh_packet :: "machine \<Rightarrow> 'p asyn \<Rightarrow> i32 \<Rightarrow> i32 \<Rightarrow> bool \<Rightarrow> bool \<Rightarrow> f64 \<Rightarrow> bool \<Rightarrow> 't pvdata
    \<Rightarrow> ('p, 't) adned \<Rightarrow> ('p, 't) adned res" where
  "eh_packet M A numChan numDet paused eventUpdate timeDiffSecs newPulse pv s =
     (case pv_pcharge pv of
        None \<Rightarrow> Inr s
      | Some pCharge \<Rightarrow>
          if p_Data s = None \<or> m_dataMaxSize s = 0 then Inr s
          else case (pv_pixels pv, pv_tof pv) of
            (Some pixels, Some tofs) \<Rightarrow>
              let pixelsLength = (of_nat (length pixels) :: u32);
                  tofLength = (of_nat (length tofs) :: u32)
              in if pixelsLength \<noteq> tofLength then Inr s
                 else
                   let s4 = s\<lparr>m_eventsSinceLastUpdate := m_eventsSinceLastUpdate s + pixelsLength\<rparr>
                   in res_bind (eh_events M A numDet paused newPulse pCharge
                          (take (unat pixelsLength) (zip pixels tofs)) s4) (\<lambda>s5.
                      Inr (if eventUpdate
                           then eh_post M A numChan numDet timeDiffSecs pCharge s5 else s5))
          | _ \<Rightarrow> Inr s)"

definition eventHandler :: "machine \<Rightarrow> 'p asyn \<Rightarrow> 't pvtime \<Rightarrow> u32 \<Rightarrow> u32 \<Rightarrow> 't pvdata \<Rightarrow> u32
    \<Rightarrow> ('p, 't) adned \<Rightarrow> ('p, 't) adned res" where
  "eventHandler M A T secPastEpoch nsec pv channelID s0 =
     (let paused = (getIntegerParam A (plib s0) 0 ADnEDPause \<noteq> 0);
          (eventUpdate, timeDiffSecs, s1) = eh_clock A secPastEpoch nsec s0
      in if unat channelID \<ge> ADNED_MAX_CHANNELS then Inr s1
         else
           let chan = unat channelID;
               numChan = clamp_max ADNED_MAX_CHANNELS (getIntegerParam A (plib s1) 0 ADnEDNumChannels);
               numDet = clamp_max ADNED_MAX_DETS (getIntegerParam A (plib s1) 0 ADnEDNumDet);
               (loaded, s2) = load_dets A (det_range numDet) s1
           in if \<not> loaded then Inr s2
              else
                let (stamped, newPulse, s3) = eh_stamp A T chan (pv_timestamp pv) s2
                in if \<not> stamped then Inr s3
                   else eh_packet M A numChan numDet paused eventUpdate timeDiffSecs newPulse pv s3)"

end
