(* ===== verification/Integration.thy ===== *)
theory Integration
  imports Events Layout
begin

text \<open>
  The integration loop of \<open>eventHandler\<close> does not leave its memory: \<open>det_safe\<close> is a condition on the
  loaded parameters of a detector, its pixel map and its transform; under it every event is
  integrated without a fault, whatever the event's pixel ID and time of flight.
\<close>

section \<open>Configurations under which integration stays inside its memory\<close>

definition map_ok :: "('p, 't) adned \<Rightarrow> nat \<Rightarrow> bool" where
  "map_ok s det \<longleftrightarrow> (let v = m_det s det in
     m_detPixelMappingEnabled v \<noteq> 0 \<and> 0 < m_PixelMapSize s det \<longrightarrow>
       (case p_PixelMap s det of None \<Rightarrow> True
        | Some m \<Rightarrow> (m_detStartValues v \<le> m_detEndValues v \<longrightarrow>
                     uint (m_detEndValues v) - uint (m_detStartValues v) < int (length m))
                  \<and> (\<forall>x\<in>set m. x \<le> m_detSizeValues v)))"

definition trans_ok :: "('p, 't) adned \<Rightarrow> nat \<Rightarrow> bool" where
  "trans_ok s det \<longleftrightarrow> (let v = m_det s det in
     m_detTOFTransType v \<noteq> 0 \<longrightarrow>
       (case p_Transform s det of None \<Rightarrow> False
        | Some t \<Rightarrow> transform_inv t \<and>
            (m_detTOFTransType v = 3 \<longrightarrow> m_detStartValues v \<le> m_detEndValues v \<longrightarrow>
               m_detEndValues v - m_detStartValues v < m_ArraySize t 0 \<and>
               m_detEndValues v - m_detStartValues v < m_ArraySize t 1)))"

definition plot_ok :: "u32 \<Rightarrow> detValues \<Rightarrow> bool" where
  "plot_ok tofMax v \<longleftrightarrow> 0 < uint tofMax \<and> 0 < sint (m_detPixelSizeX v)
     \<and> (uint (m_detSizeValues v) + 1) * (uint tofMax + 1) < 2 ^ 31"

definition det_safe :: "'p asyn \<Rightarrow> ('p, 't) adned \<Rightarrow> nat \<Rightarrow> nat \<Rightarrow> bool" where
  "det_safe A s n det \<longleftrightarrow> (let v = m_det s det in
     int n \<le> 2 ^ 31
     \<and> uint (m_NDArrayStartValues v) + uint (m_detSizeValues v) < int n
     \<and> uint (m_NDArrayTOFStartValues v) + uint (m_tofMax s) < int n
     \<and> (m_detStartValues v \<le> m_detEndValues v \<longrightarrow>
          m_detEndValues v - m_detStartValues v \<le> m_detSizeValues v)
     \<and> map_ok s det \<and> trans_ok s det
     \<and> (getIntegerParam A (plib s) det ADnEDDet2DType \<noteq> PLOT_XY \<longrightarrow> plot_ok (m_tofMax s) v))"

lemma in_det_offset:
  assumes "in_det v px"
  shows "px - m_detStartValues v \<le> m_detEndValues v - m_detStartValues v"
    "uint (px - m_detStartValues v) = uint px - uint (m_detStartValues v)"
    "m_detStartValues v \<le> m_detEndValues v"
  using assms by (auto simp: in_det_def word_le_def uint32_diff)

lemma map_pixel_ok:
  assumes "det_safe A s n det" "in_det (m_det s det) px"
  shows "\<exists>m. map_pixel s det (m_det s det) px (px - m_detStartValues (m_det s det)) = Inr m
      \<and> m \<le> m_detSizeValues (m_det s det)"
proof -
  note off = in_det_offset [OF assms(2)]
  have "px - m_detStartValues (m_det s det) \<le> m_detSizeValues (m_det s det)"
    using assms(1) off order_trans [OF off(1)] by (simp add: det_safe_def Let_def)
  moreover have "unat (px - m_detStartValues (m_det s det)) < length m"
    if "uint (m_detEndValues (m_det s det)) - uint (m_detStartValues (m_det s det)) < int (length m)" for m :: "u32 list"
    using that off assms(2) by (simp add: unat_eq_nat_uint in_det_def word_le_def nat_less_iff)
  ultimately show ?thesis
    using assms(1) off(3)
    by (auto simp: map_pixel_def det_safe_def map_ok_def mem_read_u32 Let_def split: option.split)
qed

lemma event_transform:
  assumes "det_safe A s n det" "in_det (m_det s det) px" and v: "v = m_det s det" and ty: "m_detTOFTransType v \<noteq> 0"
  shows "\<exists>tr. p_Transform s det = Some tr
    \<and> calculate pow tr (m_detTOFTransType v) (px - m_detStartValues v) t
      = Inr (trans_value pow (store_of tr) (m_detTOFTransType v) (unat px - unat (m_detStartValues v)) t)"
proof -
  note off = in_det_offset [OF assms(2), folded v]
  have k: "unat (px - m_detStartValues v) = unat px - unat (m_detStartValues v)"
    using assms(2) by (simp add: v in_det_def unat_sub word_le_nat_alt)
  have ok: "trans_ok s det" using assms(1) by (simp add: det_safe_def Let_def)
  with ty obtain tr where tr: "p_Transform s det = Some tr" "transform_inv tr"
      "m_detTOFTransType v = 3 \<Longrightarrow> px - m_detStartValues v < m_ArraySize tr 0 \<and> px - m_detStartValues v < m_ArraySize tr 1"
    using off le_less_trans [OF off(1)] by (auto simp: trans_ok_def v Let_def split: option.splits)
  have "calculate pow tr (m_detTOFTransType v) (px - m_detStartValues v) t
      = Inr (trans_value pow (store_of tr) (m_detTOFTransType v) (unat (px - m_detStartValues v)) t)"
    using tr(2,3) by (intro calculate_eq) (auto simp: transform_inv_def word_less_nat_alt)
  with tr(1) show ?thesis by (simp only: k) simp
qed

lemma event_tof_ok:
  assumes "det_safe A s n det" "in_det (m_det s det) px"
  shows "\<exists>tof. event_tof M s det (m_det s det) (px - m_detStartValues (m_det s det)) t = Inr tof"
proof (cases "m_detTOFTransType (m_det s det) = 0")
  case False
  from event_transform [OF assms refl this, of "libm_pow M" t] show ?thesis using False by (auto simp: event_tof_def)
qed (simp add: event_tof_def)

lemma tof_in_rangeE:
  assumes "tof_in_range tofMax tof"
  obtains r where "tof = Fin r" "0 \<le> r" "r \<le> of_int (uint tofMax)"
  using assms by (cases tof) (auto simp: tof_in_range_def f_of_u32_def)

lemma clamp_bins_bounds:
  "0 < uint tofMax \<Longrightarrow> 1 \<le> uint (clamp_bins tofMax b) \<and> clamp_bins tofMax b \<le> tofMax"
  using sint32_pos_uint [of b] by (auto simp: clamp_bins_def word_le_def word_less_def not_less)

text \<open>The bin is the whole part of the double quotient of the time by the width of a bin.\<close>

lemma tof_bin_floor:
  assumes "0 < uint tofMax" "uint tofMax < 2 ^ 31" "0 \<le> r" "r \<le> of_int (uint tofMax)"
    and w: "w = uint tofMax div uint (clamp_bins tofMax n)"
  shows "\<exists>q. rnd (r / of_int w) = Fin q \<and> 0 \<le> \<lfloor>q\<rfloor> \<and> \<lfloor>q\<rfloor> \<le> uint tofMax \<and> 1 \<le> w
    \<and> tof_bin M tofMax (clamp_bins tofMax n) (Fin r) = Inr (word_of_int \<lfloor>q\<rfloor>)"
proof -
  define bins where "bins = clamp_bins tofMax n"
  have b: "1 \<le> uint bins" "uint bins \<le> uint tofMax"
    using clamp_bins_bounds [OF assms(1), of n] by (simp_all add: bins_def word_le_def)
  have w1: "1 \<le> w" unfolding w bins_def [symmetric] using b zdiv_mono1 [of "uint bins" "uint tofMax" "uint bins"] by simp
  have fw: "f_of_u32 (tofMax div bins) = Fin (of_int w)"
    by (simp only: f_of_u32_def w bins_def [symmetric] uint_div_distrib)
  have nz: "bins \<noteq> 0" using b by auto
  have "r / of_int w \<le> r / 1" using assms w1 by (intro divide_left_mono) auto
  then obtain x where x: "rnd (r / of_int w) = Fin x" "0 \<le> x" "x \<le> of_int (uint tofMax)"
    using rnd_le_int [of "r / of_int w" "uint tofMax"] assms w1 by auto
  have fl: "0 \<le> \<lfloor>x\<rfloor>" "\<lfloor>x\<rfloor> \<le> uint tofMax" using x by (simp_all add: floor_le_iff)
  have f31: "\<lfloor>x\<rfloor> < 2 ^ 31" using fl(2) assms(2) by (rule le_less_trans)
  have "tof_bin M tofMax bins (Fin r) = Inr (word_of_int \<lfloor>x\<rfloor>)"
    using fl f31 w1 nz x(1) fw by (simp add: tof_bin_def c_udiv_def rtrunc_def)
  with x(1) fl w1 show ?thesis by (simp add: bins_def)
qed

lemma tof_bin_ok:
  assumes "0 < uint tofMax" "uint tofMax < 2 ^ 31" "0 \<le> r" "r \<le> of_int (uint tofMax)"
  shows "\<exists>b. tof_bin M tofMax (clamp_bins tofMax n) (Fin r) = Inr b \<and> b \<le> tofMax \<and> 0 \<le> sint b"
proof -
  obtain q :: rat where q: "0 \<le> \<lfloor>q\<rfloor>" "\<lfloor>q\<rfloor> \<le> uint tofMax" "tof_bin M tofMax (clamp_bins tofMax n) (Fin r) = Inr (word_of_int \<lfloor>q\<rfloor>)"
    using tof_bin_floor [OF assms refl, of n M] by blast
  have "\<lfloor>q\<rfloor> < 2 ^ 31" using q(2) assms(2) by (rule le_less_trans)
  then have "uint (word_of_int \<lfloor>q\<rfloor> :: 32 word) = \<lfloor>q\<rfloor>" "sint (word_of_int \<lfloor>q\<rfloor> :: 32 word) = \<lfloor>q\<rfloor>"
    using uint32_of_int [OF q(1)] sint32_of_int [OF q(1)] by simp_all
  then show ?thesis using q by (auto simp: word_le_def)
qed

lemma tof_bin_raw:
  assumes "0 < uint tofMax" "uint tofMax < 2 ^ 31" "t \<le> tofMax"
  shows "tof_bin M tofMax (clamp_bins tofMax n) (f_of_u32 t) =
     Inr (of_nat (unat t div (unat tofMax div unat (clamp_bins tofMax n))))"
proof -
  define w where "w = uint tofMax div uint (clamp_bins tofMax n)"
  have "(0 :: rat) \<le> of_int (uint t)" "of_int (uint t) \<le> (of_int (uint tofMax) :: rat)"
    using assms(3) by (simp_all add: word_le_def del: of_int_uint)
  from tof_bin_floor [OF assms(1,2) this w_def, of M]
  obtain q where q: "rnd (of_int (uint t) / of_int w) = Fin q" "1 \<le> w"
      "tof_bin M tofMax (clamp_bins tofMax n) (Fin (of_int (uint t))) = Inr (word_of_int \<lfloor>q\<rfloor>)" by blast
  have "w \<le> uint tofMax" unfolding w_def using clamp_bins_bounds [OF assms(1), of n] by (intro zdiv_le_dividend) auto
  then have "\<lfloor>q\<rfloor> = uint t div w"
    using rnd_quotient_floor [of "uint t" w] uint32_lt [of t] q(1,2) assms(2) by auto
  also have "\<dots> = int (unat t div (unat tofMax div unat (clamp_bins tofMax n)))"
    by (simp add: w_def zdiv_int)
  finally show ?thesis using q(3) by (simp add: f_of_u32_def del: of_int_uint)
qed

text \<open>An index that the plots against time of flight compute.\<close>

lemma row_index:
  assumes "uint (a :: u32) \<le> uint sz" "uint (b :: u32) \<le> uint tofMax" "uint (bins :: u32) \<le> uint tofMax"
    "(uint (sz :: u32) + 1) * (uint (tofMax :: u32) + 1) < 2 ^ 31"
  shows "uint (a * bins + b) = uint a * uint bins + uint b" "0 \<le> sint (a * bins + b)"
proof -
  have "uint a * uint bins \<le> uint sz * uint tofMax" using assms by (intro mult_mono) simp_all
  then have le: "uint a * uint bins + uint b < 2 ^ 31" using assms by (simp add: algebra_simps)
      (use assms uint_ge_0 [of sz] in linarith)
  have m: "uint (a * bins) = uint a * uint bins"
    using le uint_ge_0 [of b] power_strict_increasing [of 31 32 "2 :: int"]
    by (intro uint32_mult) linarith
  show eq: "uint (a * bins + b) = uint a * uint bins + uint b"
    using le by (subst uint32_add) (simp_all add: m)
  show "0 \<le> sint (a * bins + b)" using le by (simp add: sint32_nonneg eq)
qed

lemma plot_index_ok:
  assumes plot: "plot_ok tofMax v" and m: "m \<le> m_detSizeValues v" and ti: "0 \<le> sint ti"
    and r: "0 \<le> r" "r \<le> of_int (uint tofMax)"
  shows "\<exists>i. plot_index M tofMax v ty (clamp_bins tofMax n) m (Fin r) ti = Inr i \<and> 0 \<le> sint i"
proof -
  define bins where "bins = clamp_bins tofMax n"
  define sz where "sz = m_detSizeValues v"
  note defs = bins_def [symmetric] sz_def [symmetric]
  have p: "0 < uint tofMax" "0 < sint (m_detPixelSizeX v)" "(uint sz + 1) * (uint tofMax + 1) < 2 ^ 31"
    using plot by (simp_all add: plot_ok_def sz_def)
  have "1 * (uint tofMax + 1) \<le> (uint sz + 1) * (uint tofMax + 1)"
    by (intro mult_right_mono) simp_all
  from le_less_trans [OF this p(3)] have t31: "uint tofMax < 2 ^ 31" by simp
  have "(uint sz + 1) * 1 \<le> (uint sz + 1) * (uint tofMax + 1)"
    by (intro mult_left_mono) simp_all
  from le_less_trans [OF this p(3)] m have m31: "uint m < 2 ^ 31" "uint m \<le> uint sz"
    by (simp_all add: word_le_def sz_def)
  then have sm: "sint m = uint m" "0 \<le> sint m" by (simp_all add: sint32_if)
  obtain b where b: "tof_bin M tofMax bins (Fin r) = Inr b" "uint b \<le> uint tofMax"
    using tof_bin_ok [OF p(1) t31 r, of M n] by (auto simp: defs word_le_def)
  have bb: "uint bins \<le> uint tofMax"
    using clamp_bins_bounds [OF p(1), of n] by (simp add: bins_def word_le_def)
  define x where "x = (word_of_int (sint m mod sint (m_detPixelSizeX v)) :: 32 word)"
  define y where "y = (word_of_int (sint m div sint (m_detPixelSizeX v)) :: 32 word)"
  have xm: "sint m mod sint (m_detPixelSizeX v) \<le> uint m" "0 \<le> sint m mod sint (m_detPixelSizeX v)"
    using p(2) sm by (simp_all add: zmod_le_nonneg_dividend)
  have ym: "sint m div sint (m_detPixelSizeX v) \<le> uint m" "0 \<le> sint m div sint (m_detPixelSizeX v)"
    using p(2) sm by (simp_all add: zdiv_le_dividend pos_imp_zdiv_nonneg_iff)
  have "uint x \<le> uint sz" "uint y \<le> uint sz"
    using xm ym m31 by (simp_all add: x_def y_def uint32_of_int)
  then show ?thesis
    using row_index(2) [OF _ b(2) bb p(3)] m31(2) b(1) ti c_mod_nonneg [OF sm(2) p(2)] c_div_nonneg [OF sm(2) p(2)]
    by (simp add: plot_index_def defs x_def y_def)
qed

text \<open>The part of \<open>det_safe\<close> that the two histogram updates need.\<close>

definition seg_safe :: "u32 \<Rightarrow> detValues \<Rightarrow> nat \<Rightarrow> bool" where
  "seg_safe tofMax v n \<longleftrightarrow> int n \<le> 2 ^ 31
     \<and> uint (m_NDArrayStartValues v) + uint (m_detSizeValues v) < int n
     \<and> uint (m_NDArrayTOFStartValues v) + uint tofMax < int n"

lemma update_pixels_ok:
  assumes seg: "seg_safe tofMax v (length xs)" and m: "m \<le> m_detSizeValues v" and ti: "0 \<le> sint ti"
    and plot: "ty \<noteq> PLOT_XY \<Longrightarrow> plot_ok tofMax v"
  shows "\<exists>ys i. update_pixels M tofMax v ty (clamp_bins tofMax n) m tof (xs, ti) = Inr (ys, i)
    \<and> length ys = length xs \<and> 0 \<le> sint i"
proof -
  define sz nd where "sz = m_detSizeValues v" and "nd = m_NDArrayStartValues v"
  have L: "int (length xs) \<le> 2 ^ 31" "uint nd + uint sz < int (length xs)"
    using seg by (simp_all add: seg_safe_def sz_def nd_def)
  have cell: "\<exists>ys. bump (sint (nd + k)) xs = Inr ys \<and> length ys = length xs" if "uint k \<le> uint sz" for k
    using cell_bump(1) [of nd k xs] L that by (simp del: bumps_simps)
  have "uint sz < 2 ^ 31" using L uint_ge_0 [of nd] by linarith
  then have sz31: "unat sz < 2 ^ 31" by (simp add: unat_eq_nat_uint [of sz] nat_less_iff del: nat_uint_eq)
  have tofplot: "\<exists>ys i. res_bind (plot_index M tofMax v ty (clamp_bins tofMax n) m tof ti) (\<lambda>i.
        if sint i < sint (sz - 1) then res_bind (bump (sint (nd + i)) xs) (\<lambda>ys. Inr (ys, i)) else Inr (xs, i))
      = Inr (ys, i) \<and> length ys = length xs \<and> 0 \<le> sint i"
    if inr: "tof_in_range tofMax tof" and ty: "ty \<noteq> PLOT_XY"
  proof -
    obtain r where r: "tof = Fin r" "0 \<le> r" "r \<le> of_int (uint tofMax)" using inr by (rule tof_in_rangeE)
    obtain i where i: "plot_index M tofMax v ty (clamp_bins tofMax n) m tof ti = Inr i" "0 \<le> sint i"
      using plot_index_ok [OF plot [OF ty] m ti r(2,3)] r(1) by blast
    then show ?thesis
      using cell [of i] below_last_iff [OF i(2) sz31] by (fastforce simp: uint_le_unat)
  qed
  show ?thesis
    using cell [of m] tofplot ti m unfolding update_pixels_def sz_def nd_def
    by (auto simp: word_le_def)
qed

lemma floor_tof:
  assumes "tof_in_range tofMax tof"
  shows "f_to_u32 ud (ffloor tof) \<le> tofMax"
proof -
  obtain r where r: "tof = Fin r" "0 \<le> r" "r \<le> of_int (uint tofMax)" using assms by (rule tof_in_rangeE)
  then have f: "0 \<le> \<lfloor>r\<rfloor>" "\<lfloor>r\<rfloor> \<le> uint tofMax" by (simp_all add: floor_le_iff)
  from le_less_trans [OF f(2) uint32_lt] have f32: "\<lfloor>r\<rfloor> < 2 ^ 32" .
  then have "f_to_u32 ud (ffloor tof) = word_of_int \<lfloor>r\<rfloor>" using f r(1) by (simp add: rtrunc_def)
  then show ?thesis using f uint32_of_int [OF f(1) f32] by (simp add: word_le_def)
qed

lemma in_pixel_roi_total: "0 < sint (m_detPixelSizeX v) \<Longrightarrow> \<exists>b. in_pixel_roi v m = Inr b"
  by (auto simp: in_pixel_roi_def c_mod_def c_trap_def)

lemma update_tof_ok:
  assumes "seg_safe tofMax v (length xs)"
  shows "\<exists>ys. update_tof tofMax v m tof (f_to_u32 ud (ffloor tof)) xs = Inr ys \<and> length ys = length xs"
proof (cases "tof_in_range tofMax tof")
  case True
  define k where "k = f_to_u32 ud (ffloor tof)"
  have "k \<le> tofMax" using floor_tof [OF True] by (simp add: k_def)
  then have "\<exists>ys. bump (uint (m_NDArrayTOFStartValues v + k)) xs = Inr ys \<and> length ys = length xs"
    using cell_bump(2) [of "m_NDArrayTOFStartValues v" k xs] assms
    by (simp add: seg_safe_def word_le_def del: bumps_simps)
  then show ?thesis
    using in_pixel_roi_total [of v m] by (auto simp: update_tof_def k_def)
next
  case False
  then show ?thesis by (simp add: update_tof_def)
qed

text \<open>Integration changes the buffer and the counters of the detectors, nothing else.\<close>

definition same_config :: "('p, 't) adned \<Rightarrow> ('p, 't) adned \<Rightarrow> bool" where
  "same_config s s' \<longleftrightarrow> s' = s\<lparr>p_Data := p_Data s',
     m_detEventsSinceLastUpdate := m_detEventsSinceLastUpdate s', m_detTotalEvents := m_detTotalEvents s'\<rparr>"

lemma same_config_refl [simp]: "same_config s s"
  by (simp add: same_config_def)

lemma same_config_upd [simp]:
  "same_config s (s\<lparr>p_Data := a, m_detEventsSinceLastUpdate := b, m_detTotalEvents := c\<rparr>)"
  by (simp add: same_config_def)

lemma same_config_cases:
  assumes "same_config s s'"
  obtains a b c where "s' = s\<lparr>p_Data := a, m_detEventsSinceLastUpdate := b, m_detTotalEvents := c\<rparr>"
  using assms unfolding same_config_def by blast

lemma same_config_trans [trans]: "same_config s t \<Longrightarrow> same_config t u \<Longrightarrow> same_config s u"
  by (erule same_config_cases, erule same_config_cases) simp

lemma same_config_fields:
  assumes "same_config s s'"
  shows "plib s' = plib s" "m_det s' = m_det s" "m_tofMax s' = m_tofMax s" "p_PixelMap s' = p_PixelMap s"
    "m_PixelMapSize s' = m_PixelMapSize s" "p_Transform s' = p_Transform s" "m_dataMaxSize s' = m_dataMaxSize s"
    "m_bufferMaxSize s' = m_bufferMaxSize s" "m_dataAlloc s' = m_dataAlloc s" "m_pChargeInt s' = m_pChargeInt s"
    "m_pulseCounter s' = m_pulseCounter s"
  using assms by (auto elim: same_config_cases)

lemma det_safe_cong: "same_config s s' \<Longrightarrow> det_safe A s' n det = det_safe A s n det"
  by (simp add: same_config_fields det_safe_def map_ok_def trans_ok_def Let_def)

definition data_len :: "('p, 't) adned \<Rightarrow> nat \<Rightarrow> bool" where
  "data_len s n \<longleftrightarrow> (case p_Data s of None \<Rightarrow> False | Some xs \<Rightarrow> length xs = n)"

lemma integrate_event_ok:
  assumes safe: "det_safe A s n det" and len: "data_len s n" and ti: "0 \<le> sint ti"
  shows "\<exists>s' i. integrate_event M A px t det (s, ti) = Inr (s', i)
    \<and> same_config s s' \<and> data_len s' n \<and> 0 \<le> sint i"
proof (cases "in_det (m_det s det) px")
  case True
  define v where "v = m_det s det"
  obtain xs where xs: "p_Data s = Some xs" "length xs = n"
    using len by (auto simp: data_len_def split: option.splits)
  have seg: "seg_safe (m_tofMax s) v (length xs)"
    and plot: "getIntegerParam A (plib s) det ADnEDDet2DType \<noteq> PLOT_XY \<Longrightarrow> plot_ok (m_tofMax s) v"
    using safe by (simp_all add: det_safe_def seg_safe_def v_def Let_def xs)
  obtain tof where tof: "event_tof M s det v (px - m_detStartValues v) t = Inr tof"
    using event_tof_ok [OF safe True] by (auto simp: v_def)
  obtain m where m: "map_pixel s det v px (px - m_detStartValues v) = Inr m" "m \<le> m_detSizeValues v"
    using map_pixel_ok [OF safe True] by (auto simp: v_def)
  obtain ys i where ys: "update_pixels M (m_tofMax s) v (getIntegerParam A (plib s) det ADnEDDet2DType)
      (clamp_bins (m_tofMax s) (getIntegerParam A (plib s) det ADnEDDetTOFNumBins)) m tof (xs, ti) = Inr (ys, i)"
      "length ys = length xs" "0 \<le> sint i"
    using update_pixels_ok [OF seg m(2) ti plot] by blast
  obtain zs where "update_tof (m_tofMax s) v m tof (f_to_u32 (cast_u32 M) (ffloor tof)) ys = Inr zs"
      "length zs = length ys"
    using update_tof_ok seg ys(2) by metis
  then show ?thesis
    using True tof m ys xs
    by (simp add: integrate_event_def v_def Let_def data_len_def)
next
  case False
  then show ?thesis using len ti by (simp add: integrate_event_def Let_def)
qed

text \<open>Without any condition on the configuration: what a run that did not fault has left alone.\<close>

lemma integrate_event_frame:
  "integrate_event M A px t det (s, ti) = Inr (s', ti') \<Longrightarrow> same_config s s'"
  by (cases "in_det (m_det s det) px")
    (auto simp: integrate_event_def Let_def res_bind_Inr_iff split: option.splits prod.splits)

lemma integrate_all_frame:
  assumes "integrate_all M A dets events s = Inr s'"
  shows "same_config s s'"
proof -
  define I where "I = (\<lambda>x :: ('a, 'b) adned \<times> i32. same_config s (fst x))"
  obtain i where f: "foldR (\<lambda>(px, t). foldR (integrate_event M A px t) dets) events (s, 0) = Inr (s', i)"
    using assms by (auto simp: integrate_all_def)
  have step: "I x'" if "I x" "integrate_event M A px t det x = Inr x'" for px t det x x'
    using that integrate_event_frame [of M A px t det "fst x" "snd x" "fst x'" "snd x'"]
    by (auto simp: I_def intro: same_config_trans)
  have "I (s', i)"
  proof (rule foldR_inv [OF _ _ f])
    show "I (s, 0)" by (simp add: I_def)
    show "I x'" if "I x" "(\<lambda>(px, t). foldR (integrate_event M A px t) dets) e x = Inr x'" for e x x'
      using that by (cases e) (auto intro: foldR_inv [where I = I, OF step])
  qed
  then show ?thesis by (simp add: I_def)
qed

lemma integrate_all_ok:
  assumes safe: "\<And>det. det \<in> set dets \<Longrightarrow> det_safe A s n det" and len: "data_len s n"
  shows "\<exists>s'. integrate_all M A dets events s = Inr s' \<and> same_config s s' \<and> data_len s' n"
proof -
  define I where "I = (\<lambda>(s', i :: i32). same_config s s' \<and> data_len s' n \<and> 0 \<le> sint i)"
  have step: "\<exists>x'. integrate_event M A px t det x = Inr x' \<and> I x'"
    if "det \<in> set dets" "I x" for px t det x
  proof -
    obtain s1 i1 where x: "x = (s1, i1)" by (cases x)
    show ?thesis
      using integrate_event_ok [of A s1 n det i1 M px t] that safe [OF that(1)] det_safe_cong [of s s1 A n det]
      unfolding x by (fastforce simp: I_def intro: same_config_trans)
  qed
  have "\<exists>x. foldR (\<lambda>(px, t). foldR (integrate_event M A px t) dets) events (s, 0) = Inr x \<and> I x"
  proof (rule foldR_total)
    show "I (s, 0)" using len by (simp add: I_def)
    show "\<exists>x'. (\<lambda>(px, t). foldR (integrate_event M A px t) dets) e x = Inr x' \<and> I x'" if "I x" for e x
      using foldR_total [where I = I, OF step that] by (cases e) auto
  qed
  then show ?thesis by (auto simp: integrate_all_def I_def)
qed

end
