(* ===== verification/Histogram.thy ===== *)
theory Histogram
  imports Integration
begin

text \<open>
  What the integration loop computes: a specification (\<open>spec_cells\<close>, the cells an event counts in) with
  natural numbers for pixels and cells and the transformed time of flight as a double, and the proof that
  the machine arithmetic of the code computes it. For a time that is not transformed the specification
  is one of natural numbers throughout (\<open>raw_time\<close>).
\<close>

section \<open>Specification\<close>

text \<open>The offset of an event's pixel in its detector's segment.\<close>

definition spec_pixel :: "('p, 't) adned \<Rightarrow> nat \<Rightarrow> u32 \<Rightarrow> nat" where
  "spec_pixel s det px = (let v = m_det s det; k = unat px - unat (m_detStartValues v) in
     if m_detPixelMappingEnabled v \<noteq> 0 \<and> 0 < m_PixelMapSize s det
     then case p_PixelMap s det of None \<Rightarrow> k | Some m \<Rightarrow> unat (m ! k)
     else k)"

text \<open>The time of flight of an event: the raw one, or the value of the transformation, scaled and shifted
  unless the scale is negative or not a number.\<close>

definition spec_time :: "machine \<Rightarrow> ('p, 't) adned \<Rightarrow> nat \<Rightarrow> u32 \<Rightarrow> u32 \<Rightarrow> f64" where
  "spec_time M s det px t =
     (let v = m_det s det;
          a = (case p_Transform s det of None \<Rightarrow> empty_tstore | Some tr \<Rightarrow> store_of tr);
          x = trans_value (libm_pow M) a (m_detTOFTransType v) (unat px - unat (m_detStartValues v)) t
      in if m_detTOFTransType v = 0 then Fin (of_nat (unat t))
         else if fle (Fin 0) (m_detTOFTransScale v) then fadd (fmul x (m_detTOFTransScale v)) (m_detTOFTransOffset v)
         else x)"

text \<open>Whole units of a time, and whether it is one of the times that are recorded.\<close>

definition whole :: "f64 \<Rightarrow> nat" where
  "whole x = (case x of Fin r \<Rightarrow> nat \<lfloor>r\<rfloor> | _ \<Rightarrow> 0)"

definition recorded_time :: "nat \<Rightarrow> f64 \<Rightarrow> bool" where
  "recorded_time tofMax x \<longleftrightarrow> fle (Fin 0) x \<and> fle x (Fin (of_nat tofMax))"

definition spec_index :: "nat \<Rightarrow> nat \<Rightarrow> i32 \<Rightarrow> detValues \<Rightarrow> nat \<Rightarrow> f64 \<Rightarrow> nat" where
  "spec_index tofMax bins ty v m x =
     (let bin = whole (fdiv x (Fin (of_nat (tofMax div bins)))); w = unat (m_detPixelSizeX v) in
      if ty = PLOT_XTOF then m mod w * bins + bin
      else if ty = PLOT_YTOF then m div w * bins + bin
      else m * bins + bin)"

definition spec_pixel_cells :: "nat \<Rightarrow> nat \<Rightarrow> i32 \<Rightarrow> detValues \<Rightarrow> nat \<Rightarrow> f64 \<Rightarrow> nat list" where
  "spec_pixel_cells tofMax bins ty v m x =
     (let first = unat (m_NDArrayStartValues v) in
      if m_detTOFROIEnabled v \<noteq> 0
      then if fle (Fin (of_int (sint (m_detTOFROIStartValues v)))) x
              \<and> flt x (Fin (of_int (sint (m_detTOFROIStartValues v) + sint (m_detTOFROISizeValues v))))
           then [first + m] else []
      else if ty = PLOT_XY then [first + m]
      else if recorded_time tofMax x \<and> spec_index tofMax bins ty v m x + 1 < unat (m_detSizeValues v)
      then [first + spec_index tofMax bins ty v m x] else [])"

text \<open>Is the pixel, at column \<open>m mod w\<close> and row \<open>m div w\<close>, in the rectangle?\<close>

definition in_rectangle :: "detValues \<Rightarrow> nat \<Rightarrow> bool" where
  "in_rectangle v m \<longleftrightarrow>
     (let w = sint (m_detPixelSizeX v); x = int m mod w; y = int m div w in
      sint (m_detPixelROIStartX v) \<le> x \<and> x < sint (m_detPixelROIStartX v) + sint (m_detPixelROISizeX v) \<and>
      sint (m_detPixelROIStartY v) \<le> y \<and> y < sint (m_detPixelROIStartY v) + sint (m_detPixelROISizeY v))"

definition spec_tof_cells :: "nat \<Rightarrow> detValues \<Rightarrow> nat \<Rightarrow> f64 \<Rightarrow> nat list" where
  "spec_tof_cells tofMax v m x =
     (if recorded_time tofMax x
         \<and> (m_detPixelROIEnable v \<noteq> 0 \<longrightarrow> m_detPixelMappingEnabled v \<noteq> 0 \<longrightarrow> in_rectangle v m)
      then [unat (m_NDArrayTOFStartValues v) + whole x] else [])"

text \<open>The cells that one event increments for one detector.\<close>

definition spec_cells :: "machine \<Rightarrow> 'p asyn \<Rightarrow> ('p, 't) adned \<Rightarrow> u32 \<Rightarrow> u32 \<Rightarrow> nat \<Rightarrow> nat list" where
  "spec_cells M A s px t det =
     (let v = m_det s det; m = spec_pixel s det px; x = spec_time M s det px t; tofMax = unat (m_tofMax s);
          bins = max 1 (min tofMax (nat (sint (getIntegerParam A (plib s) det ADnEDDetTOFNumBins))));
          ty = getIntegerParam A (plib s) det ADnEDDet2DType
      in if unat (m_detStartValues v) \<le> unat px \<and> unat px \<le> unat (m_detEndValues v)
         then spec_pixel_cells tofMax bins ty v m x @ spec_tof_cells tofMax v m x
         else [])"

text \<open>Detectors the specification speaks of: a known plot type, regions of interest whose corners fit
  an \<open>int\<close>.\<close>

definition rect_ok :: "detValues \<Rightarrow> bool" where
  "rect_ok v \<longleftrightarrow> 0 < sint (m_detPixelSizeX v)
     \<and> 0 \<le> sint (m_detPixelROIStartX v) \<and> 0 \<le> sint (m_detPixelROISizeX v)
     \<and> sint (m_detPixelROIStartX v) + sint (m_detPixelROISizeX v) < 2 ^ 31
     \<and> 0 \<le> sint (m_detPixelROIStartY v) \<and> 0 \<le> sint (m_detPixelROISizeY v)
     \<and> (sint (m_detPixelROIStartY v) + sint (m_detPixelROISizeY v)) * sint (m_detPixelSizeX v) < 2 ^ 31"

definition regular_det :: "'p asyn \<Rightarrow> ('p, 't) adned \<Rightarrow> nat \<Rightarrow> bool" where
  "regular_det A s det \<longleftrightarrow> (let v = m_det s det in
     getIntegerParam A (plib s) det ADnEDDet2DType \<in> {PLOT_XY, PLOT_XTOF, PLOT_YTOF, PLOT_PIXELIDTOF}
     \<and> 0 \<le> sint (m_detTOFROIStartValues v) \<and> 0 \<le> sint (m_detTOFROISizeValues v)
     \<and> sint (m_detTOFROIStartValues v) + sint (m_detTOFROISizeValues v) < 2 ^ 31
     \<and> rect_ok v)"

text \<open>A time that is not transformed, in natural numbers.\<close>

lemma whole_simps [simp]:
  "whole (Fin (of_nat n)) = n" "whole (Fin (numeral k)) = numeral k" "whole (Fin 0) = 0" "whole (Fin 1) = 1"
  by (simp_all add: whole_def)

lemma raw_time:
  "m_detTOFTransType (m_det s det) = 0 \<Longrightarrow> spec_time M s det px t = Fin (of_nat (unat t))"
  "recorded_time tofMax (Fin (of_nat n)) \<longleftrightarrow> n \<le> tofMax"
  "fle (Fin (of_int a)) (Fin (of_nat n)) \<longleftrightarrow> a \<le> int n"
  "flt (Fin (of_nat n)) (Fin (of_int a)) \<longleftrightarrow> int n < a"
proof -
  have n: "(of_nat n :: rat) = of_int (int n)" by simp
  show "fle (Fin (of_int a)) (Fin (of_nat n)) \<longleftrightarrow> a \<le> int n" unfolding n fle.simps of_int_le_iff ..
  show "flt (Fin (of_nat n)) (Fin (of_int a)) \<longleftrightarrow> int n < a"
    unfolding flt_def n fle.simps of_int_le_iff by auto
qed (simp_all add: spec_time_def recorded_time_def Let_def)

lemma raw_bin:
  assumes "n < 2 ^ 32" "0 < w" "w < 2 ^ 32"
  shows "whole (fdiv (Fin (of_nat n)) (Fin (of_nat w))) = n div w"
proof -
  have "\<exists>x. rnd (of_int (int n) / of_int (int w)) = Fin x \<and> \<lfloor>x\<rfloor> = int n div int w"
    using assms by (intro rnd_quotient_floor) simp_all
  then show ?thesis using assms(2) by (auto simp: whole_def simp flip: zdiv_int)
qed

section \<open>The code computes it\<close>

lemma in_pixel_roi_rectangle:
  assumes "rect_ok v" "uint m < 2 ^ 31"
  shows "in_pixel_roi v m = Inr (in_rectangle v (unat m))"
proof -
  define w where "w = sint (m_detPixelSizeX v)"
  have ok: "0 < w" "0 \<le> sint m" "sint m = uint m"
    using assms by (simp_all add: rect_ok_def w_def sint32_if)
  have y0: "0 \<le> sint (m_detPixelROIStartY v)" "0 \<le> sint (m_detPixelROISizeY v)"
    and ylt: "(sint (m_detPixelROIStartY v) + sint (m_detPixelROISizeY v)) * w < 2 ^ 31"
    using assms(1) by (simp_all add: rect_ok_def w_def)
  have "(sint (m_detPixelROIStartY v) + sint (m_detPixelROISizeY v)) * 1
      \<le> (sint (m_detPixelROIStartY v) + sint (m_detPixelROISizeY v)) * w"
    using ok y0 by (intro mult_left_mono) simp_all
  from le_less_trans [OF this ylt]
  have sy: "sint (m_detPixelROIStartY v + m_detPixelROISizeY v) = sint (m_detPixelROIStartY v) + sint (m_detPixelROISizeY v)"
    using y0 by (intro sint32_add) simp_all
  have top: "sint ((m_detPixelROIStartY v + m_detPixelROISizeY v) * m_detPixelSizeX v)
      = (sint (m_detPixelROIStartY v) + sint (m_detPixelROISizeY v)) * w"
    using sint32_mult [of "m_detPixelROIStartY v + m_detPixelROISizeY v" "m_detPixelSizeX v"] y0 ylt ok
    by (simp add: sy w_def)
  have "sint (m_detPixelROIStartY v) * w \<le> (sint (m_detPixelROIStartY v) + sint (m_detPixelROISizeY v)) * w"
    using ok y0 by (intro mult_right_mono) simp_all
  from le_less_trans [OF this ylt]
  have bottom: "sint (m_detPixelROIStartY v * m_detPixelSizeX v) = sint (m_detPixelROIStartY v) * w"
    using sint32_mult [of "m_detPixelROIStartY v" "m_detPixelSizeX v"] y0 ok by (simp add: w_def)
  have right: "sint (m_detPixelROIStartX v + m_detPixelROISizeX v) = sint (m_detPixelROIStartX v) + sint (m_detPixelROISizeX v)"
    using assms(1) by (intro sint32_add) (simp_all add: rect_ok_def)
  have x: "sint (word_of_int (uint m mod w) :: 32 word) = uint m mod w"
    using ok assms(2) zmod_le_nonneg_dividend [of "uint m" w] by (simp add: sint32_of_int)
  have rows: "(a * w \<le> uint m) = (a \<le> uint m div w)" "(uint m < a * w) = (uint m div w < a)" for a
    using le_zdiv_iff [OF ok(1), of a "uint m"] by auto
  show ?thesis
    using c_mod_nonneg [of m "m_detPixelSizeX v"] ok
    by (simp add: in_pixel_roi_def w_def [symmetric] top bottom right x rows in_rectangle_def Let_def)
qed

lemma spec_pixel_eq:
  assumes "det_safe A s n det" "in_det (m_det s det) px"
  shows "map_pixel s det (m_det s det) px (px - m_detStartValues (m_det s det)) = Inr (of_nat (spec_pixel s det px))
    \<and> spec_pixel s det px \<le> unat (m_detSizeValues (m_det s det))"
proof -
  define v where "v = m_det s det"
  define k where "k = unat px - unat (m_detStartValues v)"
  have k: "unat (px - m_detStartValues v) = k" "of_nat k = px - m_detStartValues v"
    using assms(2) by (simp_all add: v_def k_def in_det_def unat_sub word_le_nat_alt of_nat_diff)
  obtain m where m: "map_pixel s det v px (px - m_detStartValues v) = Inr m" "m \<le> m_detSizeValues v"
    using map_pixel_ok [OF assms] by (auto simp: v_def)
  then have "m = of_nat (spec_pixel s det px) \<and> unat m = spec_pixel s det px"
    by (auto simp: map_pixel_def spec_pixel_def mem_read_u32 v_def [symmetric] k k_def [symmetric] Let_def
        split: if_splits option.splits)
  with m show ?thesis unfolding v_def word_le_nat_alt by metis
qed

lemma clamp_bins_nat: "0 < tofMax \<Longrightarrow> unat (clamp_bins tofMax b) = max 1 (min (unat tofMax) (nat (sint b)))"
proof -
  assume "0 < tofMax"
  then have t: "1 \<le> unat tofMax" by (simp add: word_less_nat_alt)
  show ?thesis
  proof (cases "sint b < 1")
    case True
    then show ?thesis using t by (simp add: clamp_bins_def)
  next
    case False
    then have u: "sint b = int (unat b)" using sint32_pos_uint [of b] by simp
    have "nat (sint b) = unat b" "1 \<le> unat b" using False unfolding u by (simp_all del: of_nat_unat)
    then show ?thesis using False t by (simp add: clamp_bins_def word_less_nat_alt)
  qed
qed

lemma spec_bin_eq:
  assumes "0 < uint tofMax" "uint tofMax < 2 ^ 31" "recorded_time (unat tofMax) x"
  shows "tof_bin M tofMax (clamp_bins tofMax n) x =
      Inr (of_nat (whole (fdiv x (Fin (of_nat (unat tofMax div unat (clamp_bins tofMax n)))))))"
    "int (whole (fdiv x (Fin (of_nat (unat tofMax div unat (clamp_bins tofMax n)))))) \<le> uint tofMax"
proof -
  define w where "w = uint tofMax div uint (clamp_bins tofMax n)"
  obtain r where r: "x = Fin r" "0 \<le> r" "r \<le> of_int (uint tofMax)"
    using assms(3) by (cases x) (auto simp: recorded_time_def)
  obtain q where q: "rnd (r / of_int w) = Fin q" "0 \<le> \<lfloor>q\<rfloor>" "\<lfloor>q\<rfloor> \<le> uint tofMax" "1 \<le> w"
      "tof_bin M tofMax (clamp_bins tofMax n) (Fin r) = Inr (word_of_int \<lfloor>q\<rfloor>)"
    using tof_bin_floor [OF assms(1,2) r(2,3) w_def, of M] by blast
  have "(of_nat (unat tofMax div unat (clamp_bins tofMax n)) :: rat) = of_int (int (unat tofMax div unat (clamp_bins tofMax n)))"
    by (simp only: of_int_of_nat_eq)
  also have "\<dots> = of_int w" by (simp add: w_def zdiv_int)
  finally have "whole (fdiv x (Fin (of_nat (unat tofMax div unat (clamp_bins tofMax n))))) = nat \<lfloor>q\<rfloor>"
    using q(1,4) r(1) by (simp add: whole_def)
  then show "tof_bin M tofMax (clamp_bins tofMax n) x =
      Inr (of_nat (whole (fdiv x (Fin (of_nat (unat tofMax div unat (clamp_bins tofMax n)))))))"
    "int (whole (fdiv x (Fin (of_nat (unat tofMax div unat (clamp_bins tofMax n)))))) \<le> uint tofMax"
    using q(2,3,5) r(1) by simp_all
qed

lemma spec_index_eq:
  assumes plot: "plot_ok tofMax v" and m: "m \<le> unat (m_detSizeValues v)" and x: "recorded_time (unat tofMax) x"
    and ty: "ty \<in> {PLOT_XTOF, PLOT_YTOF, PLOT_PIXELIDTOF}"
    and bins: "bins = clamp_bins tofMax b"
  shows "\<exists>i. plot_index M tofMax v ty bins (of_nat m) x ti = Inr i
    \<and> 0 \<le> sint i \<and> unat i = spec_index (unat tofMax) (unat bins) ty v m x"
proof -
  define sz w where "sz = m_detSizeValues v" and "w = m_detPixelSizeX v"
  have p: "0 < uint tofMax" "0 < sint w" "(uint sz + 1) * (uint tofMax + 1) < 2 ^ 31"
    using plot by (simp_all add: plot_ok_def sz_def w_def)
  define bin where "bin = whole (fdiv x (Fin (of_nat (unat tofMax div unat bins))))"
  have "1 * (uint tofMax + 1) \<le> (uint sz + 1) * (uint tofMax + 1)" by (intro mult_right_mono) simp_all
  from le_less_trans [OF this p(3)] have t31: "uint tofMax < 2 ^ 31" by simp
  have "(uint sz + 1) * 1 \<le> (uint sz + 1) * (uint tofMax + 1)" by (intro mult_left_mono) simp_all
  from le_less_trans [OF this p(3)] have sz31: "uint sz < 2 ^ 31" by simp
  have "int m \<le> int (unat sz)" using m by (simp only: sz_def of_nat_le_iff)
  then have m31: "int m \<le> uint sz" by simp
  from le_less_trans [OF this sz31] have "int m < 2 ^ 31" .
  have sm: "sint (of_nat m :: 32 word) = int m" using \<open>int m < 2 ^ 31\<close> by (intro sint32_of_nat) simp
  have sw: "sint w = int (unat w)" using p(2) by (simp add: sint32_pos_uint)
  have b: "tof_bin M tofMax bins x = Inr (of_nat bin)" and bt: "int bin \<le> uint tofMax"
    using spec_bin_eq(1) [OF p(1) t31 x, of M b] spec_bin_eq(2) [OF p(1) t31 x, of b] by (simp_all add: bins bin_def)
  have bb: "uint bins \<le> uint tofMax" using clamp_bins_bounds [OF p(1), of b] by (simp add: bins word_le_def)
  have idx: "0 \<le> sint (of_nat a * bins + of_nat bin :: 32 word) \<and> unat (of_nat a * bins + of_nat bin :: 32 word) = a * unat bins + bin"
    if "int a \<le> uint sz" for a
  proof -
    have ua: "uint (of_nat a :: 32 word) = int a" "uint (of_nat bin :: 32 word) = int bin"
      using le_less_trans [OF that sz31] le_less_trans [OF bt t31] uint32_of_int [of "int a"] uint32_of_int [of "int bin"]
      by simp_all
    have "uint (of_nat a :: 32 word) \<le> uint sz" "uint (of_nat bin :: 32 word) \<le> uint tofMax"
      using that bt by (simp_all only: ua)
    note row = row_index [OF this bb p(3)]
    have "int (unat (of_nat a * bins + of_nat bin :: 32 word)) = int (a * unat bins + bin)"
      using row(1) by (simp add: ua)
    then show ?thesis using row(2) by (simp only: of_nat_eq_iff)
  qed
  have xy: "int (m mod unat w) \<le> uint sz" "int (m div unat w) \<le> uint sz"
    using m31 by (simp_all add: order_trans [of _ "int m"] div_le_dividend mod_less_eq_dividend)
  have xyw: "c_mod (of_nat m) w = Inr (of_nat (m mod unat w))" "c_div (of_nat m) w = Inr (of_nat (m div unat w))"
    using c_mod_nonneg [of "of_nat m" w] c_div_nonneg [of "of_nat m" w] p(2)
    by (simp_all add: sm sw zmod_int [symmetric] zdiv_int [symmetric] del: of_nat_unat)
  show ?thesis
    using ty b xyw idx [OF xy(1)] idx [OF xy(2)] idx [OF m31]
    by (auto simp: plot_index_def spec_index_def Let_def w_def [symmetric] bin_def [symmetric] plot_type_defs)
qed

lemma seg_safe_nat:
  assumes "seg_safe tofMax v n"
  shows "n \<le> 2 ^ 31" "unat (m_NDArrayStartValues v) + unat (m_detSizeValues v) < n"
    "unat (m_NDArrayTOFStartValues v) + unat tofMax < n"
proof -
  have "int n \<le> int (2 ^ 31)" "int (unat (m_NDArrayStartValues v) + unat (m_detSizeValues v)) < int n"
    "int (unat (m_NDArrayTOFStartValues v) + unat tofMax) < int n"
    using assms by (simp_all add: seg_safe_def)
  then show "n \<le> 2 ^ 31" "unat (m_NDArrayStartValues v) + unat (m_detSizeValues v) < n"
    "unat (m_NDArrayTOFStartValues v) + unat tofMax < n"
    by (simp_all only: of_nat_less_iff of_nat_le_iff)
qed

lemma recorded_time_iff: "tof_in_range tofMax x \<longleftrightarrow> recorded_time (unat tofMax) x"
  by (auto simp: tof_in_range_def recorded_time_def f_of_u32_def)

lemma recorded_whole: "recorded_time n x \<Longrightarrow> whole x \<le> n"
  by (cases x) (auto simp: recorded_time_def whole_def floor_le_iff nat_le_iff)

lemma whole_floor:
  assumes "recorded_time (unat (tofMax :: u32)) x"
  shows "f_to_u32 ud (ffloor x) = of_nat (whole x)"
proof -
  obtain r where r: "x = Fin r" "0 \<le> r" "r \<le> of_int (uint tofMax)"
    using assms by (cases x) (auto simp: recorded_time_def)
  then have f: "0 \<le> \<lfloor>r\<rfloor>" "\<lfloor>r\<rfloor> \<le> uint tofMax" by (simp_all add: floor_le_iff)
  from le_less_trans [OF f(2) uint32_lt] have f32: "\<lfloor>r\<rfloor> < 2 ^ 32" .
  then show ?thesis using r(1) f(1) by (simp add: rtrunc_def whole_def)
qed

lemma update_pixels_spec:
  assumes seg: "seg_safe tofMax v (length xs)" and m: "m \<le> unat (m_detSizeValues v)"
    and plot: "ty \<noteq> PLOT_XY \<Longrightarrow> plot_ok tofMax v"
    and ty: "ty \<in> {PLOT_XY, PLOT_XTOF, PLOT_YTOF, PLOT_PIXELIDTOF}"
    and roi: "0 \<le> sint (m_detTOFROIStartValues v)" "0 \<le> sint (m_detTOFROISizeValues v)"
      "sint (m_detTOFROIStartValues v) + sint (m_detTOFROISizeValues v) < 2 ^ 31"
    and bins: "bins = clamp_bins tofMax b"
  shows "\<exists>i. update_pixels M tofMax v ty bins (of_nat m) x (xs, ti) =
    Inr (bumps (spec_pixel_cells (unat tofMax) (unat bins) ty v m x) xs, i)"
proof -
  note L = seg_safe_nat [OF seg]
  have cell: "bump (sint (m_NDArrayStartValues v + of_nat m)) xs = Inr (bumps [unat (m_NDArrayStartValues v) + m] xs)"
    using L m by (intro cell_bump_nat) linarith+
  note facts = recorded_time_iff f_of_i32_def sint32_add [OF roi] cell
  show ?thesis
  proof (cases "m_detTOFROIEnabled v \<noteq> 0 \<or> ty = PLOT_XY \<or> \<not> recorded_time (unat tofMax) x")
    case True
    then show ?thesis
      by (auto simp: update_pixels_def spec_pixel_cells_def facts Let_def)
  next
    case False
    then have x: "recorded_time (unat tofMax) x" and ty': "ty \<in> {PLOT_XTOF, PLOT_YTOF, PLOT_PIXELIDTOF}" and pl: "plot_ok tofMax v"
      using ty plot by simp_all
    obtain i where i: "plot_index M tofMax v ty bins (of_nat m) x ti = Inr i" "0 \<le> sint i"
        "unat i = spec_index (unat tofMax) (unat bins) ty v m x"
      using spec_index_eq [OF pl m x ty' bins] by blast
    have sz31: "unat (m_detSizeValues v) < 2 ^ 31" using L by linarith
    have less: "sint i < sint (m_detSizeValues v - 1) \<longleftrightarrow> unat i + 1 < unat (m_detSizeValues v)"
      using below_last_iff [OF i(2) sz31] .
    have "bump (sint (m_NDArrayStartValues v + i)) xs = Inr (bumps [unat (m_NDArrayStartValues v) + unat i] xs)"
      if "unat i + 1 < unat (m_detSizeValues v)"
      using cell_bump_nat(1) [of "m_NDArrayStartValues v" "unat i" xs] L that by (simp del: bumps_simps)
    then show ?thesis
      using False i(1) by (auto simp: update_pixels_def spec_pixel_cells_def facts less i(3) Let_def)
  qed
qed

lemma update_tof_spec:
  assumes seg: "seg_safe tofMax v (length xs)" and rect: "rect_ok v" and m: "m < 2 ^ 31"
  shows "update_tof tofMax v (of_nat m) x (f_to_u32 ud (ffloor x)) xs = Inr (bumps (spec_tof_cells (unat tofMax) v m x) xs)"
proof -
  note L = seg_safe_nat [OF seg]
  have "uint (of_nat m :: 32 word) = int m" using m uint32_of_int [of "int m"] by simp
  moreover have "unat (of_nat m :: 32 word) = m" using m by (intro unat32_of_nat) simp
  ultimately have roi: "in_pixel_roi v (of_nat m) = Inr (in_rectangle v m)"
    using in_pixel_roi_rectangle [OF rect, of "of_nat m"] m by simp
  have "bump (uint (m_NDArrayTOFStartValues v + f_to_u32 ud (ffloor x))) xs
      = Inr (bumps [unat (m_NDArrayTOFStartValues v) + whole x] xs)" if "recorded_time (unat tofMax) x"
    unfolding whole_floor [OF that]
    using cell_bump_nat(2) [of "m_NDArrayTOFStartValues v" "whole x" xs] L recorded_whole [OF that] by linarith
  then show ?thesis
    using rect by (auto simp: update_tof_def spec_tof_cells_def recorded_time_iff roi rect_ok_def)
qed

text \<open>One event, one detector. The counters of the detector move with the event.\<close>

lemma spec_pixel_cong: "same_config s s' \<Longrightarrow> spec_cells M A s' px t det = spec_cells M A s px t det"
  by (simp add: same_config_fields spec_cells_def spec_pixel_def spec_time_def Let_def)

lemma regular_det_cong: "same_config s s' \<Longrightarrow> regular_det A s' det = regular_det A s det"
  by (simp add: same_config_fields regular_det_def Let_def)

lemma event_tof_spec:
  assumes "det_safe A s n det" "in_det (m_det s det) px"
  shows "event_tof M s det (m_det s det) (px - m_detStartValues (m_det s det)) t = Inr (spec_time M s det px t)"
proof (cases "m_detTOFTransType (m_det s det) = 0")
  case True
  then show ?thesis by (simp add: event_tof_def spec_time_def f_of_u32_def)
next
  case False
  from event_transform [OF assms refl this, of "libm_pow M" t] obtain tr where "p_Transform s det = Some tr"
    "calculate (libm_pow M) tr (m_detTOFTransType (m_det s det)) (px - m_detStartValues (m_det s det)) t
      = Inr (trans_value (libm_pow M) (store_of tr) (m_detTOFTransType (m_det s det))
          (unat px - unat (m_detStartValues (m_det s det))) t)" by blast
  then show ?thesis using False by (simp add: event_tof_def spec_time_def Let_def)
qed

lemma integrate_event_spec:
  assumes safe: "det_safe A s (length xs) det" and plain: "regular_det A s det" and xs: "p_Data s = Some xs"
    and ti: "0 \<le> sint ti"
  shows "\<exists>s' i. integrate_event M A px t det (s, ti) = Inr (s', i) \<and> same_config s s'
    \<and> p_Data s' = Some (bumps (spec_cells M A s px t det) xs) \<and> 0 \<le> sint i"
proof (cases "in_det (m_det s det) px")
  case True
  define v where "v = m_det s det"
  define ty where "ty = getIntegerParam A (plib s) det ADnEDDet2DType"
  define bins where "bins = clamp_bins (m_tofMax s) (getIntegerParam A (plib s) det ADnEDDetTOFNumBins)"
  define m x where "m = spec_pixel s det px" and "x = spec_time M s det px t"
  have seg: "seg_safe (m_tofMax s) v (length xs)" and plot: "ty \<noteq> PLOT_XY \<Longrightarrow> plot_ok (m_tofMax s) v"
    using safe by (simp_all add: det_safe_def seg_safe_def v_def ty_def Let_def)
  have pl: "ty \<in> {PLOT_XY, PLOT_XTOF, PLOT_YTOF, PLOT_PIXELIDTOF}"
      "0 \<le> sint (m_detTOFROIStartValues v)" "0 \<le> sint (m_detTOFROISizeValues v)"
      "sint (m_detTOFROIStartValues v) + sint (m_detTOFROISizeValues v) < 2 ^ 31" "rect_ok v"
    using plain by (simp_all add: regular_det_def v_def ty_def Let_def)
  have mp: "map_pixel s det v px (px - m_detStartValues v) = Inr (of_nat m)" "m \<le> unat (m_detSizeValues v)"
    using spec_pixel_eq [OF safe True] by (simp_all add: v_def m_def)
  have m31: "m < 2 ^ 31" using mp(2) seg_safe_nat [OF seg] by linarith
  obtain i where up: "update_pixels M (m_tofMax s) v ty bins (of_nat m) x (xs, ti) =
      Inr (bumps (spec_pixel_cells (unat (m_tofMax s)) (unat bins) ty v m x) xs, i)"
    using update_pixels_spec [OF seg mp(2) plot pl(1-4) bins_def] by blast
  have "(of_nat m :: 32 word) \<le> m_detSizeValues v" using mp(2) m31 by (simp add: word_le_nat_alt unat32_of_nat)
  then obtain ys j where "update_pixels M (m_tofMax s) v ty bins (of_nat m) x (xs, ti) = Inr (ys, j)"
      "0 \<le> sint j"
    using update_pixels_ok [OF seg _ ti] plot unfolding bins_def by blast
  with up have i: "0 \<le> sint i" by simp
  have cells: "spec_cells M A s px t det = spec_pixel_cells (unat (m_tofMax s)) (unat bins) ty v m x
      @ spec_tof_cells (unat (m_tofMax s)) v m x"
  proof (cases "ty = PLOT_XY")
    case xy: True
    then show ?thesis using True
      by (simp add: spec_cells_def v_def [symmetric] ty_def [symmetric] m_def [symmetric] x_def [symmetric] in_det_def
          word_le_nat_alt spec_pixel_cells_def Let_def)
  next
    case False
    then have "0 < m_tofMax s" using plot by (simp add: plot_ok_def word_less_def)
    then show ?thesis using True
      by (simp add: spec_cells_def v_def [symmetric] ty_def [symmetric] m_def [symmetric] x_def [symmetric] in_det_def
          word_le_nat_alt clamp_bins_nat bins_def Let_def)
  qed
  show ?thesis
    using True mp up i xs event_tof_spec [OF safe True, of M t]
      update_tof_spec [OF _ pl(5) m31, where xs = "bumps (spec_pixel_cells (unat (m_tofMax s)) (unat bins) ty v m x) xs"] seg
    by (simp add: integrate_event_def x_def [symmetric] v_def [symmetric] ty_def [symmetric] bins_def [symmetric]
        cells Let_def)
next
  case False
  then have "spec_cells M A s px t det = []"
    by (auto simp: spec_cells_def in_det_def word_le_nat_alt Let_def)
  then show ?thesis using False xs ti
    by (simp add: integrate_event_def Let_def)
qed

text \<open>All events, in the order of the code: the events outside, the detectors inside.\<close>

definition all_cells :: "machine \<Rightarrow> 'p asyn \<Rightarrow> ('p, 't) adned \<Rightarrow> nat list \<Rightarrow> (u32 \<times> u32) list \<Rightarrow> nat list" where
  "all_cells M A s dets events =
     concat (map (\<lambda>(px, t). concat (map (spec_cells M A s px t) dets)) events)"

lemma integrate_all_spec:
  assumes safe: "\<And>det. det \<in> set dets \<Longrightarrow> det_safe A s (length xs) det \<and> regular_det A s det"
    and xs: "p_Data s = Some xs"
  shows "\<exists>s'. integrate_all M A dets events s = Inr s' \<and> same_config s s'
    \<and> p_Data s' = Some (bumps (all_cells M A s dets events) xs)"
proof -
  define I where "I = (\<lambda>ks (s', i :: i32). same_config s s' \<and> p_Data s' = Some (bumps ks xs) \<and> 0 \<le> sint i)"
  have step: "\<exists>x'. integrate_event M A px t det x = Inr x' \<and> I (ks @ spec_cells M A s px t det) x'"
    if det: "det \<in> set dets" and x: "I ks x" for px t det x ks
  proof -
    obtain s1 i1 where x1: "x = (s1, i1)" by (cases x)
    with x have c: "same_config s s1" "p_Data s1 = Some (bumps ks xs)" "0 \<le> sint i1" by (simp_all add: I_def)
    have "det_safe A s1 (length (bumps ks xs)) det" "regular_det A s1 det"
      using safe [OF det] det_safe_cong [OF c(1)] regular_det_cong [OF c(1)] by simp_all
    from integrate_event_spec [OF this c(2,3), of M px t] show ?thesis
      using c(1) unfolding x1 spec_pixel_cong [OF c(1)] by (fastforce simp: I_def intro: same_config_trans)
  qed
  have "\<exists>x. foldR (\<lambda>(px, t). foldR (integrate_event M A px t) dets) events (s, 0) = Inr x
      \<and> I ([] @ all_cells M A s dets events) x"
    unfolding all_cells_def
  proof (rule foldR_trace)
    show "I [] (s, 0)" using xs by (simp add: I_def)
    show "\<exists>x'. (\<lambda>(px, t). foldR (integrate_event M A px t) dets) e x = Inr x'
        \<and> I (ks @ (\<lambda>(px, t). concat (map (spec_cells M A s px t) dets)) e) x'" if "I ks x" for e x ks
      using foldR_trace [where I = I, OF step that] by (cases e) auto
  qed
  then show ?thesis by (auto simp: integrate_all_def I_def)
qed

section \<open>Properties\<close>

text \<open>(C28) The X/Y region of interest. The code tests the pixel's column with a modulus but its row by
  comparing the pixel's offset with multiples of the row length; for a rectangle whose corners fit
  an \<open>int\<close> this is the test that column and row lie in the rectangle.\<close>

theorem xy_roi_rectangle:
  assumes "rect_ok v" "uint m < 2 ^ 31"
  shows "in_pixel_roi v m = Inr (in_rectangle v (unat m))"
  using in_pixel_roi_rectangle [OF assms] .

theorem xy_roi_rectangle_witness:
  "in_pixel_roi (det_values0\<lparr>m_detPixelSizeX := 4, m_detPixelROIStartX := 1, m_detPixelROISizeX := 2,
     m_detPixelROIStartY := 2, m_detPixelROISizeY := 3\<rparr>) 10 = Inr True"
  using xy_roi_rectangle [of "det_values0\<lparr>m_detPixelSizeX := 4, m_detPixelROIStartX := 1, m_detPixelROISizeX := 2,
     m_detPixelROIStartY := 2, m_detPixelROISizeY := 3\<rparr>" 10]
  by (simp add: rect_ok_def in_rectangle_def det_values0_def)

text \<open>(C29) The time-of-flight bin. The bin of an untransformed time of flight, which the code computes by
  rounding a double quotient and truncating it, is the integer quotient by the bin width, and it is
  computed without a trap and without leaving the range of \<open>int\<close>.\<close>

theorem tof_bin_exact:
  assumes "0 < tofMax" "uint tofMax < 2 ^ 31" "t \<le> tofMax"
  shows "tof_bin M tofMax (clamp_bins tofMax n) (f_of_u32 t) =
    Inr (of_nat (unat t div (unat tofMax div max 1 (min (unat tofMax) (nat (sint n))))))"
proof -
  have "0 < uint tofMax" using assms(1) by (simp add: word_less_def)
  from tof_bin_raw [OF this assms(2,3)] show ?thesis by (simp add: clamp_bins_nat [OF assms(1)])
qed

theorem tof_bin_exact_witness:
  "tof_bin demo_machine 1000 (clamp_bins 1000 30) (f_of_u32 659) = Inr 19"
  using tof_bin_exact [of 1000 659 demo_machine 30] by simp

end
