(* ===== verification/Handler.thy ===== *)
theory Handler
  imports Histogram
begin

text \<open>
  \<open>eventHandler\<close> as a whole: \<open>accepted\<close> says which updates reach the integration loop; any other update
  is \<open>quiet\<close>. \<open>handler_ok\<close> is an invariant under which no update faults, and which every update keeps.
\<close>

section \<open>Parameters the handler leaves alone\<close>

definition status_iparams :: "iparam set" where
  "status_iparams = {ADnEDSeqCounter, ADnEDSeqID, ADnEDSeqIDMissing, ADnEDSeqIDNumMissing, ADnEDBadTimeStamp,
     ADnEDPulseCounter, ADnEDEventRate, ADnEDDetEventRate}"

definition status_dparams :: "dparam set" where
  "status_dparams = {ADnEDPCharge, ADnEDPChargeInt, ADnEDDetEventTotal}"

definition keeps_config :: "'p asyn \<Rightarrow> 'p \<Rightarrow> 'p \<Rightarrow> bool" where
  "keeps_config A p p' \<longleftrightarrow>
     (\<forall>a q. q \<notin> status_iparams \<longrightarrow> getIntegerParam A p' a q = getIntegerParam A p a q)
     \<and> (\<forall>a x. x \<notin> status_dparams \<longrightarrow> getDoubleParam A p' a x = getDoubleParam A p a x)"

lemma keeps_config_refl [simp]: "keeps_config A p p"
  by (simp add: keeps_config_def)

lemma keeps_config_trans [trans]: "keeps_config A p q \<Longrightarrow> keeps_config A q r \<Longrightarrow> keeps_config A p r"
  by (simp add: keeps_config_def)

lemma load_det_keeps: "keeps_config A p p' \<Longrightarrow> load_det A p' d = load_det A p d"
  by (simp add: keeps_config_def load_det_def status_iparams_def status_dparams_def)

lemma fold_keeps:
  assumes "\<And>x s. x \<in> set xs \<Longrightarrow> P s (f x s)" "\<And>s. P s s" "\<And>s t u. P s t \<Longrightarrow> P t u \<Longrightarrow> P s u"
  shows "P s (fold f xs s)"
  using assms(1)
proof (induction xs arbitrary: s)
  case Nil
  then show ?case by (simp add: assms(2))
next
  case (Cons x xs)
  then show ?case using assms(3) [of s "f x s"] by simp
qed

text \<open>All that integration and the next calls of the handler look at.\<close>

definition same_setup :: "'p asyn \<Rightarrow> ('p, 't) adned \<Rightarrow> ('p, 't) adned \<Rightarrow> bool" where
  "same_setup A s s' \<longleftrightarrow> keeps_config A (plib s) (plib s')
     \<and> m_tofMax s' = m_tofMax s \<and> m_dataMaxSize s' = m_dataMaxSize s \<and> m_bufferMaxSize s' = m_bufferMaxSize s
     \<and> m_dataAlloc s' = m_dataAlloc s \<and> p_PixelMap s' = p_PixelMap s
     \<and> m_PixelMapSize s' = m_PixelMapSize s \<and> p_Transform s' = p_Transform s"

lemma same_setup_refl [simp]: "same_setup A s s"
  by (simp add: same_setup_def)

lemma same_setup_trans [trans]: "same_setup A s t \<Longrightarrow> same_setup A t u \<Longrightarrow> same_setup A s u"
  by (auto simp: same_setup_def intro: keeps_config_trans)

text \<open>A step that neither counts an event nor adds to the integrated charge.\<close>

definition quiet :: "'p asyn \<Rightarrow> ('p, 't) adned \<Rightarrow> ('p, 't) adned \<Rightarrow> bool" where
  "quiet A s s' \<longleftrightarrow> same_setup A s s' \<and> p_Data s' = p_Data s \<and> m_pChargeInt s' = m_pChargeInt s
     \<and> m_pulseCounter s' = m_pulseCounter s"

lemma quiet_refl [simp]: "quiet A s s"
  by (simp add: quiet_def)

lemma quiet_trans [trans]: "quiet A s t \<Longrightarrow> quiet A t u \<Longrightarrow> quiet A s u"
  by (auto simp: quiet_def intro: same_setup_trans)

context asyn_port
begin

lemma keeps_setI: "q \<in> status_iparams \<Longrightarrow> a \<le> ADNED_MAX_DETS \<Longrightarrow> keeps_config A p (setI A a q v p)"
  by (auto simp: keeps_config_def port_laws)

lemma keeps_setD: "x \<in> status_dparams \<Longrightarrow> a \<le> ADNED_MAX_DETS \<Longrightarrow> keeps_config A p (setD A a x v p)"
  by (auto simp: keeps_config_def port_laws)

lemma keeps_calls: "keeps_config A p (calls A a p)"
  by (simp add: keeps_config_def port_laws)

lemmas keeps_rules = keeps_config_trans [OF _ keeps_setI] keeps_config_trans [OF _ keeps_setD]
  keeps_config_trans [OF _ keeps_calls]

lemma eh_sequence_quiet:
  assumes "chan < ADNED_MAX_CHANNELS"
  shows "quiet A s (eh_sequence A chan s) \<and> m_det (eh_sequence A chan s) = m_det s"
  using assms
  by (auto simp: eh_sequence_def quiet_def same_setup_def Let_def status_iparams_def intro!: keeps_rules)

lemma eh_stamp_quiet:
  assumes "chan < ADNED_MAX_CHANNELS" "eh_stamp A T chan tsf s = (go, np, s')"
  shows "quiet A s s' \<and> m_det s' = m_det s"
proof (cases tsf)
  case (Ts_Value ts)
  define s1 where "s1 = s\<lparr>m_seqCounter := (m_seqCounter s)(chan := m_seqCounter s chan + 1),
    m_TimeStamp := (m_TimeStamp s)(chan := ts)\<rparr>"
  define s2 where "s2 = s1\<lparr>m_TimeStampLast := (m_TimeStampLast s1)
      (chan := ts_put T (ts_secs T ts) (ts_nsecs T ts) (m_TimeStampLast s1 chan)),
    m_seqID := (m_seqID s1)(chan := ts_tag T ts)\<rparr>"
  have "s' = eh_sequence A chan s2 \<or> s' = s1\<lparr>plib := setI A chan ADnEDBadTimeStamp 1 (plib s1)\<rparr>"
    using assms(2) by (auto simp: Ts_Value eh_stamp_def Let_def s1_def s2_def split: if_splits)
  moreover have s2: "quiet A s s2" "m_det s2 = m_det s" by (simp_all add: s2_def s1_def quiet_def same_setup_def)
  moreover have "quiet A s (s1\<lparr>plib := setI A chan ADnEDBadTimeStamp 1 (plib s1)\<rparr>)"
    using assms(1) keeps_setI [of ADnEDBadTimeStamp chan]
    by (simp add: s1_def quiet_def same_setup_def status_iparams_def)
  moreover have "quiet A s (eh_sequence A chan s2)" "m_det (eh_sequence A chan s2) = m_det s"
    using eh_sequence_quiet [OF assms(1), of s2] s2 by (blast intro: quiet_trans, simp)
  moreover have "m_det s1 = m_det s" by (simp add: s1_def)
  ultimately show ?thesis by fastforce
next
  case Ts_Exception
  then show ?thesis using assms(2) by (auto simp: eh_stamp_def quiet_def same_setup_def Let_def)
next
  case Ts_NoAttach
  then show ?thesis using assms(2) by (auto simp: eh_stamp_def quiet_def same_setup_def Let_def)
qed

lemma post_channel_quiet: "chan < ADNED_MAX_CHANNELS \<Longrightarrow> quiet A s (post_channel A chan s)"
  by (auto simp: post_channel_def quiet_def same_setup_def status_iparams_def intro!: keeps_rules)

lemma post_det_quiet: "det \<le> ADNED_MAX_DETS \<Longrightarrow> quiet A s (post_det M A dt det s)"
  by (auto simp: post_det_def quiet_def same_setup_def status_iparams_def status_dparams_def intro!: keeps_rules)

lemma eh_post_quiet:
  assumes "sint numChan \<le> int ADNED_MAX_CHANNELS" "sint numDet \<le> int ADNED_MAX_DETS"
  shows "quiet A s (eh_post M A numChan numDet dt pc s)"
proof -
  define s1 where "s1 = fold (post_channel A) [0..<nat (sint numChan)] s"
  define p3 where "p3 = setI A 0 ADnEDEventRate (event_rate M (m_eventsSinceLastUpdate s1) dt)
      (setI A 0 ADnEDPulseCounter (m_pulseCounter s1) (plib s1))"
  define s3 where "s3 = s1\<lparr>plib := p3, m_eventsSinceLastUpdate := 0\<rparr>"
  define s4 where "s4 = fold (post_det M A dt) (det_range numDet) s3"
  define p6 where "p6 = setD A 0 ADnEDPChargeInt (m_pChargeInt s4) (setD A 0 ADnEDPCharge pc (plib s4))"
  define p7 where "p7 = fold (calls A) [0..<nat (max (sint numChan) (sint numDet) + 1)] p6"
  have "keeps_config A (plib s4) p6" unfolding p6_def
    by (intro keeps_rules keeps_config_refl) (simp_all add: status_dparams_def)
  also have "keeps_config A p6 p7" unfolding p7_def
    by (rule fold_keeps [where P = "keeps_config A"]) (auto intro: keeps_calls keeps_config_trans)
  also have "keeps_config A p7 (calls A 0 p7)" by (rule keeps_calls)
  finally have last: "quiet A s4 (s4\<lparr>plib := calls A 0 p7\<rparr>)" by (simp add: quiet_def same_setup_def)
  have ch: "quiet A s s1" unfolding s1_def
    using assms(1)
    by (intro fold_keeps [where P = "quiet A"] post_channel_quiet) (auto intro: quiet_trans)
  have "keeps_config A (plib s1) p3" unfolding p3_def
    by (intro keeps_rules keeps_config_refl) (simp_all add: status_iparams_def)
  then have mid: "quiet A s1 s3" by (simp add: s3_def quiet_def same_setup_def)
  have dets: "quiet A s3 s4" unfolding s4_def
    using assms(2)
    by (intro fold_keeps [where P = "quiet A"] post_det_quiet) (auto simp: det_range_def intro: quiet_trans)
  have "eh_post M A numChan numDet dt pc s = s4\<lparr>plib := calls A 0 p7\<rparr>"
    unfolding eh_post_def Let_def p7_def p6_def s4_def s3_def p3_def s1_def ..
  then show ?thesis using quiet_trans [OF quiet_trans [OF quiet_trans [OF ch mid] dets] last] by simp
qed

end

section \<open>Which updates are integrated\<close>

definition num_dets :: "'p asyn \<Rightarrow> ('p, 't) adned \<Rightarrow> i32" where
  "num_dets A s = clamp_max ADNED_MAX_DETS (getIntegerParam A (plib s) 0 ADnEDNumDet)"

definition num_chans :: "'p asyn \<Rightarrow> ('p, 't) adned \<Rightarrow> i32" where
  "num_chans A s = clamp_max ADNED_MAX_CHANNELS (getIntegerParam A (plib s) 0 ADnEDNumChannels)"

definition is_paused :: "'p asyn \<Rightarrow> ('p, 't) adned \<Rightarrow> bool" where
  "is_paused A s \<longleftrightarrow> getIntegerParam A (plib s) 0 ADnEDPause \<noteq> 0"

definition active_dets :: "'p asyn \<Rightarrow> ('p, 't) adned \<Rightarrow> nat list" where
  "active_dets A s = det_range (num_dets A s)"

definition loaded :: "'p asyn \<Rightarrow> ('p, 't) adned \<Rightarrow> ('p, 't) adned" where
  "loaded A s = s\<lparr>m_det := (\<lambda>d. if d \<in> set (active_dets A s) then load_det A (plib s) d else m_det s d)\<rparr>"

definition accepted :: "'p asyn \<Rightarrow> 't pvtime \<Rightarrow> 't pvdata \<Rightarrow> u32 \<Rightarrow> ('p, 't) adned \<Rightarrow> bool" where
  "accepted A T pv ch s \<longleftrightarrow>
     unat ch < ADNED_MAX_CHANNELS
     \<and> (\<forall>d\<in>set (active_dets A s). 0 < sint (getIntegerParam A (plib s) d ADnEDDetPixelROISizeX))
     \<and> (case pv_timestamp pv of Ts_Value ts \<Rightarrow> \<not> ts_gt T (m_TimeStampLast s (unat ch)) ts | _ \<Rightarrow> False)
     \<and> pv_pcharge pv \<noteq> None \<and> p_Data s \<noteq> None \<and> m_dataMaxSize s \<noteq> 0
     \<and> (case (pv_pixels pv, pv_tof pv) of
          (Some ps, Some ts) \<Rightarrow> (of_nat (length ps) :: u32) = of_nat (length ts)
        | _ \<Rightarrow> False)"

definition new_pulse :: "'t pvtime \<Rightarrow> 't pvdata \<Rightarrow> u32 \<Rightarrow> ('p, 't) adned \<Rightarrow> bool" where
  "new_pulse T pv ch s \<longleftrightarrow> ch = 0 \<and>
     (case pv_timestamp pv of Ts_Value ts \<Rightarrow> ts_ne T (m_TimeStampLast s 0) ts | _ \<Rightarrow> False)"

definition events_of :: "'t pvdata \<Rightarrow> (u32 \<times> u32) list" where
  "events_of pv = (case (pv_pixels pv, pv_tof pv) of
     (Some ps, Some ts) \<Rightarrow> take (unat (of_nat (length ps) :: u32)) (zip ps ts) | _ \<Rightarrow> [])"

lemma load_dets_result:
  "load_dets A ds s = (go, s2) \<Longrightarrow>
     go = (\<forall>d\<in>set ds. 0 < sint (getIntegerParam A (plib s) d ADnEDDetPixelROISizeX))
     \<and> (\<exists>f. s2 = s\<lparr>m_det := f\<rparr> \<and> (go \<longrightarrow> f = (\<lambda>d. if d \<in> set ds then load_det A (plib s) d else m_det s d)))"
proof (induction ds arbitrary: s)
  case Nil
  then show ?case by (auto intro!: exI [of _ "m_det s"])
next
  case (Cons d ds)
  define v where "v = load_det A (plib s) d"
  define s1 where "s1 = s\<lparr>m_det := (m_det s)(d := v)\<rparr>"
  have roi: "m_detPixelROISizeX v = getIntegerParam A (plib s) d ADnEDDetPixelROISizeX"
    by (simp add: v_def load_det_def)
  show ?case
  proof (cases "sint (m_detPixelROISizeX v) \<le> 0")
    case True
    then show ?thesis using Cons.prems roi by (auto simp: Let_def v_def)
  next
    case False
    then have "load_dets A ds s1 = (go, s2)" using Cons.prems by (simp add: Let_def v_def s1_def)
    from Cons.IH [OF this] False roi show ?thesis
      by (auto simp: s1_def v_def fun_eq_iff not_le)
  qed
qed

lemma eh_stamp_value:
  "eh_stamp A T chan tsf s = (go, np, s') \<Longrightarrow>
    go = (case tsf of Ts_Value ts \<Rightarrow> \<not> ts_gt T (m_TimeStampLast s chan) ts | _ \<Rightarrow> False)
    \<and> (go \<longrightarrow> np = (chan = 0 \<and> (case tsf of Ts_Value ts \<Rightarrow> ts_ne T (m_TimeStampLast s 0) ts | _ \<Rightarrow> False)))"
  by (auto simp: eh_stamp_def Let_def split: ts_field.splits if_splits)

context asyn_port
begin

text \<open>The part before the charge: it rejects the update, or hands over to \<open>eh_packet\<close>.\<close>

lemma eventHandler_front:
  assumes H: "h = eventHandler M A T sec ns pv ch s"
  obtains (reject) s' where "\<not> accepted A T pv ch s" "h = Inr s'" "quiet A s s'"
  | (packet) upd dt s3 where "quiet A s s3" "m_det s3 = m_det (loaded A s)" "unat ch < ADNED_MAX_CHANNELS"
      "\<forall>d\<in>set (active_dets A s). 0 < sint (getIntegerParam A (plib s) d ADnEDDetPixelROISizeX)"
      "case pv_timestamp pv of Ts_Value ts \<Rightarrow> \<not> ts_gt T (m_TimeStampLast s (unat ch)) ts | _ \<Rightarrow> False"
      "h = eh_packet M A (num_chans A s) (num_dets A s) (is_paused A s) upd dt (new_pulse T pv ch s) pv s3"
proof -
  obtain upd dt s1 where c: "eh_clock A sec ns s = (upd, dt, s1)" by (cases "eh_clock A sec ns s")
  then have s1: "quiet A s s1" "plib s1 = plib s" "m_TimeStampLast s1 = m_TimeStampLast s" "m_det s1 = m_det s"
    by (auto simp: eh_clock_def Let_def quiet_def same_setup_def split: if_splits)
  define ds where "ds = active_dets A s"
  obtain go s2 where l: "load_dets A ds s1 = (go, s2)" by (cases "load_dets A ds s1")
  note lr = load_dets_result [OF l]
  have go: "go = (\<forall>d\<in>set ds. 0 < sint (getIntegerParam A (plib s) d ADnEDDetPixelROISizeX))"
    and det: "go \<Longrightarrow> m_det s2 = m_det (loaded A s)"
    using lr s1 by (auto simp: loaded_def ds_def)
  have s2: "quiet A s1 s2" "m_TimeStampLast s2 = m_TimeStampLast s"
    using lr s1 by (auto simp: quiet_def same_setup_def)
  obtain st np s3 where t: "eh_stamp A T (unat ch) (pv_timestamp pv) s2 = (st, np, s3)"
    by (cases "eh_stamp A T (unat ch) (pv_timestamp pv) s2")
  note tv = eh_stamp_value [OF t, unfolded s2(2)]
  note q12 = quiet_trans [OF s1(1) s2(1)]
  have q3: "unat ch < ADNED_MAX_CHANNELS \<Longrightarrow> quiet A s s3 \<and> m_det s3 = m_det s2"
    using eh_stamp_quiet [OF _ t] q12 by (blast intro: quiet_trans)
  have h: "h = (if unat ch \<ge> ADNED_MAX_CHANNELS then Inr s1 else if \<not> go then Inr s2 else if \<not> st then Inr s3
     else eh_packet M A (num_chans A s) (num_dets A s) (is_paused A s) upd dt np pv s3)"
    using l unfolding H ds_def active_dets_def num_dets_def num_chans_def is_paused_def
    by (simp add: eventHandler_def c s1 t)
  show thesis
  proof (cases "unat ch < ADNED_MAX_CHANNELS \<and> go \<and> st")
    case True
    then have "np = new_pulse T pv ch s" using tv by (auto simp: new_pulse_def unat_eq_0)
    with True show thesis using h q3 det go tv packet [of s3 upd dt] by (simp add: ds_def)
  next
    case False
    then have "\<not> accepted A T pv ch s" using go tv by (auto simp: accepted_def ds_def)
    then show thesis using False h q3 q12 s1(1) reject by (auto split: if_splits)
  qed
qed

lemma eventHandler_rejects:
  assumes "\<not> accepted A T pv ch s"
  shows "\<exists>s'. eventHandler M A T sec ns pv ch s = Inr s' \<and> quiet A s s'"
proof (cases rule: eventHandler_front [where M = M and T = T and sec = sec and ns = ns and pv = pv and ch = ch and s = s, OF refl, case_names reject packet])
  case (packet upd dt s3)
  have "p_Data s3 = p_Data s" "m_dataMaxSize s3 = m_dataMaxSize s"
    using packet(1) by (simp_all add: quiet_def same_setup_def)
  then show ?thesis
    using assms packet by (auto simp: eh_packet_def accepted_def Let_def split: option.splits)
qed auto

lemma eventHandler_accepts:
  assumes "accepted A T pv ch s"
  obtains upd dt s4 pc where "quiet A s s4" "m_det s4 = m_det (loaded A s)" "pv_pcharge pv = Some pc"
    "eventHandler M A T sec ns pv ch s =
       res_bind (eh_events M A (num_dets A s) (is_paused A s) (new_pulse T pv ch s) pc (events_of pv) s4)
         (\<lambda>s5. Inr (if upd then eh_post M A (num_chans A s) (num_dets A s) dt pc s5 else s5))"
proof (cases rule: eventHandler_front [where M = M and T = T and sec = sec and ns = ns and pv = pv and ch = ch
      and s = s, OF refl, case_names reject packet])
  case (packet upd dt s3)
  have d: "p_Data s3 = p_Data s" "m_dataMaxSize s3 = m_dataMaxSize s"
    using packet(1) by (simp_all add: quiet_def same_setup_def)
  obtain pc ps ts where pv: "pv_pcharge pv = Some pc" "pv_pixels pv = Some ps" "pv_tof pv = Some ts"
      "(of_nat (length ps) :: u32) = of_nat (length ts)"
    using assms by (auto simp: accepted_def split: option.splits)
  define s4 where "s4 = s3\<lparr>m_eventsSinceLastUpdate := m_eventsSinceLastUpdate s3 + of_nat (length ts)\<rparr>"
  have "quiet A s s4" "m_det s4 = m_det (loaded A s)"
    using packet(1,2) by (simp_all add: s4_def quiet_def same_setup_def)
  moreover obtain xs where "p_Data s3 = Some xs" "m_dataMaxSize s3 \<noteq> 0" using assms d by (auto simp: accepted_def)
  ultimately show thesis
    using packet(6) pv by (intro that [of s4 pc upd dt]) (simp_all add: eh_packet_def s4_def events_of_def Let_def)
qed (use assms in simp)

end

section \<open>Safety and effect of the handler\<close>

definition handler_ok :: "'p asyn \<Rightarrow> ('p, 't) adned \<Rightarrow> bool" where
  "handler_ok A s \<longleftrightarrow> (case p_Data s of None \<Rightarrow> True
     | Some xs \<Rightarrow> m_dataMaxSize s = 0 \<or> (\<forall>d\<in>set (active_dets A s). det_safe A (loaded A s) (length xs) d))"

lemma same_setup_loaded:
  assumes "same_setup A s s'"
  shows "active_dets A s' = active_dets A s"
    "d \<in> set (active_dets A s) \<Longrightarrow> det_safe A (loaded A s') n d = det_safe A (loaded A s) n d"
proof -
  have p: "keeps_config A (plib s) (plib s')" using assms by (simp add: same_setup_def)
  then have i: "getIntegerParam A (plib s') a q = getIntegerParam A (plib s) a q" if "q \<notin> status_iparams" for a q
    using that by (simp add: keeps_config_def)
  show act: "active_dets A s' = active_dets A s"
    by (simp add: active_dets_def num_dets_def i status_iparams_def)
  show "det_safe A (loaded A s') n d = det_safe A (loaded A s) n d" if "d \<in> set (active_dets A s)"
    using that assms
    by (simp add: det_safe_def map_ok_def trans_ok_def loaded_def act load_det_keeps [OF p] i status_iparams_def
        same_setup_def Let_def)
qed

lemma handler_ok_same:
  assumes "same_setup A s s'" "map_option length (p_Data s') = map_option length (p_Data s)"
  shows "handler_ok A s' = handler_ok A s"
proof -
  have "m_dataMaxSize s' = m_dataMaxSize s" using assms by (simp add: same_setup_def)
  then show ?thesis
    using assms(2) same_setup_loaded [OF assms(1)]
    by (auto simp: handler_ok_def split: option.splits)
qed

lemma same_config_setup: "same_config s s' \<Longrightarrow> same_setup A s s'"
  by (simp add: same_config_fields same_setup_def)

lemma clamp_max_bound: "m < 2 ^ 31 \<Longrightarrow> sint (clamp_max m n) \<le> int m"
  by (auto simp: clamp_max_def sint32_of_nat)

lemma num_bounds: "sint (num_chans A s) \<le> int ADNED_MAX_CHANNELS" "sint (num_dets A s) \<le> int ADNED_MAX_DETS"
  unfolding num_chans_def num_dets_def by (rule clamp_max_bound, simp)+

lemma det_safe_quiet:
  assumes "quiet A s t" "m_det t = m_det (loaded A s)"
  shows "det_safe A t n d = det_safe A (loaded A s) n d" "spec_cells M A t px tm d = spec_cells M A (loaded A s) px tm d"
    "regular_det A t d = regular_det A (loaded A s) d"
proof -
  have p: "keeps_config A (plib s) (plib t)" using assms by (simp add: quiet_def same_setup_def)
  then have i: "getIntegerParam A (plib t) a q = getIntegerParam A (plib s) a q" if "q \<notin> status_iparams" for a q
    using that by (simp add: keeps_config_def)
  have l: "plib (loaded A s) = plib s" "m_tofMax t = m_tofMax (loaded A s)" "p_PixelMap t = p_PixelMap (loaded A s)"
    "m_PixelMapSize t = m_PixelMapSize (loaded A s)" "p_Transform t = p_Transform (loaded A s)"
    using assms(1) by (simp_all add: loaded_def quiet_def same_setup_def)
  show "det_safe A t n d = det_safe A (loaded A s) n d"
    by (simp add: det_safe_def map_ok_def trans_ok_def i l assms(2) status_iparams_def Let_def)
  show "spec_cells M A t px tm d = spec_cells M A (loaded A s) px tm d"
    by (simp add: spec_cells_def spec_pixel_def spec_time_def i l assms(2) status_iparams_def Let_def)
  show "regular_det A t d = regular_det A (loaded A s) d"
    by (simp add: regular_det_def i l assms(2) status_iparams_def Let_def)
qed

lemma eh_events_ok:
  assumes "\<And>d. d \<in> set (det_range nd) \<Longrightarrow> det_safe A s (length xs) d" "p_Data s = Some xs"
  shows "\<exists>s'. eh_events M A nd paused np pc evs s = Inr s' \<and> same_setup A s s' \<and> data_len s' (length xs)"
proof (cases paused)
  case True
  then show ?thesis using assms(2) by (simp add: eh_events_def data_len_def)
next
  case False
  obtain t where t: "integrate_all M A (det_range nd) evs s = Inr t" "same_config s t" "data_len t (length xs)"
    using integrate_all_ok [where n = "length xs" and M = M and events = evs, OF assms(1)] assms(2)
    by (auto simp: data_len_def)
  have "same_setup A s t" using t(2) by (rule same_config_setup)
  with t False show ?thesis by (simp add: eh_events_def data_len_def same_setup_def)
qed

lemma eh_events_spec:
  assumes "\<And>d. d \<in> set (det_range nd) \<Longrightarrow> det_safe A s (length xs) d \<and> regular_det A s d" "p_Data s = Some xs"
  shows "\<exists>s'. eh_events M A nd paused np pc evs s = Inr s'
    \<and> p_Data s' = Some (if paused then xs else bumps (all_cells M A s (det_range nd) evs) xs)"
  using integrate_all_spec [where dets = "det_range nd" and M = M and events = evs, OF assms(1)] assms(2)
  by (auto simp: eh_events_def)

lemma eh_events_charge:
  assumes "eh_events M A nd paused np pc evs s = Inr s'"
  shows "m_pChargeInt s' = (if np \<and> \<not> paused then fadd (m_pChargeInt s) pc else m_pChargeInt s)
    \<and> m_pulseCounter s' = (if np \<and> \<not> paused then m_pulseCounter s + 1 else m_pulseCounter s)"
proof (cases paused)
  case True
  then show ?thesis using assms by (simp add: eh_events_def)
next
  case False
  then obtain t where "integrate_all M A (det_range nd) evs s = Inr t"
     "s' = (if np then t\<lparr>m_pChargeInt := fadd (m_pChargeInt t) pc, m_pulseCounter := m_pulseCounter t + 1\<rparr> else t)"
    using assms by (auto simp: eh_events_def)
  moreover from this(1) have "same_config s t" by (rule integrate_all_frame)
  ultimately show ?thesis using False by (simp add: same_config_fields)
qed

context asyn_port
begin

lemma eventHandler_ok:
  assumes "handler_ok A s"
  shows "\<exists>s'. eventHandler M A T sec ns pv ch s = Inr s' \<and> handler_ok A s' \<and> same_setup A s s'
    \<and> map_option length (p_Data s') = map_option length (p_Data s)"
proof (cases "accepted A T pv ch s")
  case False
  then obtain s' where "eventHandler M A T sec ns pv ch s = Inr s'" "quiet A s s'"
    using eventHandler_rejects by blast
  then show ?thesis using assms handler_ok_same [of A s s'] by (auto simp: quiet_def)
next
  case True
  obtain upd dt s4 pc where s4: "quiet A s s4" "m_det s4 = m_det (loaded A s)"
      and h: "eventHandler M A T sec ns pv ch s =
       res_bind (eh_events M A (num_dets A s) (is_paused A s) (new_pulse T pv ch s) pc (events_of pv) s4)
         (\<lambda>s5. Inr (if upd then eh_post M A (num_chans A s) (num_dets A s) dt pc s5 else s5))"
    using True by (rule eventHandler_accepts)
  obtain xs where xs: "p_Data s = Some xs" "p_Data s4 = Some xs"
    using True s4 by (auto simp: accepted_def quiet_def)
  have "det_safe A s4 (length xs) d" if "d \<in> set (active_dets A s)" for d
    using assms that True xs by (auto simp: det_safe_quiet [OF s4] handler_ok_def accepted_def)
  then obtain s5 where s5: "eh_events M A (num_dets A s) (is_paused A s) (new_pulse T pv ch s) pc (events_of pv) s4 = Inr s5"
      "same_setup A s4 s5" "data_len s5 (length xs)"
    using eh_events_ok [of "num_dets A s" A s4 xs] xs(2) unfolding active_dets_def by blast
  define s6 where "s6 = (if upd then eh_post M A (num_chans A s) (num_dets A s) dt pc s5 else s5)"
  have "quiet A s5 s6"
    by (simp add: s6_def eh_post_quiet [OF num_bounds])
  then have "same_setup A s s6" "p_Data s6 = p_Data s5"
    using s4(1) s5(2) by (auto simp: quiet_def intro: same_setup_trans)
  moreover have "map_option length (p_Data s5) = map_option length (p_Data s)"
    using s5(3) xs(1) by (auto simp: data_len_def split: option.splits)
  ultimately show ?thesis using h s5(1) handler_ok_same [of A s s6] assms by (simp add: s6_def [symmetric])
qed

lemma eventHandler_integrates:
  assumes "handler_ok A s" "accepted A T pv ch s" "\<not> is_paused A s" "p_Data s = Some xs"
    "\<forall>d\<in>set (active_dets A s). regular_det A (loaded A s) d"
  shows "\<exists>s'. eventHandler M A T sec ns pv ch s = Inr s'
    \<and> p_Data s' = Some (bumps (all_cells M A (loaded A s) (active_dets A s) (events_of pv)) xs)"
proof -
  obtain upd dt s4 pc where s4: "quiet A s s4" "m_det s4 = m_det (loaded A s)"
      and h: "eventHandler M A T sec ns pv ch s =
       res_bind (eh_events M A (num_dets A s) (is_paused A s) (new_pulse T pv ch s) pc (events_of pv) s4)
         (\<lambda>s5. Inr (if upd then eh_post M A (num_chans A s) (num_dets A s) dt pc s5 else s5))"
    using assms(2) by (rule eventHandler_accepts)
  note q = det_safe_quiet [OF s4]
  have xs: "p_Data s4 = Some xs" using assms(4) s4 by (simp add: quiet_def)
  have "det_safe A s4 (length xs) d \<and> regular_det A s4 d" if "d \<in> set (det_range (num_dets A s))" for d
    using assms that by (auto simp: q handler_ok_def accepted_def active_dets_def)
  then obtain s5 where s5: "eh_events M A (num_dets A s) False (new_pulse T pv ch s) pc (events_of pv) s4 = Inr s5"
      "p_Data s5 = Some (bumps (all_cells M A s4 (det_range (num_dets A s)) (events_of pv)) xs)"
    using eh_events_spec [where paused = False and M = M and np = "new_pulse T pv ch s" and pc = pc
        and evs = "events_of pv" and nd = "num_dets A s" and A = A and s = s4 and xs = xs] xs by auto
  have "spec_cells M A s4 = spec_cells M A (loaded A s)" by (intro ext) (rule q(2))
  then have cells: "all_cells M A s4 ds evs = all_cells M A (loaded A s) ds evs" for ds evs
    by (simp add: all_cells_def)
  have "p_Data (eh_post M A (num_chans A s) (num_dets A s) dt pc s5) = p_Data s5"
    using eh_post_quiet [OF num_bounds] unfolding quiet_def by blast
  then show ?thesis using h s5 assms(3) by (auto simp: cells active_dets_def)
qed

lemma eventHandler_charge:
  assumes "accepted A T pv ch s" "eventHandler M A T sec ns pv ch s = Inr s'" "pv_pcharge pv = Some pc"
  shows "m_pulseCounter s' = (if new_pulse T pv ch s \<and> \<not> is_paused A s then m_pulseCounter s + 1 else m_pulseCounter s)
    \<and> m_pChargeInt s' = (if new_pulse T pv ch s \<and> \<not> is_paused A s then fadd (m_pChargeInt s) pc else m_pChargeInt s)
    \<and> (is_paused A s \<longrightarrow> p_Data s' = p_Data s)"
proof -
  obtain upd dt s4 pc' where s4: "quiet A s s4" "pv_pcharge pv = Some pc'"
      and h: "eventHandler M A T sec ns pv ch s =
       res_bind (eh_events M A (num_dets A s) (is_paused A s) (new_pulse T pv ch s) pc' (events_of pv) s4)
         (\<lambda>s5. Inr (if upd then eh_post M A (num_chans A s) (num_dets A s) dt pc' s5 else s5))"
    using assms(1) by (rule eventHandler_accepts)
  obtain s5 where s5: "eh_events M A (num_dets A s) (is_paused A s) (new_pulse T pv ch s) pc (events_of pv) s4 = Inr s5"
      "s' = (if upd then eh_post M A (num_chans A s) (num_dets A s) dt pc s5 else s5)"
    using assms(2,3) s4(2) unfolding h by (auto elim!: res_bind_InrE)
  have "quiet A s5 s'" unfolding s5(2) by (simp add: eh_post_quiet [OF num_bounds])
  then show ?thesis
    using eh_events_charge [OF s5(1)] s4(1) s5(1) by (auto simp: quiet_def eh_events_def)
qed

end

section \<open>The configured driver of the scenario\<close>

lemma run_dets: "active_dets store_asyn run_state = [1, 2]"
  by (simp add: active_dets_def num_dets_def run_get run_ints_def demo_ints_def clamp_max_def det_range_def upt_rec)

lemma run_loaded:
  "m_tofMax (loaded store_asyn run_state) = 7" "p_PixelMap (loaded store_asyn run_state) d = None"
  "plib (loaded store_asyn run_state) = plib run_state" "m_PixelMapSize (loaded store_asyn run_state) d = 0"
  "p_Transform (loaded store_asyn run_state) d = Some run_transform"
  "d = 1 \<or> d = 2 \<Longrightarrow> m_det (loaded store_asyn run_state) d = load_det store_asyn (plib run_state) d"
  by (auto simp: loaded_def run_dets)

lemma run_safe: "d = 1 \<or> d = 2 \<Longrightarrow> det_safe store_asyn (loaded store_asyn run_state) 41 d"
  by (auto simp: det_safe_def map_ok_def trans_ok_def plot_ok_def run_loaded load_det_def run_get Let_def)
    (auto simp: run_ints_def demo_ints_def run_transform_inv)

lemma run_handler_ok: "handler_ok store_asyn run_state"
  using run_safe by (auto simp: handler_ok_def run_dets)

lemma run_plain: "d = 1 \<or> d = 2 \<Longrightarrow> regular_det store_asyn (loaded store_asyn run_state) d"
  by (auto simp: regular_det_def rect_ok_def run_loaded load_det_def run_get Let_def)
    (auto simp: run_ints_def demo_ints_def plot_type_defs)

definition run_update :: "(int \<times> int \<times> i32) pvdata" where
  "run_update = \<lparr>pv_timestamp = Ts_Value (1, 0, 0), pv_pcharge = Some (Fin 3),
     pv_pixels = Some [11, 102, 7], pv_tof = Some [3, 6, 1]\<rparr>"

lemma run_accepted: "accepted store_asyn demo_time run_update 0 run_state"
  by (simp add: accepted_def run_dets run_get run_update_def demo_time_def) (simp add: run_ints_def demo_ints_def)

lemma run_det_values:
  "load_det store_asyn (plib run_state) (Suc 0) = det_values0\<lparr>m_detStartValues := 10, m_detEndValues := 14, m_detSizeValues := 5,
     m_NDArrayTOFStartValues := 25, m_detTOFTransType := 1, m_detTOFTransScale := Fin 1, m_detPixelROISizeX := 1, m_detPixelROISizeY := 1, m_detPixelSizeX := 2\<rparr>"
  "load_det store_asyn (plib run_state) 2 = det_values0\<lparr>m_detStartValues := 100, m_detEndValues := 103, m_detSizeValues := 20,
     m_NDArrayStartValues := 5, m_NDArrayTOFStartValues := 33, m_detTOFTransScale := Fin 1, m_detPixelROISizeX := 1, m_detPixelROISizeY := 1,
     m_detPixelSizeX := 2\<rparr>"
  by (simp_all add: load_det_def run_get run_ints_def demo_ints_def run_doubles_def det_values0_def)

lemma run_times:
  "spec_time M (loaded store_asyn run_state) (Suc 0) 11 3 = Fin 6" "spec_time M (loaded store_asyn run_state) 2 102 6 = Fin 6"
proof -
  have v: "m_det (loaded store_asyn run_state) (Suc 0) = load_det store_asyn (plib run_state) (Suc 0)"
    "m_det (loaded store_asyn run_state) 2 = load_det store_asyn (plib run_state) 2"
    using run_loaded(6) [of 1] run_loaded(6) [of 2] by simp_all
  have "rnd 6 = Fin 6" using rnd_of_int [of 6] by simp
  then show "spec_time M (loaded store_asyn run_state) (Suc 0) 11 3 = Fin 6"
    by (simp add: spec_time_def v run_det_values run_loaded det_values0_def store_of_def run_transform_def
        trans_value_def f_of_u32_def Let_def)
  show "spec_time M (loaded store_asyn run_state) 2 102 6 = Fin 6"
    by (simp add: spec_time_def v run_det_values det_values0_def)
qed

lemma run_cells: "all_cells M store_asyn (loaded store_asyn run_state) [1, 2] (events_of run_update) = [1, 31, 11, 39]"
proof -
  have "m_det (loaded store_asyn run_state) (Suc 0) = load_det store_asyn (plib run_state) (Suc 0)"
    "m_det (loaded store_asyn run_state) 2 = load_det store_asyn (plib run_state) 2"
    using run_loaded(6) [of 1] run_loaded(6) [of 2] by simp_all
  moreover have "whole (fdiv (Fin 6) (Fin 1)) = 6" using raw_bin [of 6 1] by simp
  ultimately show ?thesis
    by (simp add: all_cells_def events_of_def run_update_def spec_cells_def spec_pixel_def run_loaded run_get
        run_det_values det_values0_def run_times Let_def)
      (simp add: spec_pixel_cells_def spec_tof_cells_def spec_index_def recorded_time_def run_ints_def demo_ints_def
        plot_type_defs Let_def)
qed

section \<open>Properties\<close>

text \<open>(C10) Memory safety of the event handler, for every update whatsoever. Under the invariant
  \<open>handler_ok\<close> (the loaded segments of every active detector lie in the buffer, its pixel map covers
  its range with values up to its size, its transformation arrays cover its range) the handler
  returns without a wild access or trapping division, for all pixel IDs, times of flight, time
  stamps and channel numbers, whatever the machine makes of conversions that do not fit; and the
  invariant, the length of the buffer and the configuration are as before.\<close>

theorem eventHandler_safe:
  assumes "asyn_port A" "handler_ok A s"
  shows "\<exists>s'. eventHandler M A T sec ns pv ch s = Inr s' \<and> handler_ok A s' \<and> same_setup A s s'
    \<and> map_option length (p_Data s') = map_option length (p_Data s)"
  using asyn_port.eventHandler_ok [OF assms] .

theorem eventHandler_safe_witness:
  "\<exists>s'. eventHandler demo_machine store_asyn demo_time 5 0 run_update 0 run_state = Inr s' \<and> handler_ok store_asyn s'
    \<and> map_option length (p_Data s') = Some 41"
  using eventHandler_safe [OF st.asyn_port_axioms run_handler_ok, of demo_machine demo_time 5 0 run_update 0] by auto

text \<open>(C4) What an accepted update does to the histograms. Every event of the update, in order, adds one to
  exactly the cells of the specification: its pixel's cell of the 2-D histogram (directly, or against
  the time-of-flight bin, or only inside the time-of-flight window) and its cell of the spectrum (only
  inside the X/Y rectangle when that is enabled). The time of flight is the raw one or, for a detector
  with a transformation, the transformed, scaled and shifted one. Every other cell keeps its value. The
  result does not depend on the machine's conversions from doubles to integers: those that the code
  makes are all in range.\<close>

theorem eventHandler_histogram:
  assumes "asyn_port A" "handler_ok A s" "accepted A T pv ch s" "\<not> is_paused A s" "p_Data s = Some xs"
    "\<forall>d\<in>set (active_dets A s). regular_det A (loaded A s) d"
  shows "\<exists>s' ys. eventHandler M A T sec ns pv ch s = Inr s' \<and> p_Data s' = Some ys \<and> length ys = length xs
    \<and> (\<forall>k < length xs. ys ! k = xs ! k
         + of_nat (count_list (all_cells M A (loaded A s) (active_dets A s) (events_of pv)) k))"
  using asyn_port.eventHandler_integrates [OF assms, of M sec ns] nth_bumps [of _ xs] by auto

theorem eventHandler_histogram_witness:
  "\<exists>s' ys. eventHandler demo_machine store_asyn demo_time 5 0 run_update 0 run_state = Inr s' \<and> p_Data s' = Some ys
    \<and> ys ! 1 = 1 \<and> ys ! 31 = 1 \<and> ys ! 11 = 1 \<and> ys ! 39 = 1 \<and> ys ! 0 = 0"
proof -
  have "\<not> is_paused store_asyn run_state" by (simp add: is_paused_def run_get run_ints_def demo_ints_def)
  moreover have "\<forall>d\<in>set (active_dets store_asyn run_state). regular_det store_asyn (loaded store_asyn run_state) d"
    using run_plain by (auto simp: run_dets)
  ultimately obtain s' ys where h: "eventHandler demo_machine store_asyn demo_time 5 0 run_update 0 run_state = Inr s'"
      "p_Data s' = Some ys" "\<forall>k < 41. ys ! k = replicate 41 0 ! k + of_nat (count_list [1, 31, 11, 39] k)"
    using eventHandler_histogram [OF st.asyn_port_axioms run_handler_ok run_accepted, of "replicate 41 0" demo_machine 5 0]
    unfolding run_dets run_cells by auto
  have "ys ! 1 = 1" "ys ! 31 = 1" "ys ! 11 = 1" "ys ! 39 = 1" "ys ! 0 = 0"
    using h(3) [rule_format, of 1] h(3) [rule_format, of 31] h(3) [rule_format, of 11] h(3) [rule_format, of 39]
      h(3) [rule_format, of 0] by simp_all
  with h(1,2) show ?thesis by blast
qed

text \<open>(C22) An update that the handler does not accept (channel number out of range, a region of
  interest of no width, no time stamp or one older than the last, no proton charge, no buffer,
  arrays missing or of different lengths) changes neither the histograms nor the pulse count nor
  the integrated charge, and returns normally in every configuration.\<close>

theorem eventHandler_rejected:
  assumes "asyn_port A" "\<not> accepted A T pv ch s"
  shows "\<exists>s'. eventHandler M A T sec ns pv ch s = Inr s' \<and> p_Data s' = p_Data s
    \<and> m_pulseCounter s' = m_pulseCounter s \<and> m_pChargeInt s' = m_pChargeInt s \<and> same_setup A s s'"
  using asyn_port.eventHandler_rejects [OF assms, of M sec ns] by (auto simp: quiet_def)

theorem eventHandler_rejected_witness:
  "\<exists>s'. eventHandler demo_machine store_asyn demo_time 5 0 (run_update\<lparr>pv_tof := Some [3]\<rparr>) 0 run_state = Inr s'
    \<and> p_Data s' = Some (replicate 41 0) \<and> m_pulseCounter s' = 0"
proof -
  have "\<not> accepted store_asyn demo_time (run_update\<lparr>pv_tof := Some [3]\<rparr>) 0 run_state"
    by (simp add: accepted_def run_update_def)
  from eventHandler_rejected [OF st.asyn_port_axioms this, of demo_machine 5 0] show ?thesis by auto
qed

text \<open>Pulses and charge. Of the accepted updates, those on channel 0 whose time stamp differs from
  the last one count one pulse and add their proton charge, unless the acquisition is paused; other
  updates leave both. A paused acquisition also leaves the histograms alone.\<close>

theorem eventHandler_pulse:
  assumes "asyn_port A" "accepted A T pv ch s" "pv_pcharge pv = Some pc" "eventHandler M A T sec ns pv ch s = Inr s'"
  shows "m_pulseCounter s' = (if new_pulse T pv ch s \<and> \<not> is_paused A s then m_pulseCounter s + 1 else m_pulseCounter s)
    \<and> m_pChargeInt s' = (if new_pulse T pv ch s \<and> \<not> is_paused A s then fadd (m_pChargeInt s) pc else m_pChargeInt s)
    \<and> (is_paused A s \<longrightarrow> p_Data s' = p_Data s)"
  using asyn_port.eventHandler_charge [OF assms(1,2,4,3)] .

theorem eventHandler_pulse_witness:
  "\<exists>s'. eventHandler demo_machine store_asyn demo_time 5 0 run_update 0 run_state = Inr s'
    \<and> m_pulseCounter s' = 1 \<and> m_pChargeInt s' = Fin 3"
proof -
  obtain s' where s': "eventHandler demo_machine store_asyn demo_time 5 0 run_update 0 run_state = Inr s'"
    using asyn_port.eventHandler_ok [OF st.asyn_port_axioms run_handler_ok] by blast
  have "\<not> is_paused store_asyn run_state" "new_pulse demo_time run_update 0 run_state"
    by (simp_all add: is_paused_def run_get run_ints_def demo_ints_def new_pulse_def run_update_def demo_time_def)
  moreover have "pv_pcharge run_update = Some (Fin 3)" "rnd 3 = Fin 3"
    using rnd_of_int [of 3] by (simp_all add: run_update_def)
  ultimately show ?thesis
    using eventHandler_pulse [OF st.asyn_port_axioms run_accepted _ s', of "Fin 3"] s' by simp
qed

end
