(* ===== verification/Acquisition.thy ===== *)
theory Acquisition
  imports Handler
begin

text \<open>
  From allocation to acquisition: when \<open>allocArray\<close> succeeds on a configuration whose detectors are
  consistent (\<open>det_config\<close>), the handler's invariant holds, and any sequence of updates, on any
  channels, runs without a fault.
\<close>

section \<open>A consistent configuration\<close>

text \<open>The detector values the handler will load once the arrays are allocated.\<close>

definition planned :: "'p asyn \<Rightarrow> ('p, 't) adned \<Rightarrow> ('p, 't) adned" where
  "planned A s = s\<lparr>m_det := (\<lambda>d. (load_det A (plib s) d)\<lparr>m_detSizeValues := det_size A (plib s) d\<rparr>),
     m_tofMax := getIntegerParam A (plib s) 0 ADnEDTOFMax\<rparr>"

definition det_config :: "'p asyn \<Rightarrow> ('p, 't) adned \<Rightarrow> nat \<Rightarrow> bool" where
  "det_config A s d \<longleftrightarrow> (let v = m_det (planned A s) d in
     0 \<le> sint (m_detStartValues v)
     \<and> uint (m_detEndValues v) - uint (m_detStartValues v) < uint (m_detSizeValues v)
     \<and> map_ok (planned A s) d \<and> trans_ok (planned A s) d
     \<and> (getIntegerParam A (plib s) d ADnEDDet2DType \<noteq> PLOT_XY \<longrightarrow> plot_ok (m_tofMax (planned A s)) v))"

lemma load_det_layout:
  assumes "only_layout A p p'"
  shows "load_det A p' d = (load_det A p d)\<lparr>
     m_detSizeValues := getIntegerParam A p' d ADnEDDetPixelNumSize,
     m_NDArrayStartValues := getIntegerParam A p' d ADnEDDetNDArrayStart,
     m_NDArrayTOFStartValues := getIntegerParam A p' d ADnEDDetNDArrayTOFStart\<rparr>"
  using assms by (simp add: only_layout_def load_det_def layout_iparams_def)

lemma det_safe_allocated:
  assumes config: "alloc_config A (plib s) n tofMax" and d: "d \<in> {1..n}" and ok: "det_config A s d"
    and only: "only_layout A (plib s) (plib s')" and pub: "published A (plib s') (sizes_of A (plib s)) n tofMax"
    and same: "m_tofMax s' = of_nat tofMax" "p_PixelMap s' = p_PixelMap s" "m_PixelMapSize s' = m_PixelMapSize s"
      "p_Transform s' = p_Transform s"
    and act: "d \<in> set (active_dets A s')"
  shows "det_safe A (loaded A s') (buf_len (sizes_of A (plib s)) n tofMax) d"
proof -
  define S where "S = sizes_of A (plib s)"
  define N where "N = buf_len S n tofMax"
  define v where "v = m_det (planned A s) d"
  define v' where "v' = m_det (loaded A s') d"
  have N: "N < 2 ^ 31" and tm: "getIntegerParam A (plib s) 0 ADnEDTOFMax = of_nat tofMax"
    using config by (simp_all add: alloc_config_def N_def S_def)
  have pix: "pix_off S d + S d \<le> pix_off S (Suc n)" using d pix_off_next [of d "Suc n" S] by simp
  have last: "pix_off S (Suc n) < N" using d by (simp add: pix_off_total N_def buf_len_def)
  have tof: "tof_off S n tofMax d + tofMax < N"
    using d lay.inside [of "n + d" n S tofMax] by (simp add: seg_start_def seg_len_def N_def)
  have w: "uint (m_NDArrayStartValues v') = int (pix_off S d)" "uint (m_detSizeValues v') = int (S d)"
    "uint (m_NDArrayTOFStartValues v') = int (tof_off S n tofMax d)"
    using pub d act sint32_pos_uint
    by (auto simp: published_def v'_def loaded_def load_det_def S_def dest!: bspec [where x = d])
  have sz: "m_detSizeValues v' = det_size A (plib s) d"
    using w(2) by (simp add: S_def sizes_of_def word_uint_eq_iff)
  have v': "v' = v\<lparr>m_NDArrayStartValues := m_NDArrayStartValues v', m_NDArrayTOFStartValues := m_NDArrayTOFStartValues v'\<rparr>"
    using load_det_layout [OF only, of d] act sz by (simp add: v'_def v_def loaded_def planned_def)
  have utm: "uint (m_tofMax s') = int tofMax" "m_tofMax s' = m_tofMax (planned A s)"
    using tof N same(1) uint32_of_int [of "int tofMax"] by (simp_all add: planned_def tm)
  have len: "uint (m_NDArrayStartValues v') + uint (m_detSizeValues v') < int N"
     "uint (m_NDArrayTOFStartValues v') + uint (m_tofMax s') < int N" "int N \<le> 2 ^ 31"
    using pix last tof N unfolding w utm(1) by simp_all
  have c: "0 \<le> sint (m_detStartValues v)" "map_ok (planned A s) d" "trans_ok (planned A s) d"
    "uint (m_detEndValues v) - uint (m_detStartValues v) < uint (m_detSizeValues v)"
    "getIntegerParam A (plib s) d ADnEDDet2DType \<noteq> PLOT_XY \<longrightarrow> plot_ok (m_tofMax s') v"
    using ok by (simp_all add: det_config_def v_def utm(2) Let_def)
  have f: "m_detStartValues v' = m_detStartValues v" "m_detEndValues v' = m_detEndValues v"
    "m_detSizeValues v' = m_detSizeValues v" "m_detPixelMappingEnabled v' = m_detPixelMappingEnabled v"
    "m_detTOFTransType v' = m_detTOFTransType v" "m_detPixelSizeX v' = m_detPixelSizeX v"
    by (subst v', simp)+
  have rng: "m_detStartValues v \<le> m_detEndValues v \<longrightarrow>
      m_detEndValues v - m_detStartValues v \<le> m_detSizeValues v"
    using c(4) by (auto simp: word_le_def uint32_diff)
  have ty: "getIntegerParam A (plib s') d ADnEDDet2DType = getIntegerParam A (plib s) d ADnEDDet2DType"
    using only by (simp add: only_layout_def layout_iparams_def)
  have l: "plib (loaded A s') = plib s'" "m_tofMax (loaded A s') = m_tofMax s'" "p_PixelMap (loaded A s') = p_PixelMap s"
    "m_PixelMapSize (loaded A s') = m_PixelMapSize s" "p_Transform (loaded A s') = p_Transform s"
    "p_PixelMap (planned A s) = p_PixelMap s" "m_PixelMapSize (planned A s) = m_PixelMapSize s"
    "p_Transform (planned A s) = p_Transform s"
    by (simp_all add: loaded_def planned_def same)
  have m: "map_ok (loaded A s') d" "trans_ok (loaded A s') d" "plot_ok (m_tofMax s') v = plot_ok (m_tofMax s') v'"
    using c(2,3) unfolding map_ok_def trans_ok_def plot_ok_def Let_def v_def [symmetric] v'_def [symmetric] l f by simp_all
  show ?thesis
    unfolding det_safe_def Let_def v'_def [symmetric] l(1,2) N_def [symmetric] S_def [symmetric]
    using len m c(5) rng unfolding f ty by simp
qed

section \<open>Any sequence of updates\<close>

type_synonym 't update = "u32 \<times> u32 \<times> 't pvdata \<times> u32"

definition run_updates :: "machine \<Rightarrow> 'p asyn \<Rightarrow> 't pvtime \<Rightarrow> 't update list \<Rightarrow> ('p, 't) adned \<Rightarrow> ('p, 't) adned res" where
  "run_updates M A T ups s = foldR (\<lambda>(sec, ns, pv, ch). eventHandler M A T sec ns pv ch) ups s"

context asyn_port
begin

lemma run_updates_ok:
  assumes "handler_ok A s"
  shows "\<exists>s'. run_updates M A T ups s = Inr s' \<and> handler_ok A s' \<and> same_setup A s s'
    \<and> map_option length (p_Data s') = map_option length (p_Data s)"
proof -
  define I where "I = (\<lambda>s'. handler_ok A s' \<and> same_setup A s s' \<and> map_option length (p_Data s') = map_option length (p_Data s))"
  have "\<exists>s'. foldR (\<lambda>(sec, ns, pv, ch). eventHandler M A T sec ns pv ch) ups s = Inr s' \<and> I s'"
  proof (rule foldR_total)
    show "I s" using assms by (simp add: I_def)
    show "\<exists>t. (\<lambda>(sec, ns, pv, ch). eventHandler M A T sec ns pv ch) u s' = Inr t \<and> I t" if "I s'" for u s'
    proof (cases u)
      case (fields sec ns pv ch)
      then show ?thesis
        using that eventHandler_ok [of s' M T sec ns pv ch] by (auto simp: I_def intro: same_setup_trans)
    qed
  qed
  then show ?thesis by (simp add: run_updates_def I_def)
qed

lemma allocArray_handler_ok:
  assumes config: "alloc_config A (plib s) n tofMax" and dets: "\<And>d. d \<in> {1..n} \<Longrightarrow> det_config A s d"
    and todo: "m_dataAlloc s" and mem: "alloc_ok (buf_len (sizes_of A (plib s)) n tofMax)"
  shows "\<exists>s'. allocArray alloc_ok A s = (asynSuccess, s') \<and> handler_ok A s'
     \<and> p_Data s' = Some (replicate (buf_len (sizes_of A (plib s)) n tofMax) 0)
     \<and> published A (plib s') (sizes_of A (plib s)) n tofMax"
proof -
  define N where "N = buf_len (sizes_of A (plib s)) n tofMax"
  obtain p where p: "published A p (sizes_of A (plib s)) n tofMax" "only_layout A (plib s) p"
      "allocArray alloc_ok A s = (asynSuccess,
      s\<lparr>plib := setI A 0 ADnEDAllocSpaceStatus ALLOC_STATUS_OK p,
        m_dataMaxSize := of_nat (\<Sum>d\<in>{1..n}. sizes_of A (plib s) d),
        m_bufferMaxSize := of_nat N, m_tofMax := of_nat tofMax, m_dataAlloc := False,
        p_Data := Some (replicate N 0)\<rparr>)" (is "_ = (_, ?s')")
    using allocArray_eq [OF config todo, of alloc_ok N] mem unfolding N_def by blast
  have pub: "published A (plib ?s') (sizes_of A (plib s)) n tofMax"
    and only: "only_layout A (plib s) (plib ?s')"
    using p(1,2) by (simp_all add: published_status only_layout_status)
  have "getIntegerParam A (plib ?s') 0 ADnEDNumDet = of_nat n"
    using only config by (simp add: only_layout_def layout_iparams_def alloc_config_def)
  then have "set (active_dets A ?s') = {1..n}"
    using config by (auto simp: active_dets_def num_dets_def clamp_max_def det_range_def alloc_config_def sint32_of_nat)
  then have "handler_ok A ?s'"
    using det_safe_allocated [OF config _ _ only pub] dets unfolding N_def by (simp add: handler_ok_def)
  then show ?thesis using p(3) pub by (simp add: N_def)
qed

end

section \<open>From allocation to acquisition\<close>

lemma demo_det_config: "d = 1 \<or> d = 2 \<Longrightarrow> det_config store_asyn demo_state d"
proof -
  have "planned store_asyn demo_state = demo_state\<lparr>
      m_det := (\<lambda>d. (load_det store_asyn demo_store d)\<lparr>m_detSizeValues := det_size store_asyn demo_store d\<rparr>),
      m_tofMax := 7\<rparr>"
    by (simp add: planned_def demo_get demo_ints_def)
  then show "d = 1 \<or> d = 2 \<Longrightarrow> det_config store_asyn demo_state d"
    by (auto simp: det_config_def map_ok_def trans_ok_def plot_ok_def load_det_def det_size_def demo_get Let_def)
      (auto simp: demo_ints_def)
qed

text \<open>(C7) Allocation makes acquisition safe. On a configuration whose detectors are consistent (ranges
  that fit their size, pixel maps that cover the range with values up to the size, transformation
  arrays that cover it, plots against time of flight whose indices fit an \<open>int\<close>), \<open>allocArray\<close>
  succeeds, and after it every finite sequence of updates on any channels runs to its end without a
  fault and keeps the size of the buffer.\<close>

theorem acquisition_safe:
  assumes "asyn_port A" "alloc_config A (plib s) n tofMax" "\<forall>d\<in>{1..n}. det_config A s d" "m_dataAlloc s"
    "alloc_ok (buf_len (sizes_of A (plib s)) n tofMax)"
  shows "\<exists>s1 s'. allocArray alloc_ok A s = (asynSuccess, s1) \<and> run_updates M A T ups s1 = Inr s'
    \<and> map_option length (p_Data s') = Some (buf_len (sizes_of A (plib s)) n tofMax)"
proof -
  obtain s1 where s1: "allocArray alloc_ok A s = (asynSuccess, s1)" "handler_ok A s1"
      "p_Data s1 = Some (replicate (buf_len (sizes_of A (plib s)) n tofMax) 0)"
    using asyn_port.allocArray_handler_ok [OF assms(1,2) _ assms(4), of alloc_ok] assms(3,5) by blast
  then show ?thesis
    using asyn_port.run_updates_ok [OF assms(1) s1(2), of M T ups] by auto
qed

theorem acquisition_safe_witness:
  "\<exists>s1 s'. allocArray (calloc_ok demo_machine) store_asyn demo_state = (asynSuccess, s1)
    \<and> run_updates demo_machine store_asyn demo_time [(5, 0, run_update, 0), (6, 0, run_update, 3)] s1 = Inr s'
    \<and> map_option length (p_Data s') = Some 41"
proof -
  have "buf_len (sizes_of store_asyn demo_store) 2 7 = 41" using demo_sizes by (simp add: buf_len_def one_to_two)
  moreover have "\<forall>d\<in>{1..2}. det_config store_asyn demo_state d" using demo_det_config by (auto simp: one_to_two)
  ultimately show ?thesis
    using acquisition_safe [OF st.asyn_port_axioms, of demo_state 2 7 "calloc_ok demo_machine" demo_machine demo_time
        "[(5, 0, run_update, 0), (6, 0, run_update, 3)]"] demo_config
    by (simp add: demo_machine_def)
qed

end
