(* ===== verification/Stamps.thy ===== *)
theory Stamps
  imports Acquisition
begin

text \<open>
  Time stamps and sequence numbers of the channels. pvData's \<open>TimeStamp\<close> is not part of the
  repository: \<open>pv_time\<close> names what the handler relies on, that copying the seconds and nanoseconds of
  a time stamp copies its time, and that \<open>>\<close> orders time stamps by time.
\<close>

locale pv_time =
  fixes T :: "'t pvtime"
  assumes put_secs: "ts_secs T (ts_put T (ts_secs T y) (ts_nsecs T y) x) = ts_secs T y"
    and put_nsecs: "ts_nsecs T (ts_put T (ts_secs T y) (ts_nsecs T y) x) = ts_nsecs T y"
    and gt_iff: "ts_gt T x y \<longleftrightarrow>
      ts_secs T y < ts_secs T x \<or> ts_secs T y = ts_secs T x \<and> ts_nsecs T y < ts_nsecs T x"
begin

lemma copy_gt: "ts_gt T x (ts_put T (ts_secs T y) (ts_nsecs T y) z) \<longleftrightarrow> ts_gt T x y"
  by (simp add: gt_iff put_secs put_nsecs)

lemma not_gt_refl: "\<not> ts_gt T x x"
  by (simp add: gt_iff)

lemma not_gt_trans: "\<not> ts_gt T x y \<Longrightarrow> \<not> ts_gt T y z \<Longrightarrow> \<not> ts_gt T x z"
  by (auto simp: gt_iff)

end

text \<open>The handler tells pulses apart by \<open>!=\<close>, which compares times as well.\<close>

locale pv_clock = pv_time +
  assumes ne_iff: "ts_ne T x y \<longleftrightarrow> ts_secs T x \<noteq> ts_secs T y \<or> ts_nsecs T x \<noteq> ts_nsecs T y"

interpretation dt: pv_clock demo_time
  by unfold_locales (auto simp: demo_time_def)

section \<open>The last time stamp of a channel\<close>

text \<open>An update gets past the time stamp check: its channel exists, every active detector has a region of
  some width, and its time stamp is not older than the last one of the channel.\<close>

definition stamped :: "'p asyn \<Rightarrow> 't pvtime \<Rightarrow> 't pvdata \<Rightarrow> u32 \<Rightarrow> ('p, 't) adned \<Rightarrow> bool" where
  "stamped A T pv ch s \<longleftrightarrow> unat ch < ADNED_MAX_CHANNELS
     \<and> (\<forall>d\<in>set (active_dets A s). 0 < sint (getIntegerParam A (plib s) d ADnEDDetPixelROISizeX))
     \<and> (case pv_timestamp pv of Ts_Value ts \<Rightarrow> \<not> ts_gt T (m_TimeStampLast s (unat ch)) ts | _ \<Rightarrow> False)"

definition new_last :: "'t pvtime \<Rightarrow> nat \<Rightarrow> 't ts_field \<Rightarrow> (nat \<Rightarrow> 't) \<Rightarrow> nat \<Rightarrow> 't" where
  "new_last T chan tsf prev = (case tsf of
     Ts_Value ts \<Rightarrow> prev(chan := ts_put T (ts_secs T ts) (ts_nsecs T ts) (prev chan)) | _ \<Rightarrow> prev)"

lemma eh_stamp_last:
  "eh_stamp A T chan tsf s = (go, np, s') \<Longrightarrow>
    m_TimeStampLast s' = (if go then new_last T chan tsf (m_TimeStampLast s) else m_TimeStampLast s)"
  by (auto simp: eh_stamp_def eh_sequence_def new_last_def Let_def split: ts_field.splits if_splits)

lemma fold_post_last:
  "m_TimeStampLast (fold (post_channel A) cs t) = m_TimeStampLast t"
  "m_TimeStampLast (fold (post_det M A dt) ds t) = m_TimeStampLast t"
proof -
  show "m_TimeStampLast (fold (post_channel A) cs t) = m_TimeStampLast t"
    by (induction cs arbitrary: t) (simp_all add: post_channel_def)
  show "m_TimeStampLast (fold (post_det M A dt) ds t) = m_TimeStampLast t"
    by (induction ds arbitrary: t) (simp_all add: post_det_def)
qed

lemma eh_post_last: "m_TimeStampLast (eh_post M A nc nd dt pc s) = m_TimeStampLast s"
  by (simp add: eh_post_def Let_def fold_post_last)

lemma eh_packet_last:
  assumes "eh_packet M A nc nd paused upd dt np pv s = Inr s'"
  shows "m_TimeStampLast s' = m_TimeStampLast s"
proof -
  have "m_TimeStampLast t' = m_TimeStampLast t" if ev: "eh_events M A nd paused np pc evs t = Inr t'" for pc evs t t'
  proof (cases paused)
    case True
    then show ?thesis using ev by (simp add: eh_events_def)
  next
    case False
    then obtain u where "integrate_all M A (det_range nd) evs t = Inr u"
       "t' = (if np then u\<lparr>m_pChargeInt := fadd (m_pChargeInt u) pc, m_pulseCounter := m_pulseCounter u + 1\<rparr> else u)"
      using ev by (auto simp: eh_events_def)
    moreover from this(1) have "same_config t u" by (rule integrate_all_frame)
    ultimately show ?thesis by (auto elim: same_config_cases)
  qed
  note events = this
  have "s' = s \<or> (\<exists>pc evs e t'. eh_events M A nd paused np pc evs (s\<lparr>m_eventsSinceLastUpdate := e\<rparr>) = Inr t'
      \<and> s' = (if upd then eh_post M A nc nd dt pc t' else t'))"
    using assms
    by (cases upd) (auto simp: eh_packet_def Let_def res_bind_Inr_iff split: option.splits if_splits)
  then show ?thesis
    by (auto simp: eh_post_last dest!: events)
qed

lemma eventHandler_last:
  assumes "eventHandler M A T sec ns pv ch s = Inr s'"
  shows "m_TimeStampLast s' = (if stamped A T pv ch s
    then new_last T (unat ch) (pv_timestamp pv) (m_TimeStampLast s) else m_TimeStampLast s)"
proof -
  obtain upd dt s1 where c: "eh_clock A sec ns s = (upd, dt, s1)" by (cases "eh_clock A sec ns s")
  have s1: "m_TimeStampLast s1 = m_TimeStampLast s" "plib s1 = plib s"
    using c by (auto simp: eh_clock_def Let_def split: if_splits)
  obtain go s2 where l: "load_dets A (active_dets A s) s1 = (go, s2)" by (cases "load_dets A (active_dets A s) s1")
  obtain st np s3 where t: "eh_stamp A T (unat ch) (pv_timestamp pv) s2 = (st, np, s3)"
    by (cases "eh_stamp A T (unat ch) (pv_timestamp pv) s2")
  note lr = load_dets_result [OF l, unfolded s1(2)]
  have s2: "m_TimeStampLast s2 = m_TimeStampLast s" using lr s1(1) by auto
  have go: "stamped A T pv ch s \<longleftrightarrow> unat ch < ADNED_MAX_CHANNELS \<and> go \<and> st"
    using lr eh_stamp_value [OF t, unfolded s2] by (auto simp: stamped_def)
  have h: "eventHandler M A T sec ns pv ch s = (if unat ch \<ge> ADNED_MAX_CHANNELS then Inr s1 else if \<not> go then Inr s2
      else if \<not> st then Inr s3 else eh_packet M A (num_chans A s) (num_dets A s) (is_paused A s) upd dt np pv s3)"
    using l unfolding active_dets_def num_dets_def num_chans_def is_paused_def by (simp add: eventHandler_def c s1(2) t)
  show ?thesis
  proof (cases "stamped A T pv ch s")
    case True
    then have e: "eh_packet M A (num_chans A s) (num_dets A s) (is_paused A s) upd dt np pv s3 = Inr s'"
      using assms go by (simp add: h)
    show ?thesis using True go eh_packet_last [OF e] eh_stamp_last [OF t, unfolded s2] by simp
  next
    case False
    then show ?thesis using assms go s1(1) s2 eh_stamp_last [OF t, unfolded s2] by (auto simp: h split: if_splits)
  qed
qed

context pv_time
begin

lemma eventHandler_forward:
  assumes "eventHandler M A T sec ns pv ch s = Inr s'"
  shows "\<not> ts_gt T (m_TimeStampLast s c) (m_TimeStampLast s' c)"
  unfolding eventHandler_last [OF assms]
  by (auto simp: stamped_def new_last_def copy_gt not_gt_refl split: ts_field.splits)

lemma run_updates_forward:
  assumes "run_updates M A T ups s = Inr s'"
  shows "\<not> ts_gt T (m_TimeStampLast s c) (m_TimeStampLast s' c)"
  using assms unfolding run_updates_def
proof (rule foldR_inv [where I = "\<lambda>t. \<not> ts_gt T (m_TimeStampLast s c) (m_TimeStampLast t c)", rotated 2])
  show "\<not> ts_gt T (m_TimeStampLast s c) (m_TimeStampLast s c)" by (rule not_gt_refl)
  show "\<not> ts_gt T (m_TimeStampLast s c) (m_TimeStampLast t' c)"
    if "\<not> ts_gt T (m_TimeStampLast s c) (m_TimeStampLast t c)"
      "(\<lambda>(sec, ns, pv, ch). eventHandler M A T sec ns pv ch) u t = Inr t'" for u t t'
    using that by (cases u) (auto dest: not_gt_trans dest!: eventHandler_forward [where c = c])
qed

end

text \<open>(C30) Time on a channel never runs backwards: along any sequence of updates, on any channels, the
  last accepted time stamp of a channel is never later than the one after the sequence.\<close>

theorem time_stamps_forward:
  assumes "pv_time T" "run_updates M A T ups s = Inr s'"
  shows "\<not> ts_gt T (m_TimeStampLast s c) (m_TimeStampLast s' c)"
  using pv_time.run_updates_forward [OF assms] .

theorem time_stamps_forward_witness:
  "\<exists>s'. run_updates demo_machine store_asyn demo_time [(5, 0, run_update, 0)] run_state = Inr s'
    \<and> \<not> ts_gt demo_time (m_TimeStampLast run_state 0) (m_TimeStampLast s' 0)"
proof -
  obtain s' where s': "run_updates demo_machine store_asyn demo_time [(5, 0, run_update, 0)] run_state = Inr s'"
    using asyn_port.run_updates_ok [OF st.asyn_port_axioms run_handler_ok] by blast
  show ?thesis using s' time_stamps_forward [OF dt.pv_time_axioms s', of 0] by blast
qed

section \<open>Sequence numbers\<close>

text \<open>Detection of lost packets. When \<open>g\<close> sequence numbers are skipped between two packets of a
  channel, the first missing number is reported and the count of missing packets grows, by \<open>g + 2\<close>;
  consecutive numbers report nothing. (The count that the names suggest is \<open>g\<close>: the code adds
  \<open>seqID - lastSeqID + 1\<close>.)\<close>

theorem sequence_gap:
  assumes "asyn_port A" "chan < ADNED_MAX_CHANNELS" "m_lastSeqID s chan \<noteq> -1"
    "m_seqID s chan = m_lastSeqID s chan + 1 + of_nat g" "g < 2 ^ 32"
  shows "getIntegerParam A (plib (eh_sequence A chan s)) chan ADnEDSeqIDNumMissing =
      getIntegerParam A (plib s) chan ADnEDSeqIDNumMissing + (if g = 0 then 0 else of_nat g + 2)
    \<and> getIntegerParam A (plib (eh_sequence A chan s)) chan ADnEDSeqIDMissing =
      (if g = 0 then getIntegerParam A (plib s) chan ADnEDSeqIDMissing else m_lastSeqID s chan + 1)
    \<and> m_lastSeqID (eh_sequence A chan s) chan = m_seqID s chan"
proof -
  have g: "(of_nat g :: 32 word) = 0 \<longleftrightarrow> g = 0"
    using assms(5) unat32_of_nat [of g] by (auto simp: unat_eq_0 [symmetric])
  have "sint (m_lastSeqID s chan) \<noteq> -1" using assms(3) by (metis signed_minus_1 signed_word_eqI)
  then show ?thesis
    using assms(2,4) g by (auto simp: eh_sequence_def Let_def asyn_port.get_set_int [OF assms(1)] algebra_simps)
qed

theorem sequence_gap_witness:
  "getIntegerParam store_asyn (plib (eh_sequence store_asyn 0
       (run_state\<lparr>m_lastSeqID := (\<lambda>_. 10), m_seqID := (\<lambda>_. 14)\<rparr>))) 0 ADnEDSeqIDNumMissing = 5"
  using sequence_gap [OF st.asyn_port_axioms, of 0 "run_state\<lparr>m_lastSeqID := (\<lambda>_. 10), m_seqID := (\<lambda>_. 14)\<rparr>" 3]
  by (simp add: run_get run_ints_def demo_ints_def)

end
