(* ===== verification/History.thy ===== *)
theory History
  imports Stamps
begin

text \<open>
  A whole acquisition, against a specification that knows nothing of buffers and parameters. The \<open>tally\<close> of an acquisition is
  the last instant of each channel, the events accepted so far, the number of pulses and the charge. \<open>tally_update\<close> is
  what one update does to it. The handler implements it: after any sequence of updates the driver's state is \<open>counted\<close> by the tally.
\<close>

section \<open>The specification\<close>

record tally =
  t_last :: "nat \<Rightarrow> int \<times> int"
  t_events :: "(u32 \<times> u32) list"
  t_pulses :: u32
  t_charge :: f64

definition instant :: "'t pvtime \<Rightarrow> 't \<Rightarrow> int \<times> int" where
  "instant T ts = (ts_secs T ts, ts_nsecs T ts)"

definition earlier :: "int \<times> int \<Rightarrow> int \<times> int \<Rightarrow> bool" where
  "earlier a b \<longleftrightarrow> fst a < fst b \<or> fst a = fst b \<and> snd a < snd b"

text \<open>The update carries a charge, and as many times of flight as pixels.\<close>

definition complete :: "'t pvdata \<Rightarrow> bool" where
  "complete pv \<longleftrightarrow> pv_pcharge pv \<noteq> None \<and> (case (pv_pixels pv, pv_tof pv) of
     (Some ps, Some ts) \<Rightarrow> (of_nat (length ps) :: u32) = of_nat (length ts) | _ \<Rightarrow> False)"

text \<open>Events and, for a new pulse, the charge of an update.\<close>

definition add_packet :: "bool \<Rightarrow> 't pvdata \<Rightarrow> tally \<Rightarrow> tally" where
  "add_packet new pv a = (let b = a\<lparr>t_events := t_events a @ events_of pv\<rparr> in
     case pv_pcharge pv of Some pc \<Rightarrow> if new then b\<lparr>t_pulses := t_pulses b + 1, t_charge := fadd (t_charge b) pc\<rparr> else b
     | None \<Rightarrow> b)"

definition tally_update :: "'t pvtime \<Rightarrow> bool \<Rightarrow> 't update \<Rightarrow> tally \<Rightarrow> tally" where
  "tally_update T paused = (\<lambda>(sec, ns, pv, ch) a.
     case pv_timestamp pv of
       Ts_Value ts \<Rightarrow>
         let c = unat ch; now = instant T ts
         in if c < ADNED_MAX_CHANNELS \<and> \<not> earlier now (t_last a c)
            then let b = a\<lparr>t_last := (t_last a)(c := now)\<rparr>
                 in if complete pv \<and> \<not> paused then add_packet (c = 0 \<and> now \<noteq> t_last a 0) pv b else b
            else a
     | _ \<Rightarrow> a)"

section \<open>The simulation\<close>

definition counted :: "machine \<Rightarrow> 'p asyn \<Rightarrow> 't pvtime \<Rightarrow> ('p, 't) adned \<Rightarrow> u32 list \<Rightarrow> ('p, 't) adned \<Rightarrow> tally \<Rightarrow> bool" where
  "counted M A T s0 xs s a \<longleftrightarrow> same_setup A s0 s \<and> (\<forall>c. t_last a c = instant T (m_TimeStampLast s c))
     \<and> p_Data s = Some (bumps (all_cells M A (loaded A s0) (active_dets A s0) (t_events a)) xs)
     \<and> m_pulseCounter s = t_pulses a \<and> m_pChargeInt s = t_charge a"

text \<open>The tally an acquisition starts with.\<close>

definition first_tally :: "'t pvtime \<Rightarrow> ('p, 't) adned \<Rightarrow> tally" where
  "first_tally T s = \<lparr>t_last = (\<lambda>c. instant T (m_TimeStampLast s c)), t_events = [],
     t_pulses = m_pulseCounter s, t_charge = m_pChargeInt s\<rparr>"

lemma counted_first: "p_Data s = Some xs \<Longrightarrow> counted M A T s xs s (first_tally T s)"
  by (simp add: counted_def first_tally_def all_cells_def)

text \<open>What the configuration of an acquisition must be for the specification to apply.\<close>

definition countable :: "'p asyn \<Rightarrow> ('p, 't) adned \<Rightarrow> bool" where
  "countable A s \<longleftrightarrow> handler_ok A s \<and> p_Data s \<noteq> None \<and> m_dataMaxSize s \<noteq> 0
     \<and> (\<forall>d\<in>set (active_dets A s). regular_det A (loaded A s) d
          \<and> 0 < sint (getIntegerParam A (plib s) d ADnEDDetPixelROISizeX))"

lemma same_setup_ints:
  assumes "same_setup A s0 s" "q \<notin> status_iparams"
  shows "getIntegerParam A (plib s) a q = getIntegerParam A (plib s0) a q"
  using assms by (simp add: same_setup_def keeps_config_def)

lemma same_setup_spec:
  assumes "same_setup A s0 s" "d \<in> set (active_dets A s0)"
  shows "regular_det A (loaded A s) d = regular_det A (loaded A s0) d"
    "spec_cells M A (loaded A s) px t d = spec_cells M A (loaded A s0) px t d"
proof -
  note i = same_setup_ints [OF assms(1)]
  have act: "active_dets A s = active_dets A s0" using same_setup_loaded(1) [OF assms(1)] .
  have p: "keeps_config A (plib s0) (plib s)" using assms(1) by (simp add: same_setup_def)
  have l: "m_det (loaded A s) d = m_det (loaded A s0) d" using assms(2) by (simp add: loaded_def act load_det_keeps [OF p])
  have f: "plib (loaded A s) = plib s" "plib (loaded A s0) = plib s0" "m_tofMax (loaded A s) = m_tofMax (loaded A s0)"
    "p_PixelMap (loaded A s) = p_PixelMap (loaded A s0)" "m_PixelMapSize (loaded A s) = m_PixelMapSize (loaded A s0)"
    "p_Transform (loaded A s) = p_Transform (loaded A s0)"
    using assms(1) by (simp_all add: loaded_def same_setup_def)
  show "regular_det A (loaded A s) d = regular_det A (loaded A s0) d"
    by (simp add: regular_det_def i l f status_iparams_def Let_def)
  show "spec_cells M A (loaded A s) px t d = spec_cells M A (loaded A s0) px t d"
    by (simp add: spec_cells_def spec_pixel_def spec_time_def i l f status_iparams_def Let_def)
qed

lemma same_setup_cells:
  assumes "same_setup A s0 s"
  shows "all_cells M A (loaded A s) (active_dets A s) evs = all_cells M A (loaded A s0) (active_dets A s0) evs"
proof -
  have "map (spec_cells M A (loaded A s) px t) (active_dets A s) = map (spec_cells M A (loaded A s0) px t) (active_dets A s0)" for px t
    using same_setup_spec(2) [OF assms] same_setup_loaded(1) [OF assms] by (intro map_cong) auto
  then show ?thesis by (simp add: all_cells_def)
qed

lemma all_cells_append: "all_cells M A s ds (es @ fs) = all_cells M A s ds es @ all_cells M A s ds fs"
  by (simp add: all_cells_def)

text \<open>The configuration is that of the start all along.\<close>

lemma same_setup_countable:
  assumes "same_setup A s0 s" "countable A s0" "p_Data s0 = Some xs" "p_Data s = Some ys" "length ys = length xs"
  shows "countable A s" "is_paused A s = is_paused A s0"
proof -
  note i = same_setup_ints [OF assms(1)]
  have "handler_ok A s" using handler_ok_same [OF assms(1)] assms(2-5) by (simp add: countable_def)
  moreover have "m_dataMaxSize s = m_dataMaxSize s0" using assms(1) by (simp add: same_setup_def)
  ultimately show "countable A s"
    using assms(2,4) same_setup_spec(1) [OF assms(1)] same_setup_loaded(1) [OF assms(1)]
    by (simp add: countable_def i status_iparams_def)
  show "is_paused A s = is_paused A s0" by (simp add: is_paused_def i status_iparams_def)
qed

lemma accepted_iff: "countable A s \<Longrightarrow> accepted A T pv ch s \<longleftrightarrow> stamped A T pv ch s \<and> complete pv"
  by (auto simp: countable_def accepted_def stamped_def complete_def)

context pv_clock
begin

lemma gt_earlier: "ts_gt T x y \<longleftrightarrow> earlier (instant T y) (instant T x)"
  by (auto simp: gt_iff earlier_def instant_def)

lemma stamped_iff:
  "countable A s \<Longrightarrow> stamped A T pv ch s \<longleftrightarrow> unat ch < ADNED_MAX_CHANNELS
    \<and> (\<exists>ts. pv_timestamp pv = Ts_Value ts \<and> \<not> earlier (instant T ts) (instant T (m_TimeStampLast s (unat ch))))"
  by (auto simp: countable_def stamped_def gt_earlier split: ts_field.splits)

lemma instant_last:
  "instant T (new_last T chan (Ts_Value ts) l c) = (if c = chan then instant T ts else instant T (l c))"
  by (simp add: new_last_def instant_def put_secs put_nsecs)

lemma new_pulse_iff:
  "pv_timestamp pv = Ts_Value ts \<Longrightarrow> new_pulse T pv ch s \<longleftrightarrow> unat ch = 0 \<and> instant T ts \<noteq> instant T (m_TimeStampLast s 0)"
  by (auto simp: new_pulse_def ne_iff instant_def unat_eq_0)

text \<open>An update that is not integrated, because it is rejected or the acquisition is paused.\<close>

lemma tally_quiet:
  assumes "counted M A T s0 xs s a" "countable A s" "is_paused A s = paused" "\<not> (accepted A T pv ch s \<and> \<not> paused)"
  shows "tally_update T paused (sec, ns, pv, ch) a = (if stamped A T pv ch s then a\<lparr>t_last := \<lambda>c.
      instant T (new_last T (unat ch) (pv_timestamp pv) (m_TimeStampLast s) c)\<rparr> else a)"
proof -
  have l: "t_last a c = instant T (m_TimeStampLast s c)" for c using assms(1) by (simp add: counted_def)
  show ?thesis
    using assms(4) accepted_iff [OF assms(2), of T pv ch]
    by (auto simp: tally_update_def l stamped_iff [OF assms(2)] instant_last Let_def fun_eq_iff split: ts_field.splits)
qed

text \<open>An update that is integrated.\<close>

lemma tally_accepted:
  assumes "counted M A T s0 xs s a" "countable A s" "accepted A T pv ch s"
  shows "tally_update T False (sec, ns, pv, ch) a = add_packet (new_pulse T pv ch s) pv (a\<lparr>t_last := \<lambda>c.
      instant T (new_last T (unat ch) (pv_timestamp pv) (m_TimeStampLast s) c)\<rparr>)"
proof -
  have l: "t_last a c = instant T (m_TimeStampLast s c)" for c using assms(1) by (simp add: counted_def)
  obtain ts where ts: "pv_timestamp pv = Ts_Value ts" "unat ch < ADNED_MAX_CHANNELS" "complete pv"
      "\<not> earlier (instant T ts) (instant T (m_TimeStampLast s (unat ch)))"
    using assms(3) accepted_iff [OF assms(2)] stamped_iff [OF assms(2)] by blast
  have "(t_last a)(unat ch := instant T ts) = (\<lambda>c. instant T (new_last T (unat ch) (pv_timestamp pv) (m_TimeStampLast s) c))"
    by (simp add: fun_eq_iff l ts(1) instant_last)
  then show ?thesis using ts by (simp add: tally_update_def l new_pulse_iff [OF ts(1)] Let_def)
qed

lemma counted_step:
  assumes "asyn_port A" "countable A s0" "p_Data s0 = Some xs" "counted M A T s0 xs s a"
  shows "\<exists>s'. eventHandler M A T sec ns pv ch s = Inr s'
    \<and> counted M A T s0 xs s' (tally_update T (is_paused A s0) (sec, ns, pv, ch) a)"
proof -
  define ks where "ks = all_cells M A (loaded A s0) (active_dets A s0) (t_events a)"
  have st: "same_setup A s0 s" "p_Data s = Some (bumps ks xs)" "m_pulseCounter s = t_pulses a" "m_pChargeInt s = t_charge a"
    and last: "\<forall>c. t_last a c = instant T (m_TimeStampLast s c)"
    using assms(4) by (simp_all add: counted_def ks_def)
  note c = same_setup_countable [OF st(1) assms(2,3) st(2) length_bumps]
  have ok: "handler_ok A s" "\<forall>d\<in>set (active_dets A s). regular_det A (loaded A s) d" using c(1) by (simp_all add: countable_def)
  obtain s' where s': "eventHandler M A T sec ns pv ch s = Inr s'" "same_setup A s s'"
    using asyn_port.eventHandler_ok [OF assms(1) ok(1)] by blast
  have set': "same_setup A s0 s'" using st(1) s'(2) by (rule same_setup_trans)
  note lt = eventHandler_last [OF s'(1)]
  show ?thesis
  proof (cases "accepted A T pv ch s \<and> \<not> is_paused A s0")
    case True
    then obtain pc where pc: "pv_pcharge pv = Some pc" by (auto simp: accepted_def)
    have "p_Data s' = Some (bumps (all_cells M A (loaded A s) (active_dets A s) (events_of pv)) (bumps ks xs))"
      using asyn_port.eventHandler_integrates [OF assms(1) ok(1) _ _ st(2) ok(2), of T pv ch M sec ns] True s'(1) c(2) by auto
    then have d: "p_Data s' = Some (bumps (ks @ all_cells M A (loaded A s0) (active_dets A s0) (events_of pv)) xs)"
      by (simp add: same_setup_cells [OF st(1)])
    have "stamped A T pv ch s" using True accepted_iff [OF c(1)] by blast
    then show ?thesis
      using True asyn_port.eventHandler_charge [OF assms(1) _ s'(1) pc] s' set' d lt tally_accepted [OF assms(4) c(1), of pv ch sec ns]
      by (auto simp: counted_def add_packet_def pc st c(2) all_cells_append ks_def Let_def)
  next
    case False
    then have "p_Data s' = p_Data s \<and> m_pulseCounter s' = m_pulseCounter s \<and> m_pChargeInt s' = m_pChargeInt s"
      using asyn_port.eventHandler_charge [OF assms(1) _ s'(1)] asyn_port.eventHandler_rejects [OF assms(1), of T pv ch s M sec ns] s'(1)
      by (cases "accepted A T pv ch s") (auto simp: quiet_def c(2) accepted_def)
    then show ?thesis
      using s' set' st last lt tally_quiet [OF assms(4) c False, of sec ns] by (simp add: counted_def ks_def)
  qed
qed

lemma counted_run:
  assumes "asyn_port A" "countable A s0" "p_Data s0 = Some xs"
  shows "counted M A T s0 xs s a \<Longrightarrow> \<exists>s'. run_updates M A T ups s = Inr s'
    \<and> counted M A T s0 xs s' (fold (tally_update T (is_paused A s0)) ups a)"
proof (induction ups arbitrary: s a)
  case Nil
  then show ?case by (simp add: run_updates_def)
next
  case (Cons u ups)
  obtain sec ns pv ch where u: "u = (sec, ns, pv, ch)" by (metis prod_cases4)
  obtain s1 where s1: "eventHandler M A T sec ns pv ch s = Inr s1"
      "counted M A T s0 xs s1 (tally_update T (is_paused A s0) u a)"
    using counted_step [OF assms Cons.prems, of sec ns pv ch] unfolding u by blast
  then show ?case using Cons.IH [OF s1(2)] by (simp add: run_updates_def u)
qed

end

section \<open>An acquisition counts what it should\<close>

text \<open>(C1) The driver implements its specification, over a whole acquisition. On a configuration that the invariant of the handler
  covers, any sequence of updates on any channels runs to its end; and then
  every cell of the buffer has grown by exactly the number of times that the events of the accepted updates hit it, and the pulses, the
  charge and the last instants of the channels are those of the tally. An update counts when its channel exists, it is complete, and
  it is not older than the last one of its channel; a pulse counts when the instant on channel 0 changes.\<close>

theorem acquisition_counts:
  assumes "asyn_port A" "pv_clock T" "countable A s" "p_Data s = Some xs"
    and a: "a = fold (tally_update T (is_paused A s)) ups (first_tally T s)"
  shows "\<exists>s' ys. run_updates M A T ups s = Inr s' \<and> p_Data s' = Some ys \<and> length ys = length xs
    \<and> (\<forall>k < length xs. ys ! k = xs ! k + of_nat (count_list (all_cells M A (loaded A s) (active_dets A s) (t_events a)) k))
    \<and> m_pulseCounter s' = t_pulses a \<and> m_pChargeInt s' = t_charge a
    \<and> (\<forall>c. instant T (m_TimeStampLast s' c) = t_last a c)"
  using pv_clock.counted_run [OF assms(2,1,3,4) counted_first [OF assms(4)], of M ups] nth_bumps [of _ xs]
  by (auto simp: counted_def a)

lemma run_countable: "countable store_asyn run_state"
  using run_handler_ok run_plain
  by (auto simp: countable_def run_dets run_get) (auto simp: run_ints_def demo_ints_def)

theorem acquisition_counts_witness:
  "\<exists>s' ys. run_updates demo_machine store_asyn demo_time
      [(5, 0, run_update, 0), (6, 0, run_update, 0), (7, 0, run_update\<lparr>pv_timestamp := Ts_Value (0, 9, 0)\<rparr>, 0)] run_state = Inr s'
    \<and> p_Data s' = Some ys \<and> ys ! 1 = 2 \<and> ys ! 39 = 2 \<and> ys ! 0 = 0 \<and> m_pulseCounter s' = 1 \<and> m_pChargeInt s' = Fin 3"
proof -
  define a where "a = fold (tally_update demo_time (is_paused store_asyn run_state))
      [(5, 0, run_update, 0), (6, 0, run_update, 0), (7, 0, run_update\<lparr>pv_timestamp := Ts_Value (0, 9, 0)\<rparr>, 0)]
      (first_tally demo_time run_state)"
  have "\<not> is_paused store_asyn run_state" by (simp add: is_paused_def run_get run_ints_def demo_ints_def)
  moreover have "rnd 3 = Fin 3" using rnd_of_int [of 3] by simp
  ultimately have t: "t_events a = events_of run_update @ events_of run_update" "t_pulses a = 1" "t_charge a = Fin 3"
    by (simp_all add: a_def tally_update_def run_update_def complete_def add_packet_def earlier_def instant_def demo_time_def
        first_tally_def Let_def)
  have "count_list (all_cells demo_machine store_asyn (loaded store_asyn run_state) (active_dets store_asyn run_state) (t_events a)) =
      count_list ([1, 31, 11, 39] @ [1, 31, 11, 39])"
    unfolding t run_dets all_cells_append run_cells ..
  with acquisition_counts [OF st.asyn_port_axioms dt.pv_clock_axioms run_countable _ a_def, of "replicate 41 0" demo_machine] t
  obtain s' ys where "run_updates demo_machine store_asyn demo_time
        [(5, 0, run_update, 0), (6, 0, run_update, 0), (7, 0, run_update\<lparr>pv_timestamp := Ts_Value (0, 9, 0)\<rparr>, 0)] run_state = Inr s'"
      "p_Data s' = Some ys" "\<forall>k < 41. ys ! k = replicate 41 0 ! k + of_nat (count_list ([1, 31, 11, 39] @ [1, 31, 11, 39]) k)"
      "m_pulseCounter s' = 1" "m_pChargeInt s' = Fin 3"
    by auto
  moreover from this(3) [rule_format, of 1] this(3) [rule_format, of 39] this(3) [rule_format, of 0]
  have "ys ! 1 = 2" "ys ! 39 = 2" "ys ! 0 = 0" by simp_all
  ultimately show ?thesis by blast
qed

end
