(* ===== verification/PluginLib.thy ===== *)
theory PluginLib
  imports Float64 Blocks
begin

text \<open>
  What the two plugins use of areaDetector, which is not part of the repository. An \<open>NDArray\<close> has a number
  of dimensions, their sizes, and a block of elements whose type is its \<open>dataType\<close>. The integer parameters
  of a plugin are a library \<open>('p, 'k) params\<close> over the plugin's own parameter names \<open>'k\<close>, with the laws
  of locale \<open>plugin_port\<close>; a parameter that has been created but not set reads as 0.
\<close>

section \<open>NDArrays\<close>

datatype nd_data =
    NDInt8 "8 word list" | NDUInt8 "8 word list" | NDInt16 "16 word list" | NDUInt16 "16 word list"
  | NDInt32 "32 word list" | NDUInt32 "32 word list" | NDFloat32 "f64 list" | NDFloat64 "f64 list"
  | NDOther nat

fun nd_length :: "nd_data \<Rightarrow> nat" where
  "nd_length (NDInt8 xs) = length xs"
| "nd_length (NDUInt8 xs) = length xs"
| "nd_length (NDInt16 xs) = length xs"
| "nd_length (NDUInt16 xs) = length xs"
| "nd_length (NDInt32 xs) = length xs"
| "nd_length (NDUInt32 xs) = length xs"
| "nd_length (NDFloat32 xs) = length xs"
| "nd_length (NDFloat64 xs) = length xs"
| "nd_length (NDOther n) = n"

text \<open>\<open>NDDataType_t\<close> as a number.\<close>

fun nd_type :: "nd_data \<Rightarrow> i32" where
  "nd_type (NDInt8 _) = 0"
| "nd_type (NDUInt8 _) = 1"
| "nd_type (NDInt16 _) = 2"
| "nd_type (NDUInt16 _) = 3"
| "nd_type (NDInt32 _) = 4"
| "nd_type (NDUInt32 _) = 5"
| "nd_type (NDFloat32 _) = 6"
| "nd_type (NDFloat64 _) = 7"
| "nd_type (NDOther _) = 8"

record NDDimension =
  d_size :: u64
  d_offset :: u64
  d_binning :: i32

record NDArray =
  ndims :: nat
  nd_dims :: "nat \<Rightarrow> NDDimension"
  pData :: nd_data

record NDArrayInfo =
  xSize :: u64
  ySize :: u64
  xStride :: u64
  yStride :: u64

text \<open>The casts of C++: an \<open>int\<close> to \<open>size_t\<close> extends the sign, \<open>size_t\<close> to \<open>int\<close> keeps the low bits.\<close>

abbreviation size_of_int :: "i32 \<Rightarrow> u64" where "size_of_int \<equiv> scast"
abbreviation int_of_size :: "u64 \<Rightarrow> i32" where "int_of_size \<equiv> ucast"

text \<open>\<open>size_t\<close> to \<open>float\<close> and to \<open>double\<close>: round to nearest even with 24 or 53 bits.\<close>

definition f32_of_size :: "u64 \<Rightarrow> f64" where
  "f32_of_size w = (let r = of_int (uint w); u = pow2 (rexp r - 23)
     in if w = 0 then Fin 0 else Fin (of_int (round_even (r / u)) * u))"

definition f64_of_size :: "u64 \<Rightarrow> f64" where
  "f64_of_size w = rnd (of_int (uint w))"

section \<open>Plugin parameters\<close>

record ('p, 'k) params =
  pget :: "'p \<Rightarrow> nat \<Rightarrow> 'k \<Rightarrow> i32"
  pset :: "nat \<Rightarrow> 'k \<Rightarrow> i32 \<Rightarrow> 'p \<Rightarrow> 'p"
  pcalls :: "nat \<Rightarrow> 'p \<Rightarrow> 'p"
  pset_string :: "nat \<Rightarrow> 'k \<Rightarrow> string \<Rightarrow> 'p \<Rightarrow> 'p"
  pcreate :: "'k \<Rightarrow> 'p \<Rightarrow> 'p"

locale plugin_port =
  fixes L :: "('p, 'k) params" and addrs :: nat
  assumes pget_pset: "a < addrs \<Longrightarrow> pget L (pset L a q v p) b r = (if b = a \<and> r = q then v else pget L p b r)"
    and pget_pcalls: "pget L (pcalls L a p) b r = pget L p b r"
    and pget_pset_string: "pget L (pset_string L a q str p) b r = pget L p b r"
    and pget_pcreate: "pget L (pcreate L q p) b r = (if r = q then 0 else pget L p b r)"

definition fun_params :: "nat \<Rightarrow> (nat \<Rightarrow> 'k \<Rightarrow> i32, 'k) params" where
  "fun_params addrs = \<lparr>pget = (\<lambda>p. p),
     pset = (\<lambda>a q v p. if a < addrs then p(a := (p a)(q := v)) else p), pcalls = (\<lambda>a p. p),
     pset_string = (\<lambda>a q str p. p), pcreate = (\<lambda>q p a. (p a)(q := 0))\<rparr>"

interpretation fp: plugin_port "fun_params n" n for n
  by unfold_locales (auto simp: fun_params_def)

section \<open>64-bit sizes\<close>

lemma unat64_less_iff: "(a :: u64) < b \<longleftrightarrow> unat a < unat b"
  by (simp add: word_less_nat_alt)

lemma unat_ucast_u32 [simp]: "unat (ucast (w :: u32) :: u64) = unat w"
proof -
  have "unat w < 2 ^ 32" using unsigned_less [of w] by simp
  then show ?thesis by (simp add: unsigned_ucast_eq take_bit_nat_eq_self)
qed

lemma unat64_lt: "unat (w :: u64) < 2 ^ 64"
  using unsigned_less [of w, where 'a = nat] by simp

lemma unat_size_mult:
  "unat (a :: u64) * unat (b :: u64) < 2 ^ 64 \<Longrightarrow> unat (a * b) = unat a * unat b"
  by (simp add: unat_word_ariths)

lemma unat_size_add:
  "unat (a :: u64) + unat (b :: u64) < 2 ^ 64 \<Longrightarrow> unat (a + b) = unat a + unat b"
  by (simp add: unat_word_ariths)

lemma unat_size_of_nat: "n < 2 ^ 64 \<Longrightarrow> unat (of_nat n :: u64) = n"
  by (simp add: unat_of_nat)

lemma size_of_int_nonneg:
  assumes "0 \<le> sint (i :: i32)"
  shows "unat (size_of_int i) = nat (sint i)" "unat (size_of_int i) < 2 ^ 31"
proof -
  have lt: "sint i < 2 ^ 31" using sint_lt [of i] by simp
  have "uint (size_of_int i) = sint i mod 2 ^ 64" unfolding scast_eq uint_word_of_int by simp
  also have "\<dots> = sint i" using assms lt by (intro mod_pos_pos_trivial) simp_all
  finally show u: "unat (size_of_int i) = nat (sint i)" unfolding unat_eq_nat_uint by simp
  show "unat (size_of_int i) < 2 ^ 31" unfolding u using assms lt by simp
qed

end
