(* ===== verification/MaskPlugin.thy ===== *)
theory MaskPlugin
  imports PluginLib
begin

text \<open>
  \<open>ADnEDPluginMask.cpp\<close>: the plugin that overwrites a rectangle of a 1-D or 2-D array, or everything
  outside it. \<open>doMaskT\<close> is the template over the element type, with the cast of the mask value to that type as
  an argument. A mask's members are \<open>size_t\<close>, so its position and size are 64-bit words and the arithmetic
  wraps. The pool's \<open>copy\<close>, \<open>getInfo\<close> and \<open>beginProcessCallbacks\<close> are areaDetector's: arguments of
  \<open>processCallbacks\<close>. The \<open>unlock()\<close> and \<open>lock()\<close> around the masking are left out: it only uses members that no other
  thread touches. Then the constructor, and the plugin as it lives on from there (\<open>mask_run\<close>).
\<close>

section \<open>State\<close>

definition MASK_TYPE_REJECT :: u32 where "MASK_TYPE_REJECT = 0"
definition MASK_TYPE_PASS :: u32 where "MASK_TYPE_PASS = 1"

record NDMask =
  PosX :: u64
  PosY :: u64
  SizeX :: u64
  SizeY :: u64
  MaskVal :: u64
  MaskType :: u64

datatype mask_param =
    NDPluginMaskUse | NDPluginMaskMaxSizeX | NDPluginMaskMaxSizeY | NDPluginMaskPosX | NDPluginMaskPosY
  | NDPluginMaskSizeX | NDPluginMaskSizeY | NDPluginMaskVal | NDPluginMaskType | NDPluginMaskName
  | MaskPluginType | MaskArrayCallbacks | MaskBase nat

record 'p mask_plugin =
  mp_params :: 'p
  maxMasks :: i32
  arrayInfo :: NDArrayInfo
  pMasks :: "NDMask list"
  xArrayMax :: u32
  yArrayMax :: u32
  pArrays0 :: "NDArray option"

text \<open>The macros \<open>MAX(A,B)\<close> and \<open>MIN(A,B)\<close> on \<open>size_t\<close>.\<close>

definition size_max :: "u64 \<Rightarrow> u64 \<Rightarrow> u64" where "size_max a b = (if b < a then a else b)"
definition size_min :: "u64 \<Rightarrow> u64 \<Rightarrow> u64" where "size_min a b = (if a < b then a else b)"

section \<open>Masking\<close>

text \<open>\<open>(xmin, xmax)\<close>, and the same for Y.\<close>

definition mask_span :: "u64 \<Rightarrow> u64 \<Rightarrow> u32 \<Rightarrow> u64 \<times> u64" where
  "mask_span pos sz arrayMax = (size_max pos 0, size_min (pos + sz) (ucast arrayMax))"

definition outside :: "nat \<Rightarrow> u64 \<Rightarrow> u64 \<Rightarrow> bool" where
  "outside i lo hi \<longleftrightarrow> i < unat lo \<or> unat hi \<le> i"

definition put_cell :: "NDArrayInfo \<Rightarrow> 'e \<Rightarrow> nat \<Rightarrow> nat \<Rightarrow> 'e list \<Rightarrow> 'e list res" where
  "put_cell info v iy ix = mem_write (int (unat (of_nat iy * yStride info) + unat (of_nat ix * xStride info))) v"

definition doMaskT ::
    "(u64 \<Rightarrow> 'e) \<Rightarrow> NDArrayInfo \<Rightarrow> u32 \<Rightarrow> u32 \<Rightarrow> nat \<Rightarrow> NDMask option \<Rightarrow> 'e list \<Rightarrow> 'e list res" where
  "doMaskT cast info xMax yMax nd pMask =
     (let (xmin, xmax) = (case pMask of None \<Rightarrow> (0, 0) | Some m \<Rightarrow> mask_span (PosX m) (SizeX m) xMax);
          (ymin, ymax) = (case pMask of None \<Rightarrow> (0, 0) | Some m \<Rightarrow> mask_span (PosY m) (SizeY m) yMax);
          mask_val = (case pMask of None \<Rightarrow> 0 | Some m \<Rightarrow> MaskVal m);
          mask_type = (case pMask of None \<Rightarrow> 0 | Some m \<Rightarrow> MaskType m)
      in if nd = 1 then
           if mask_type = ucast MASK_TYPE_REJECT
           then foldR (put_cell info (cast mask_val) 0) [unat xmin..<unat xmax]
           else if mask_type = ucast MASK_TYPE_PASS
           then foldR (\<lambda>ix. if outside ix xmin xmax then put_cell info (cast mask_val) 0 ix else Inr) [0..<unat xMax]
           else Inr
         else if nd = 2 then
           if mask_type = ucast MASK_TYPE_REJECT
           then foldR (\<lambda>iy. foldR (put_cell info (cast mask_val) iy) [unat xmin..<unat xmax]) [unat ymin..<unat ymax]
           else if mask_type = ucast MASK_TYPE_PASS
           then foldR (\<lambda>iy. foldR (\<lambda>ix. if outside ix xmin xmax \<or> outside iy ymin ymax
                  then put_cell info (cast mask_val) iy ix else Inr) [0..<unat xMax]) [0..<unat yMax]
           else Inr
         else Inr)"

text \<open>\<open>doMask\<close> instantiates the template at the array's element type.\<close>

definition doMask :: "NDArrayInfo \<Rightarrow> u32 \<Rightarrow> u32 \<Rightarrow> NDArray option \<Rightarrow> NDMask option \<Rightarrow> (bool \<times> NDArray option) res" where
  "doMask info xMax yMax pArray pMask =
     (case pArray of
        None \<Rightarrow> Inr (False, None)
      | Some a \<Rightarrow>
          case pData a of
               NDInt8 xs \<Rightarrow> res_bind (doMaskT ucast info xMax yMax (ndims a) pMask xs) (\<lambda>ys. Inr (True, Some (a\<lparr>pData := NDInt8 ys\<rparr>)))
             | NDUInt8 xs \<Rightarrow> res_bind (doMaskT ucast info xMax yMax (ndims a) pMask xs) (\<lambda>ys. Inr (True, Some (a\<lparr>pData := NDUInt8 ys\<rparr>)))
             | NDInt16 xs \<Rightarrow> res_bind (doMaskT ucast info xMax yMax (ndims a) pMask xs) (\<lambda>ys. Inr (True, Some (a\<lparr>pData := NDInt16 ys\<rparr>)))
             | NDUInt16 xs \<Rightarrow> res_bind (doMaskT ucast info xMax yMax (ndims a) pMask xs) (\<lambda>ys. Inr (True, Some (a\<lparr>pData := NDUInt16 ys\<rparr>)))
             | NDInt32 xs \<Rightarrow> res_bind (doMaskT ucast info xMax yMax (ndims a) pMask xs) (\<lambda>ys. Inr (True, Some (a\<lparr>pData := NDInt32 ys\<rparr>)))
             | NDUInt32 xs \<Rightarrow> res_bind (doMaskT ucast info xMax yMax (ndims a) pMask xs) (\<lambda>ys. Inr (True, Some (a\<lparr>pData := NDUInt32 ys\<rparr>)))
             | NDFloat32 xs \<Rightarrow> res_bind (doMaskT f32_of_size info xMax yMax (ndims a) pMask xs) (\<lambda>ys. Inr (True, Some (a\<lparr>pData := NDFloat32 ys\<rparr>)))
             | NDFloat64 xs \<Rightarrow> res_bind (doMaskT f64_of_size info xMax yMax (ndims a) pMask xs) (\<lambda>ys. Inr (True, Some (a\<lparr>pData := NDFloat64 ys\<rparr>)))
             | NDOther n \<Rightarrow> Inr (False, Some a))"

section \<open>Callback\<close>

text \<open>\<open>pMask->PosX = itemp; MAX(..., 0); MIN(..., xArrayMax-1)\<close> and the same for the size. The subtraction
  \<open>xArrayMax-1\<close> is in 32 bits, \<open>xArrayMax-(pMask->PosX)\<close> in 64.\<close>

definition clamp_pos :: "i32 \<Rightarrow> u32 \<Rightarrow> u64" where
  "clamp_pos itemp arrayMax = size_min (size_max (size_of_int itemp) 0) (ucast (arrayMax - 1))"

definition clamp_size :: "i32 \<Rightarrow> u32 \<Rightarrow> u64 \<Rightarrow> u64" where
  "clamp_size itemp arrayMax pos = size_min (size_max (size_of_int itemp) 0) (ucast arrayMax - pos)"

definition fetch_mask :: "('p, mask_param) params \<Rightarrow> u32 \<Rightarrow> u32 \<Rightarrow> nat \<Rightarrow> nat \<Rightarrow> 'p \<Rightarrow> NDMask \<Rightarrow> NDMask" where
  "fetch_mask L xMax yMax nd msk p m =
     (let posX = clamp_pos (pget L p msk NDPluginMaskPosX) xMax;
          sizeX = clamp_size (pget L p msk NDPluginMaskSizeX) xMax posX;
          m1 = m\<lparr>PosX := posX, SizeX := sizeX\<rparr>;
          posY = clamp_pos (pget L p msk NDPluginMaskPosY) yMax;
          sizeY = clamp_size (pget L p msk NDPluginMaskSizeY) yMax posY;
          m2 = (if nd > 1 then m1\<lparr>PosY := posY, SizeY := sizeY\<rparr> else m1)
      in m2\<lparr>MaskVal := size_of_int (pget L p msk NDPluginMaskVal),
            MaskType := size_of_int (pget L p msk NDPluginMaskType)\<rparr>)"

definition put_back :: "('p, mask_param) params \<Rightarrow> nat \<Rightarrow> nat \<Rightarrow> NDMask \<Rightarrow> 'p \<Rightarrow> 'p" where
  "put_back L nd msk m p =
     (let p1 = pset L msk NDPluginMaskSizeX (int_of_size (SizeX m)) (pset L msk NDPluginMaskPosX (int_of_size (PosX m)) p)
      in if nd > 1
         then pset L msk NDPluginMaskSizeY (int_of_size (SizeY m)) (pset L msk NDPluginMaskPosY (int_of_size (PosY m)) p1)
         else p1)"

text \<open>One turn of the loop over the masks; \<open>nd\<close> is the number of dimensions of the input array.\<close>

definition mask_turn :: "('p, mask_param) params \<Rightarrow> nat \<Rightarrow> nat \<Rightarrow> 'p mask_plugin \<Rightarrow> 'p mask_plugin res" where
  "mask_turn L nd msk s =
     (if pget L (mp_params s) msk NDPluginMaskUse = 0 then Inr s
      else if length (pMasks s) \<le> msk then Inl Oob_Write
      else
        let m = fetch_mask L (xArrayMax s) (yArrayMax s) nd msk (mp_params s) (pMasks s ! msk);
            p = put_back L nd msk m (mp_params s)
        in res_bind (doMask (arrayInfo s) (xArrayMax s) (yArrayMax s) (pArrays0 s) (Some m)) (\<lambda>(status, out).
             Inr (s\<lparr>pMasks := (pMasks s)[msk := m], pArrays0 := out, mp_params := pcalls L msk p\<rparr>)))"

definition mask_processCallbacks ::
    "('p, mask_param) params \<Rightarrow> (NDArray \<Rightarrow> 'p \<Rightarrow> 'p) \<Rightarrow> (NDArray \<Rightarrow> NDArray option) \<Rightarrow> (NDArray \<Rightarrow> NDArrayInfo)
      \<Rightarrow> NDArray \<Rightarrow> 'p mask_plugin \<Rightarrow> (NDArray \<times> 'p mask_plugin) res" where
  "mask_processCallbacks L beginProcessCallbacks copy getInfo pArray s =
     (let s1 = s\<lparr>mp_params := beginProcessCallbacks pArray (mp_params s), pArrays0 := copy pArray\<rparr>
      in case copy pArray of
           None \<Rightarrow> Inl Null_Deref
         | Some out \<Rightarrow>
             let info = getInfo out;
                 p = pset L 0 NDPluginMaskMaxSizeY (int_of_size (ySize info))
                       (pset L 0 NDPluginMaskMaxSizeX (int_of_size (xSize info)) (mp_params s1));
                 s2 = s1\<lparr>arrayInfo := info, mp_params := p, xArrayMax := ucast (xSize info), yArrayMax := ucast (ySize info)\<rparr>
             in res_bind (foldR (mask_turn L (ndims pArray)) [0..<nat (sint (maxMasks s2))] s2) (\<lambda>s3.
                  case pArrays0 s3 of
                    None \<Rightarrow> Inl Null_Deref
                  | Some a \<Rightarrow> Inr (a, s3\<lparr>mp_params := pcalls L 0 (mp_params s3)\<rparr>)))"

section \<open>Constructor\<close>

text \<open>\<open>callocMustSucceed n\<close> says whether \<open>n\<close> masks can be had: when not, the call does not return. The base
  class is handed \<open>maxMasks\<close> as its number of addresses; \<open>p0\<close> is what its constructor leaves, \<open>info0\<close> the
  array information that nothing sets before the first array. \<open>NDArrayCallbacks\<close> and \<open>NDPluginDriverPluginType\<close> are
  parameters of the base classes.\<close>

definition zero_mask :: NDMask where
  "zero_mask = \<lparr>PosX = 0, PosY = 0, SizeX = 0, SizeY = 0, MaskVal = 0, MaskType = 0\<rparr>"

definition new_NDPluginMask ::
    "('p, mask_param) params \<Rightarrow> (u64 \<Rightarrow> bool) \<Rightarrow> NDArrayInfo \<Rightarrow> i32 \<Rightarrow> 'p \<Rightarrow> 'p mask_plugin option" where
  "new_NDPluginMask L callocMustSucceed info0 n p0 =
     (if \<not> callocMustSucceed (size_of_int n) then None
      else
        let p1 = fold (pcreate L) [NDPluginMaskName, NDPluginMaskUse, NDPluginMaskMaxSizeX, NDPluginMaskMaxSizeY, NDPluginMaskPosX,
              NDPluginMaskPosY, NDPluginMaskSizeX, NDPluginMaskSizeY, NDPluginMaskVal, NDPluginMaskType] p0;
            p2 = pset_string L 0 MaskPluginType ''NDPluginMask'' p1;
            p3 = pset L 0 MaskArrayCallbacks 1 p2
        in Some \<lparr>mp_params = p3, maxMasks = n, arrayInfo = info0, pMasks = replicate (unat (size_of_int n)) zero_mask,
              xArrayMax = 0, yArrayMax = 0, pArrays0 = None\<rparr>)"

text \<open>The life of a plugin: clients change its parameters, then the next array arrives. Delivered are the arrays and, with
  each, the parameters as they are then.\<close>

fun mask_run ::
    "('p, mask_param) params \<Rightarrow> (NDArray \<Rightarrow> 'p \<Rightarrow> 'p) \<Rightarrow> (NDArray \<Rightarrow> NDArray option) \<Rightarrow> (NDArray \<Rightarrow> NDArrayInfo)
      \<Rightarrow> (('p \<Rightarrow> 'p) \<times> NDArray) list \<Rightarrow> 'p mask_plugin \<Rightarrow> ((NDArray \<times> 'p) list \<times> 'p mask_plugin) res" where
  "mask_run L beg copy getInfo [] s = Inr ([], s)"
| "mask_run L beg copy getInfo ((w, pArray) # ins) s =
     res_bind (mask_processCallbacks L beg copy getInfo pArray (s\<lparr>mp_params := w (mp_params s)\<rparr>)) (\<lambda>(a, s1).
       res_bind (mask_run L beg copy getInfo ins s1) (\<lambda>(outs, s2). Inr ((a, mp_params s1) # outs, s2)))"

section \<open>Geometry\<close>

text \<open>What \<open>getInfo\<close> documents for the arrays the plugin accepts: the elements are stored row by row.\<close>

definition row_major :: "NDArrayInfo \<Rightarrow> nat \<Rightarrow> nat \<Rightarrow> bool" where
  "row_major info nd n \<longleftrightarrow> xStride info = 1 \<and> 0 < unat (xSize info) \<and> n < 2 ^ 31 \<and>
     (if nd = 2 then yStride info = xSize info \<and> unat (xSize info) * unat (ySize info) = n \<and> 0 < unat (ySize info)
      else unat (xSize info) = n)"

definition in_mask_x :: "NDMask \<Rightarrow> nat \<Rightarrow> bool" where
  "in_mask_x m x \<longleftrightarrow> unat (PosX m) \<le> x \<and> x < unat (PosX m) + unat (SizeX m)"

definition in_mask_y :: "NDMask \<Rightarrow> nat \<Rightarrow> bool" where
  "in_mask_y m y \<longleftrightarrow> unat (PosY m) \<le> y \<and> y < unat (PosY m) + unat (SizeY m)"

text \<open>Cell \<open>k\<close> is in the masked rectangle of an array with rows of \<open>w\<close> elements.\<close>

definition in_mask :: "nat \<Rightarrow> nat \<Rightarrow> NDMask \<Rightarrow> nat \<Rightarrow> bool" where
  "in_mask nd w m k \<longleftrightarrow> (if nd = 2 then in_mask_x m (k mod w) \<and> in_mask_y m (k div w) else in_mask_x m k)"

definition overwritten :: "nat \<Rightarrow> nat \<Rightarrow> NDMask \<Rightarrow> nat \<Rightarrow> bool" where
  "overwritten nd w m k \<longleftrightarrow>
     (if MaskType m = ucast MASK_TYPE_REJECT then in_mask nd w m k
      else MaskType m = ucast MASK_TYPE_PASS \<and> \<not> in_mask nd w m k)"

definition mask_fits :: "nat \<Rightarrow> NDArrayInfo \<Rightarrow> NDMask \<Rightarrow> bool" where
  "mask_fits nd info m \<longleftrightarrow> unat (PosX m) + unat (SizeX m) \<le> unat (xSize info)
     \<and> (nd = 2 \<longrightarrow> unat (PosY m) + unat (SizeY m) \<le> unat (ySize info))"

lemma mask_span_fits:
  assumes "unat pos + unat sz \<le> unat (n :: u64)" "unat n < 2 ^ 31"
  shows "mask_span pos sz (ucast n) = (pos, pos + sz)" "unat (pos + sz) = unat pos + unat sz" "unat (ucast n :: u32) = unat n"
proof -
  show u: "unat (ucast n :: u32) = unat n" using assms(2) by (simp add: unsigned_ucast_eq take_bit_nat_eq_self)
  show s: "unat (pos + sz) = unat pos + unat sz" using assms by (intro unat_size_add) simp
  have "ucast (ucast n :: u32) = n" by (simp add: word_unat_eq_iff u)
  moreover have "pos + sz \<le> n" using s assms(1) by (simp add: word_le_nat_alt)
  ultimately show "mask_span pos sz (ucast n) = (pos, pos + sz)"
    by (auto simp: mask_span_def size_max_def size_min_def word_gt_0 order.order_iff_strict)
qed

lemma put_cell_row:
  assumes "row_major info 2 n" "ix < unat (xSize info)" "iy < unat (ySize info)"
  shows "writes n v {iy * unat (xSize info) + ix} (put_cell info v iy ix)"
proof -
  have n: "n < 2 ^ 31" "unat (xSize info) * unat (ySize info) = n" "yStride info = xSize info" "xStride info = 1"
    using assms(1) by (auto simp: row_major_def)
  have lt: "iy * unat (xSize info) + ix < n" using row_cell_lt [OF assms(2,3)] n(2) by simp
  have small: "iy < 2 ^ 64" "ix < 2 ^ 64" using assms(2,3) unat64_lt [of "xSize info"] unat64_lt [of "ySize info"] by linarith+
  then have "unat (of_nat iy * xSize info) = iy * unat (xSize info)"
    using lt n(1) by (subst unat_size_mult) (simp_all add: unat_size_of_nat)
  then have "put_cell info v iy ix = mem_write (int (iy * unat (xSize info) + ix)) v"
    using small n by (simp add: put_cell_def unat_size_of_nat)
  then show ?thesis using writes_store [OF lt] by simp
qed

lemma put_cell_line:
  assumes "row_major info 1 n" "ix < unat (xSize info)"
  shows "writes n v {ix} (put_cell info v 0 ix)"
proof -
  have "ix < n" "unat (of_nat ix :: u64) = ix" "xStride info = 1"
    using assms unat64_lt [of "xSize info"] by (auto simp: row_major_def unat_size_of_nat)
  then show ?thesis using writes_store [of ix n v] by (simp add: put_cell_def)
qed

section \<open>What a mask overwrites\<close>

text \<open>The loop nests of \<open>doMaskT\<close>, for a mask that lies in the array.\<close>

lemma doMaskT_cases:
  assumes "mask_fits nd info m" "unat (xSize info) < 2 ^ 31" "nd = 2 \<Longrightarrow> unat (ySize info) < 2 ^ 31" "nd \<in> {1, 2}"
  shows "doMaskT cast info (ucast (xSize info)) (ucast (ySize info)) nd (Some m) =
    (if MaskType m = ucast MASK_TYPE_REJECT then
       if nd = 1 then foldR (put_cell info (cast (MaskVal m)) 0) [unat (PosX m)..<unat (PosX m) + unat (SizeX m)]
       else foldR (\<lambda>iy. foldR (put_cell info (cast (MaskVal m)) iy) [unat (PosX m)..<unat (PosX m) + unat (SizeX m)])
              [unat (PosY m)..<unat (PosY m) + unat (SizeY m)]
     else if MaskType m = ucast MASK_TYPE_PASS then
       if nd = 1 then foldR (\<lambda>ix. if \<not> in_mask_x m ix then put_cell info (cast (MaskVal m)) 0 ix else Inr) [0..<unat (xSize info)]
       else foldR (\<lambda>iy. foldR (\<lambda>ix. if \<not> in_mask_x m ix \<or> \<not> in_mask_y m iy
               then put_cell info (cast (MaskVal m)) iy ix else Inr) [0..<unat (xSize info)]) [0..<unat (ySize info)]
     else Inr)"
proof -
  have fx: "unat (PosX m) + unat (SizeX m) \<le> unat (xSize info)" using assms(1) by (simp add: mask_fits_def)
  note sx = mask_span_fits [OF fx assms(2)]
  have ox: "outside x (PosX m) (PosX m + SizeX m) = (\<not> in_mask_x m x)" for x
    using sx(2) by (auto simp: outside_def in_mask_x_def)
  show ?thesis
  proof (cases "nd = 2")
    case True
    have fy: "unat (PosY m) + unat (SizeY m) \<le> unat (ySize info)" using assms(1) True by (simp add: mask_fits_def)
    note sy = mask_span_fits [OF fy assms(3) [OF True]]
    have oy: "outside y (PosY m) (PosY m + SizeY m) = (\<not> in_mask_y m y)" for y
      using sy(2) by (auto simp: outside_def in_mask_y_def)
    show ?thesis using True sx(1) sy(1) unfolding doMaskT_def by (simp add: sx(2,3) sy(2,3) ox oy Let_def)
  next
    case False
    then have "nd = 1" using assms(4) by simp
    then show ?thesis using sx(1) unfolding doMaskT_def by (simp add: sx(2,3) ox Let_def split_beta)
  qed
qed

lemma doMaskT_line:
  fixes cast :: "u64 \<Rightarrow> 'e"
  assumes "row_major info 1 n" "mask_fits 1 info m"
  shows "writes n (cast (MaskVal m)) {k. overwritten 1 (unat (xSize info)) m k}
    (doMaskT cast info (ucast (xSize info)) (ucast (ySize info)) 1 (Some m))"
proof -
  define w where "w = unat (xSize info)"
  have w: "w = n" "n < 2 ^ 31" using assms(1) by (auto simp: row_major_def w_def)
  have fit: "unat (PosX m) + unat (SizeX m) \<le> w" using assms(2) by (simp add: mask_fits_def w_def)
  note cell = put_cell_line [OF assms(1), folded w_def]
  have rej: "writes n v {k. in_mask_x m k} (foldR (put_cell info v 0) [unat (PosX m)..<unat (PosX m) + unat (SizeX m)])" for v :: 'e
    using fit by (intro writes_cong [OF writes_foldR [of _ _ _ "\<lambda>x. {x}"]] cell) (auto simp: in_mask_x_def)
  have pass: "writes n v {k. \<not> in_mask_x m k}
      (foldR (\<lambda>ix. if \<not> in_mask_x m ix then put_cell info v 0 ix else Inr) [0..<w])" for v :: 'e
    using w(1) by (intro writes_cong [OF writes_foldR [of _ _ _ "\<lambda>x. if \<not> in_mask_x m x then {x} else {}"]] writes_if cell writes_skip)
      auto
  have "unat (xSize info) < 2 ^ 31" using w by (simp add: w_def)
  then have eq: "doMaskT cast info (ucast (xSize info)) (ucast (ySize info)) 1 (Some m) =
    (if MaskType m = ucast MASK_TYPE_REJECT
     then foldR (put_cell info (cast (MaskVal m)) 0) [unat (PosX m)..<unat (PosX m) + unat (SizeX m)]
     else if MaskType m = ucast MASK_TYPE_PASS
     then foldR (\<lambda>ix. if \<not> in_mask_x m ix then put_cell info (cast (MaskVal m)) 0 ix else Inr) [0..<w] else Inr)"
    by (subst doMaskT_cases [OF assms(2)]) (simp_all add: w_def)
  show ?thesis unfolding eq overwritten_def in_mask_def using rej pass by (simp add: writes_skip)
qed

lemma reject_rows:
  assumes "row_major info 2 n" "mask_fits 2 info m"
  shows "writes n v {k. in_mask 2 (unat (xSize info)) m k}
    (foldR (\<lambda>iy. foldR (put_cell info v iy) [unat (PosX m)..<unat (PosX m) + unat (SizeX m)])
      [unat (PosY m)..<unat (PosY m) + unat (SizeY m)])"
proof -
  define w h where "w = unat (xSize info)" and "h = unat (ySize info)"
  have wh: "w * h = n" "0 < w" using assms(1) by (auto simp: row_major_def w_def h_def)
  note cell = put_cell_row [OF assms(1), folded w_def h_def]
  define xs ys where "xs = [unat (PosX m)..<unat (PosX m) + unat (SizeX m)]"
    and "ys = [unat (PosY m)..<unat (PosY m) + unat (SizeY m)]"
  have sets: "set ys = {y. y < h \<and> in_mask_y m y}" "set xs = {x. x < w \<and> in_mask_x m x}"
    using assms(2) by (auto simp: in_mask_x_def in_mask_y_def mask_fits_def w_def h_def xs_def ys_def)
  have "writes n v (\<Union>y\<in>set ys. \<Union>x\<in>set xs. {y * w + x}) (foldR (\<lambda>iy. foldR (put_cell info v iy) xs) ys)"
    by (intro writes_foldR cell) (simp_all add: sets)
  moreover have "(\<Union>y\<in>set ys. \<Union>x\<in>set xs. {y * w + x}) \<inter> {..<n} = {k. in_mask 2 w m k} \<inter> {..<n}"
    unfolding sets using row_cells [OF wh(2), where h = h and Q = "in_mask_y m" and P = "\<lambda>x y. in_mask_x m x"]
    by (simp add: wh(1) in_mask_def conj_commute)
  ultimately show ?thesis unfolding w_def [symmetric] xs_def [symmetric] ys_def [symmetric] by (rule writes_cong)
qed

lemma pass_rows:
  assumes "row_major info 2 n"
  shows "writes n v {k. \<not> in_mask 2 (unat (xSize info)) m k}
    (foldR (\<lambda>iy. foldR (\<lambda>ix. if \<not> in_mask_x m ix \<or> \<not> in_mask_y m iy then put_cell info v iy ix else Inr)
      [0..<unat (xSize info)]) [0..<unat (ySize info)])"
proof -
  define w h where "w = unat (xSize info)" and "h = unat (ySize info)"
  have wh: "w * h = n" "0 < w" using assms(1) by (auto simp: row_major_def w_def h_def)
  note cell = put_cell_row [OF assms(1), folded w_def h_def]
  have "writes n v (\<Union>y\<in>set [0..<h]. \<Union>x\<in>set [0..<w]. if \<not> in_mask_x m x \<or> \<not> in_mask_y m y then {y * w + x} else {})
    (foldR (\<lambda>iy. foldR (\<lambda>ix. if \<not> in_mask_x m ix \<or> \<not> in_mask_y m iy then put_cell info v iy ix else Inr) [0..<w]) [0..<h])"
    by (intro writes_foldR writes_if writes_skip cell) simp_all
  moreover have "(\<Union>y\<in>set [0..<h]. \<Union>x\<in>set [0..<w]. if \<not> in_mask_x m x \<or> \<not> in_mask_y m y then {y * w + x} else {})
      = (\<Union>y\<in>{y. y < h \<and> True}. \<Union>x\<in>{x. x < w \<and> (\<not> in_mask_x m x \<or> \<not> in_mask_y m y)}. {y * w + x})" by auto
  moreover have "\<dots> \<inter> {..<n} = {k. \<not> in_mask 2 w m k} \<inter> {..<n}"
    using row_cells [OF wh(2), where h = h and Q = "\<lambda>_. True" and P = "\<lambda>x y. \<not> in_mask_x m x \<or> \<not> in_mask_y m y"]
    by (simp add: wh(1) in_mask_def)
  ultimately show ?thesis unfolding w_def [symmetric] h_def [symmetric] by (metis (no_types, lifting) writes_cong)
qed

lemma doMaskT_rect:
  assumes "row_major info 2 n" "mask_fits 2 info m"
  shows "writes n (cast (MaskVal m)) {k. overwritten 2 (unat (xSize info)) m k}
    (doMaskT cast info (ucast (xSize info)) (ucast (ySize info)) 2 (Some m))"
proof -
  have "unat (xSize info) < 2 ^ 31" "unat (ySize info) < 2 ^ 31"
    using assms(1) factors_less [of "unat (xSize info)" "unat (ySize info)" "2 ^ 31"] by (auto simp: row_major_def)
  then have eq: "doMaskT cast info (ucast (xSize info)) (ucast (ySize info)) 2 (Some m) =
    (if MaskType m = ucast MASK_TYPE_REJECT
     then foldR (\<lambda>iy. foldR (put_cell info (cast (MaskVal m)) iy) [unat (PosX m)..<unat (PosX m) + unat (SizeX m)])
            [unat (PosY m)..<unat (PosY m) + unat (SizeY m)]
     else if MaskType m = ucast MASK_TYPE_PASS
     then foldR (\<lambda>iy. foldR (\<lambda>ix. if \<not> in_mask_x m ix \<or> \<not> in_mask_y m iy
            then put_cell info (cast (MaskVal m)) iy ix else Inr) [0..<unat (xSize info)]) [0..<unat (ySize info)]
     else Inr)"
    by (subst doMaskT_cases [OF assms(2)]) simp_all
  show ?thesis unfolding eq overwritten_def
    using reject_rows [OF assms, of "cast (MaskVal m)"] pass_rows [OF assms(1), of "cast (MaskVal m)" m] by (simp add: writes_skip)
qed

text \<open>(C8) A mask overwrites exactly its rectangle, or exactly the rest. On a 1-D or 2-D array stored row by
  row, for a mask that lies in the array, \<open>doMaskT\<close> never leaves the array; with type REJECT it stores the
  mask value in every element of the rectangle and in no other, with type PASS in every element outside the
  rectangle and in no other, and with any other type it changes nothing. This holds at every element type.\<close>

theorem doMaskT_exact:
  assumes "row_major info nd n" "nd \<in> {1, 2}" "mask_fits nd info m" "length xs = n"
  shows "\<exists>ys. doMaskT cast info (ucast (xSize info)) (ucast (ySize info)) nd (Some m) xs = Inr ys \<and> length ys = n
    \<and> (\<forall>k<n. ys ! k = (if overwritten nd (unat (xSize info)) m k then cast (MaskVal m) else xs ! k))"
proof -
  have "writes n (cast (MaskVal m)) {k. overwritten nd (unat (xSize info)) m k}
    (doMaskT cast info (ucast (xSize info)) (ucast (ySize info)) nd (Some m))"
    using assms(1-3) doMaskT_line doMaskT_rect by auto
  then show ?thesis using assms(4) by (auto elim: writesD)
qed

theorem doMaskT_exact_witness:
  "\<exists>ys. doMaskT (ucast :: u64 \<Rightarrow> u32) \<lparr>xSize = 3, ySize = 2, xStride = 1, yStride = 3\<rparr> 3 2 2
       (Some \<lparr>PosX = 1, PosY = 0, SizeX = 2, SizeY = 1, MaskVal = 9, MaskType = 0\<rparr>) [0, 1, 2, 3, 4, 5] = Inr ys
    \<and> ys ! 0 = 0 \<and> ys ! 1 = 9 \<and> ys ! 2 = 9 \<and> ys ! 3 = 3"
  using doMaskT_exact [of "\<lparr>xSize = 3, ySize = 2, xStride = 1, yStride = 3\<rparr>" 2 6
    "\<lparr>PosX = 1, PosY = 0, SizeX = 2, SizeY = 1, MaskVal = 9, MaskType = 0\<rparr>" "[0, 1, 2, 3, 4, 5]" "ucast :: u64 \<Rightarrow> u32"]
  by (auto simp: row_major_def mask_fits_def overwritten_def in_mask_def in_mask_x_def in_mask_y_def MASK_TYPE_REJECT_def)

section \<open>The callback\<close>

lemma clamp_fits:
  assumes "0 < unat (m :: u32)"
  shows "unat (clamp_pos i m) < unat m" "unat (clamp_pos i m) + unat (clamp_size j m (clamp_pos i m)) \<le> unat m"
proof -
  have "unat (m - 1) = unat m - 1" using assms by (subst unat_minus_one) (auto simp: unat_eq_0)
  then have 1: "unat (clamp_pos i m) \<le> unat m - 1"
    by (auto simp: clamp_pos_def size_min_def unat64_less_iff not_less)
  then show lt: "unat (clamp_pos i m) < unat m" using assms by simp
  have "unat (ucast m - clamp_pos i m) = unat m - unat (clamp_pos i m)"
    using lt by (subst unat_sub) (simp_all add: word_le_nat_alt)
  then have "unat (clamp_size j m (clamp_pos i m)) \<le> unat m - unat (clamp_pos i m)"
    by (auto simp: clamp_size_def size_min_def unat64_less_iff not_less)
  then show "unat (clamp_pos i m) + unat (clamp_size j m (clamp_pos i m)) \<le> unat m" using lt by linarith
qed

lemma row_major_sizes:
  assumes "row_major info nd n" "nd \<in> {1, 2}"
  shows "0 < unat (xSize info)" "unat (ucast (xSize info) :: u32) = unat (xSize info)" "unat (xSize info) < 2 ^ 31"
    "nd = 2 \<Longrightarrow> 0 < unat (ySize info) \<and> unat (ucast (ySize info) :: u32) = unat (ySize info) \<and> unat (ySize info) < 2 ^ 31"
proof -
  have lt: "unat (xSize info) < 2 ^ 31" "nd = 2 \<Longrightarrow> unat (ySize info) < 2 ^ 31"
    using assms factors_less [of "unat (xSize info)" "unat (ySize info)" "2 ^ 31"] by (auto simp: row_major_def split: if_splits)
  show "0 < unat (xSize info)" using assms(1) by (simp add: row_major_def)
  show "unat (ucast (xSize info) :: u32) = unat (xSize info)" "unat (xSize info) < 2 ^ 31"
    using lt(1) by (simp_all add: unsigned_ucast_eq take_bit_nat_eq_self)
  show "nd = 2 \<Longrightarrow> 0 < unat (ySize info) \<and> unat (ucast (ySize info) :: u32) = unat (ySize info) \<and> unat (ySize info) < 2 ^ 31"
    using lt(2) assms(1) by (simp add: row_major_def unsigned_ucast_eq take_bit_nat_eq_self)
qed

lemma fetch_mask_fits:
  assumes "row_major info nd n" "nd \<in> {1, 2}"
  shows "mask_fits nd info (fetch_mask L (ucast (xSize info)) (ucast (ySize info)) nd k p m)"
proof -
  note sz = row_major_sizes [OF assms]
  have "0 < unat (ucast (xSize info) :: u32)" using sz(1,2) by simp
  note x = clamp_fits(2) [OF this, unfolded sz(2)]
  show ?thesis
  proof (cases "nd = 2")
    case True
    then have "0 < unat (ucast (ySize info) :: u32)" using sz(4) by simp
    from clamp_fits(2) [OF this] True sz(4) x show ?thesis by (simp add: mask_fits_def fetch_mask_def Let_def)
  next
    case False
    then show ?thesis using x by (simp add: mask_fits_def fetch_mask_def Let_def)
  qed
qed

lemma doMaskT_total:
  assumes "row_major info nd (length xs)" "nd \<in> {1, 2}" "mask_fits nd info m"
  shows "\<exists>ys. doMaskT cast info (ucast (xSize info)) (ucast (ySize info)) nd (Some m) xs = Inr ys \<and> length ys = length xs"
proof -
  have "writes (length xs) (cast (MaskVal m)) {k. overwritten nd (unat (xSize info)) m k}
      (doMaskT cast info (ucast (xSize info)) (ucast (ySize info)) nd (Some m))"
    using assms doMaskT_line doMaskT_rect by auto
  then show ?thesis by (metis writesD)
qed

lemma bind_masked:
  assumes "\<exists>ys. m = Inr ys \<and> length ys = n" "\<And>ys. length ys = n \<Longrightarrow> nd_length (c ys) = n \<and> nd_type (c ys) = t"
  shows "\<exists>st a'. res_bind m (\<lambda>ys. Inr (True, Some (a\<lparr>pData := c ys\<rparr>))) = Inr (st, Some a')
    \<and> ndims a' = ndims a \<and> nd_length (pData a') = n \<and> nd_type (pData a') = t"
  using assms by auto

lemma doMask_ok:
  assumes "row_major info (ndims a) (nd_length (pData a))" "ndims a \<in> {1, 2}" "mask_fits (ndims a) info m"
  shows "\<exists>st a'. doMask info (ucast (xSize info)) (ucast (ySize info)) (Some a) (Some m) = Inr (st, Some a')
    \<and> ndims a' = ndims a \<and> nd_length (pData a') = nd_length (pData a) \<and> nd_type (pData a') = nd_type (pData a)"
  using assms
  by (cases "pData a") (auto simp: doMask_def bind_masked doMaskT_total)

text \<open>The state between two turns of the loop.\<close>

definition mask_inv :: "'p mask_plugin \<Rightarrow> bool" where
  "mask_inv s \<longleftrightarrow> nat (sint (maxMasks s)) \<le> length (pMasks s)"

definition masking :: "NDArrayInfo \<Rightarrow> nat \<Rightarrow> nat \<Rightarrow> i32 \<Rightarrow> i32 \<Rightarrow> 'p mask_plugin \<Rightarrow> bool" where
  "masking info nd n t mm s \<longleftrightarrow> maxMasks s = mm \<and> mask_inv s \<and> arrayInfo s = info \<and> xArrayMax s = ucast (xSize info) \<and> yArrayMax s = ucast (ySize info)
     \<and> (case pArrays0 s of None \<Rightarrow> False | Some a \<Rightarrow> ndims a = nd \<and> nd_length (pData a) = n \<and> nd_type (pData a) = t)"

text \<open>Mask \<open>k\<close>, if it is in use, is published as a rectangle inside the array.\<close>

definition mask_published :: "('p, mask_param) params \<Rightarrow> NDArrayInfo \<Rightarrow> nat \<Rightarrow> nat \<Rightarrow> 'p \<Rightarrow> bool" where
  "mask_published L info nd k p \<longleftrightarrow> pget L p k NDPluginMaskUse \<noteq> 0 \<longrightarrow>
     0 \<le> sint (pget L p k NDPluginMaskPosX) \<and> 0 \<le> sint (pget L p k NDPluginMaskSizeX)
     \<and> sint (pget L p k NDPluginMaskPosX) + sint (pget L p k NDPluginMaskSizeX) \<le> uint (xSize info)
     \<and> (nd = 2 \<longrightarrow> 0 \<le> sint (pget L p k NDPluginMaskPosY) \<and> 0 \<le> sint (pget L p k NDPluginMaskSizeY)
        \<and> sint (pget L p k NDPluginMaskPosY) + sint (pget L p k NDPluginMaskSizeY) \<le> uint (ySize info))"

lemma sint_int_of_size:
  assumes "unat w < 2 ^ 31"
  shows "sint (int_of_size w) = uint w"
proof -
  have u: "unat (int_of_size w) = unat w" using assms by (simp add: unsigned_ucast_eq take_bit_nat_eq_self)
  have "uint w < 2 ^ 31" using of_nat_less_iff [where 'a = int, THEN iffD2, OF assms] by simp
  moreover have "uint (int_of_size w) = uint w" using arg_cong [OF u, of int] by simp
  ultimately show ?thesis by (simp only: sint32_if if_True)
qed

lemma mask_published_rectangle:
  assumes "row_major info nd n" "nd \<in> {1, 2}" "mask_fits nd info m"
    "pget L p k NDPluginMaskPosX = int_of_size (PosX m)" "pget L p k NDPluginMaskSizeX = int_of_size (SizeX m)"
    "nd = 2 \<Longrightarrow> pget L p k NDPluginMaskPosY = int_of_size (PosY m) \<and> pget L p k NDPluginMaskSizeY = int_of_size (SizeY m)"
  shows "mask_published L info nd k p"
proof -
  note sz = row_major_sizes [OF assms(1,2)]
  have fx: "unat (PosX m) + unat (SizeX m) \<le> unat (xSize info)" using assms(3) by (simp add: mask_fits_def)
  then have "unat (PosX m) < 2 ^ 31" "unat (SizeX m) < 2 ^ 31" using sz(3) by linarith+
  note x = this [THEN sint_int_of_size]
  have ix: "uint (PosX m) + uint (SizeX m) \<le> uint (xSize info)" using of_nat_mono [OF fx, where 'a = int] by simp
  show ?thesis
  proof (cases "nd = 2")
    case True
    have fy: "unat (PosY m) + unat (SizeY m) \<le> unat (ySize info)" using assms(3) True by (simp add: mask_fits_def)
    then have "unat (PosY m) < 2 ^ 31" "unat (SizeY m) < 2 ^ 31" using sz(4) [OF True] by linarith+
    note y = this [THEN sint_int_of_size]
    show ?thesis unfolding mask_published_def assms(4,5) x using assms(6) [OF True] y ix of_nat_mono [OF fy, where 'a = int] by simp
  next
    case False
    then show ?thesis unfolding mask_published_def assms(4,5) x using ix by simp
  qed
qed

lemma put_back_get:
  assumes "plugin_port L addrs" "k < addrs"
  shows "pget L (pcalls L k (put_back L nd k m p)) a q =
    (if a = k \<and> q = NDPluginMaskPosX then int_of_size (PosX m)
     else if a = k \<and> q = NDPluginMaskSizeX then int_of_size (SizeX m)
     else if 1 < nd \<and> a = k \<and> q = NDPluginMaskPosY then int_of_size (PosY m)
     else if 1 < nd \<and> a = k \<and> q = NDPluginMaskSizeY then int_of_size (SizeY m) else pget L p a q)"
  using plugin_port.pget_pset [OF assms] plugin_port.pget_pcalls [OF assms(1)]
  by (simp add: put_back_def Let_def)

lemma mask_turn_ok:
  assumes "plugin_port L addrs" "k < addrs" "k < nat (sint mm)" "row_major info nd n" "nd \<in> {1, 2}" "masking info nd n t mm s"
  shows "\<exists>s'. mask_turn L nd k s = Inr s' \<and> masking info nd n t mm s' \<and> mask_published L info nd k (mp_params s')
    \<and> (\<forall>j. j \<noteq> k \<longrightarrow> pget L (mp_params s') j = pget L (mp_params s) j)"
proof (cases "pget L (mp_params s) k NDPluginMaskUse = 0")
  case True
  then show ?thesis using assms(6) by (simp add: mask_turn_def mask_published_def)
next
  case False
  define m where "m = fetch_mask L (xArrayMax s) (yArrayMax s) nd k (mp_params s) (pMasks s ! k)"
  define p where "p = pcalls L k (put_back L nd k m (mp_params s))"
  obtain a where a: "pArrays0 s = Some a" "ndims a = nd" "nd_length (pData a) = n" "nd_type (pData a) = t"
      "maxMasks s = mm" "k < length (pMasks s)" "mask_inv s" "arrayInfo s = info" "xArrayMax s = ucast (xSize info)" "yArrayMax s = ucast (ySize info)"
    using assms(3,6) by (auto simp: masking_def mask_inv_def split: option.splits)
  have fits: "mask_fits nd info m" unfolding m_def a by (rule fetch_mask_fits [OF assms(4,5)])
  obtain st a' where a': "doMask info (ucast (xSize info)) (ucast (ySize info)) (Some a) (Some m) = Inr (st, Some a')"
      "ndims a' = nd" "nd_length (pData a') = n" "nd_type (pData a') = t"
    using doMask_ok [of info a m] assms(4,5) fits a by auto
  have turn: "mask_turn L nd k s = Inr (s\<lparr>pMasks := (pMasks s)[k := m], pArrays0 := Some a', mp_params := p\<rparr>)"
    using False a' a by (simp add: mask_turn_def m_def p_def Let_def)
  note get = put_back_get [OF assms(1,2), of nd m "mp_params s", folded p_def]
  have "mask_published L info nd k p"
    by (rule mask_published_rectangle [OF assms(4,5) fits]) (simp_all add: get)
  moreover have "masking info nd n t mm (s\<lparr>pMasks := (pMasks s)[k := m], pArrays0 := Some a', mp_params := p\<rparr>)"
    using a a' by (simp add: masking_def mask_inv_def)
  ultimately show ?thesis unfolding turn by (auto simp: get fun_eq_iff)
qed

lemma mask_turns_ok:
  assumes "plugin_port L addrs" "nat (sint mm) \<le> addrs" "row_major info nd n" "nd \<in> {1, 2}" "masking info nd n t mm s"
  shows "k \<le> nat (sint mm) \<Longrightarrow> \<exists>s'. foldR (mask_turn L nd) [0..<k] s = Inr s' \<and> masking info nd n t mm s'
    \<and> (\<forall>j<k. mask_published L info nd j (mp_params s'))"
proof (induction k)
  case 0
  then show ?case using assms(5) by simp
next
  case (Suc k)
  then obtain s1 where s1: "foldR (mask_turn L nd) [0..<k] s = Inr s1" "masking info nd n t mm s1"
      "\<forall>j<k. mask_published L info nd j (mp_params s1)"
    by auto
  obtain s2 where s2: "mask_turn L nd k s1 = Inr s2" "masking info nd n t mm s2" "mask_published L info nd k (mp_params s2)"
      "\<forall>j. j \<noteq> k \<longrightarrow> pget L (mp_params s2) j = pget L (mp_params s1) j"
    using mask_turn_ok [OF assms(1) _ _ assms(3,4) s1(2), of k] Suc.prems assms(2) by auto
  have "mask_published L info nd j (mp_params s2)" if "j < Suc k" for j
    using that s1(3) s2(3,4) by (cases "j = k") (auto simp: mask_published_def)
  then show ?case using s1 s2 by (simp add: foldR_append)
qed

text \<open>What the pool and \<open>getInfo\<close> do for an array the plugin can work on.\<close>

definition maskable :: "(NDArray \<Rightarrow> NDArray option) \<Rightarrow> (NDArray \<Rightarrow> NDArrayInfo) \<Rightarrow> NDArray \<Rightarrow> bool" where
  "maskable copy getInfo a \<longleftrightarrow> ndims a \<in> {1, 2} \<and> copy a = Some a \<and> row_major (getInfo a) (ndims a) (nd_length (pData a))"

lemma mask_processCallbacks_ok:
  assumes "plugin_port L addrs" "nat (sint (maxMasks s)) \<le> addrs" "mask_inv s" "maskable copy getInfo pArray"
  shows "\<exists>a s'. mask_processCallbacks L beg copy getInfo pArray s = Inr (a, s') \<and> mask_inv s' \<and> maxMasks s' = maxMasks s
    \<and> nd_length (pData a) = nd_length (pData pArray) \<and> nd_type (pData a) = nd_type (pData pArray)
    \<and> (\<forall>j. int j < sint (maxMasks s) \<longrightarrow> mask_published L (getInfo pArray) (ndims pArray) j (mp_params s'))"
proof -
  define info where "info = getInfo pArray"
  have arr: "ndims pArray \<in> {1, 2}" "copy pArray = Some pArray" "row_major info (ndims pArray) (nd_length (pData pArray))"
    using assms(4) by (simp_all add: maskable_def info_def)
  define s2 where "s2 = s\<lparr>pArrays0 := Some pArray, arrayInfo := info,
    mp_params := pset L 0 NDPluginMaskMaxSizeY (int_of_size (ySize info))
      (pset L 0 NDPluginMaskMaxSizeX (int_of_size (xSize info)) (beg pArray (mp_params s))),
    xArrayMax := ucast (xSize info), yArrayMax := ucast (ySize info)\<rparr>"
  have m: "masking info (ndims pArray) (nd_length (pData pArray)) (nd_type (pData pArray)) (maxMasks s) s2"
    using assms(3) by (simp add: masking_def mask_inv_def s2_def)
  obtain s3 where s3: "foldR (mask_turn L (ndims pArray)) [0..<nat (sint (maxMasks s))] s2 = Inr s3"
      "masking info (ndims pArray) (nd_length (pData pArray)) (nd_type (pData pArray)) (maxMasks s) s3"
      "\<forall>j<nat (sint (maxMasks s)). mask_published L info (ndims pArray) j (mp_params s3)"
    using mask_turns_ok [OF assms(1,2) arr(3,1) m order_refl] by blast
  then obtain a where a: "pArrays0 s3 = Some a" "nd_length (pData a) = nd_length (pData pArray)"
      "nd_type (pData a) = nd_type (pData pArray)" "mask_inv s3" "maxMasks s3 = maxMasks s"
    by (auto simp: masking_def split: option.splits)
  define s4 where "s4 = s3\<lparr>mp_params := pcalls L 0 (mp_params s3)\<rparr>"
  have pub: "mask_published L info (ndims pArray) j (mp_params s4) = mask_published L info (ndims pArray) j (mp_params s3)" for j
    by (simp add: mask_published_def s4_def plugin_port.pget_pcalls [OF assms(1)])
  have "mask_processCallbacks L beg copy getInfo pArray s = Inr (a, s4)"
    using s3(1) a(1) arr(2) by (simp add: mask_processCallbacks_def Let_def info_def [symmetric] s2_def [symmetric] s4_def)
  moreover have "mask_inv s4" "maxMasks s4 = maxMasks s" using a(4,5) by (simp_all add: s4_def mask_inv_def)
  ultimately show ?thesis using a(2,3) s3(3) unfolding info_def [symmetric] by (simp add: pub)
qed

lemma mask_run_ok:
  assumes "plugin_port L (nat (sint n))" "\<forall>(w, a)\<in>set ins. maskable copy getInfo a"
  shows "mask_inv s \<Longrightarrow> maxMasks s = n \<Longrightarrow> \<exists>outs s'. mask_run L beg copy getInfo ins s = Inr (outs, s')
    \<and> list_all2 (\<lambda>(w, a) (b, p). nd_length (pData b) = nd_length (pData a) \<and> nd_type (pData b) = nd_type (pData a)
        \<and> (\<forall>j. int j < sint n \<longrightarrow> mask_published L (getInfo a) (ndims a) j p)) ins outs"
  using assms(2)
proof (induction ins arbitrary: s)
  case (Cons x ins)
  obtain w a where x: "x = (w, a)" by (cases x)
  have "mask_inv (s\<lparr>mp_params := w (mp_params s)\<rparr>)" using Cons.prems(1) by (simp add: mask_inv_def)
  then obtain b s1 where 1: "mask_processCallbacks L beg copy getInfo a (s\<lparr>mp_params := w (mp_params s)\<rparr>) = Inr (b, s1)"
      "mask_inv s1" "maxMasks s1 = n" "nd_length (pData b) = nd_length (pData a)" "nd_type (pData b) = nd_type (pData a)"
      "\<forall>j. int j < sint n \<longrightarrow> mask_published L (getInfo a) (ndims a) j (mp_params s1)"
    using mask_processCallbacks_ok [OF assms(1), of "s\<lparr>mp_params := w (mp_params s)\<rparr>" copy getInfo a beg] Cons.prems(2,3) x by auto
  then show ?case using Cons.IH [OF 1(2,3)] Cons.prems(3) x by auto
qed simp

lemma new_NDPluginMask_inv:
  "new_NDPluginMask L ok info0 n p0 = Some s \<Longrightarrow> mask_inv s \<and> maxMasks s = n"
  using size_of_int_nonneg(1) [of n]
  by (cases "0 \<le> sint n") (auto simp: new_NDPluginMask_def mask_inv_def Let_def split: if_splits)

text \<open>(C23) The mask plugin is safe, from its constructor on, for every setting of its parameters. Whatever positions and sizes clients
  request before each array, negative ones included, for any number of masks, and whatever sizes and element types follow one
  another: on 1-D or 2-D arrays of fewer than \<open>2^31\<close> elements stored row by row the callbacks stay inside the array and
  inside the table of masks; for each array the plugin delivers one with as many elements of the same type, and publishes for every
  mask in use a rectangle that lies inside it.\<close>

theorem mask_plugin_safe:
  assumes "plugin_port L (nat (sint n))" "new_NDPluginMask L callocMustSucceed info0 n p0 = Some s"
    "\<forall>(w, a)\<in>set ins. maskable copy getInfo a"
  shows "\<exists>outs s'. mask_run L beg copy getInfo ins s = Inr (outs, s')
    \<and> list_all2 (\<lambda>(w, a) (b, p). nd_length (pData b) = nd_length (pData a) \<and> nd_type (pData b) = nd_type (pData a)
        \<and> (\<forall>j. int j < sint n \<longrightarrow> mask_published L (getInfo a) (ndims a) j p)) ins outs"
  using mask_run_ok [OF assms(1,3)] new_NDPluginMask_inv [OF assms(2)] by blast

text \<open>A plugin with one mask in use at position -5, size 2, over a 3 by 2 array.\<close>

definition demo_image :: NDArray where
  "demo_image = \<lparr>ndims = 2, nd_dims = (\<lambda>_. \<lparr>d_size = 0, d_offset = 0, d_binning = 1\<rparr>), pData = NDUInt32 [0, 1, 2, 3, 4, 5]\<rparr>"

definition demo_request :: "nat \<Rightarrow> mask_param \<Rightarrow> i32" where
  "demo_request k q = (if q = NDPluginMaskUse then 1 else if q = NDPluginMaskPosX then -5 else 2)"

definition demo_info :: NDArrayInfo where
  "demo_info = \<lparr>xSize = 3, ySize = 2, xStride = 1, yStride = 3\<rparr>"

theorem mask_plugin_safe_witness:
  "\<exists>s b p s'. new_NDPluginMask (fun_params 1) (\<lambda>n. n < 100) demo_info 1 (\<lambda>_ _. 0) = Some s
    \<and> mask_run (fun_params 1) (\<lambda>_ p. p) Some (\<lambda>_. demo_info) [(\<lambda>_. demo_request, demo_image)] s = Inr ([(b, p)], s')
    \<and> nd_length (pData b) = 6 \<and> mask_published (fun_params 1) demo_info 2 0 p"
proof -
  obtain s where s: "new_NDPluginMask (fun_params 1) (\<lambda>n. n < 100) demo_info 1 (\<lambda>_ _. 0) = Some s"
    by (simp add: new_NDPluginMask_def Let_def)
  have p: "plugin_port (fun_params 1) (nat (sint (1 :: i32)))" using fp.plugin_port_axioms [of 1] by simp
  have m: "\<forall>(w, a)\<in>set [(\<lambda>_. demo_request, demo_image)]. maskable Some (\<lambda>_. demo_info) a"
    by (simp add: maskable_def demo_image_def row_major_def demo_info_def)
  from mask_plugin_safe [OF p s m, of "\<lambda>_ p. p"] s show ?thesis
    by (auto simp: list_all2_Cons1 demo_image_def eval_nat_numeral)
qed

lemma negative_size_big:
  assumes "sint (i :: i32) < 0"
  shows "2 ^ 32 \<le> unat (size_of_int i)"
proof -
  have ge: "- (2 ^ 31) \<le> sint i" using sint_ge [of i] by simp
  have "uint (size_of_int i) = sint i mod 2 ^ 64" unfolding scast_eq uint_word_of_int by simp
  also have "\<dots> = (sint i + 2 ^ 64) mod 2 ^ 64" by (rule mod_add_self2 [symmetric])
  also have "\<dots> = sint i + 2 ^ 64" using assms ge by (intro mod_pos_pos_trivial) simp_all
  finally have "2 ^ 32 \<le> uint (size_of_int i)" using ge by simp
  then show ?thesis unfolding unat_eq_nat_uint by (subst le_nat_iff) simp_all
qed

text \<open>A negative request does not become zero. The members of a mask are unsigned, so \<open>MAX(..., 0)\<close> never
  changes them: a negative position is set to the last column, and a negative size to all that is left of
  the row. This holds for every mask of every array with at least one column.\<close>

theorem mask_negative_request:
  assumes "0 < unat xMax"
  shows "(sint (pget L p k NDPluginMaskPosX) < 0 \<longrightarrow>
       unat (PosX (fetch_mask L xMax yMax nd k p m)) = unat xMax - 1)
    \<and> (sint (pget L p k NDPluginMaskSizeX) < 0 \<longrightarrow>
       unat (PosX (fetch_mask L xMax yMax nd k p m)) + unat (SizeX (fetch_mask L xMax yMax nd k p m)) = unat xMax)"
proof -
  have max0: "size_max w 0 = w" for w by (simp add: size_max_def word_gt_0)
  have m1: "unat (xMax - 1) = unat xMax - 1" using assms by (subst unat_minus_one) (auto simp: unat_eq_0)
  define pos where "pos = clamp_pos (pget L p k NDPluginMaskPosX) xMax"
  have f: "PosX (fetch_mask L xMax yMax nd k p m) = pos"
    "SizeX (fetch_mask L xMax yMax nd k p m) = clamp_size (pget L p k NDPluginMaskSizeX) xMax pos"
    by (simp_all add: fetch_mask_def Let_def pos_def)
  have lt: "unat (pos) < unat xMax" using clamp_fits(1) [OF assms] by (simp add: pos_def)
  have rest: "unat (ucast xMax - pos) = unat xMax - unat pos"
    using lt by (subst unat_sub) (simp_all add: word_le_nat_alt)
  have small: "unat xMax < 2 ^ 32" using unsigned_less [of xMax, where 'a = nat] by simp
  have "unat pos = unat xMax - 1" if neg: "sint (pget L p k NDPluginMaskPosX) < 0"
    using negative_size_big [OF neg] small m1 by (simp add: pos_def clamp_pos_def size_min_def unat64_less_iff max0)
  moreover have "unat pos + unat (clamp_size (pget L p k NDPluginMaskSizeX) xMax pos) = unat xMax"
    if neg: "sint (pget L p k NDPluginMaskSizeX) < 0"
    using negative_size_big [OF neg] small lt rest by (simp add: clamp_size_def size_min_def unat64_less_iff max0)
  ultimately show ?thesis unfolding f by blast
qed

theorem mask_negative_request_witness:
  "unat (PosX (fetch_mask (fun_params 1) 3 2 2 0 demo_request zero_mask)) = 2"
  using mask_negative_request [of 3 "fun_params 1" demo_request 0 2 2 zero_mask]
  by (simp add: demo_request_def fun_params_def)

end
