(* ===== verification/PixelROI.thy ===== *)
theory PixelROI
  imports MaskPlugin
begin

text \<open>
  \<open>ADnEDPixelROI.cpp\<close>: the plugin that takes one detector's segment out of the driver's 1-D array and
  presents it as a 2-D image. Offsets and sizes are \<open>size_t\<close>. The pool's \<open>convert\<close> and
  \<open>beginProcessCallbacks\<close> are areaDetector's: arguments of \<open>roi_processCallbacks\<close>. \<open>rp_lock\<close> counts the
  calls of \<open>lock()\<close> minus those of \<open>unlock()\<close>.
\<close>

section \<open>State\<close>

datatype roi_param =
    ADnEDPixelROIDim0Min | ADnEDPixelROIDim1Min | ADnEDPixelROIDim2Min
  | ADnEDPixelROIDim0Size | ADnEDPixelROIDim1Size | ADnEDPixelROIDim2Size
  | ADnEDPixelROIDim0MaxSize | ADnEDPixelROIDim1MaxSize | ADnEDPixelROIDim2MaxSize
  | ADnEDPixelROIDataType | NDArraySizeX | NDArraySizeY | NDArraySizeZ | ADnEDPixelROIName | RoiPluginType
  | RoiBase nat

record 'p roi_plugin =
  rp_params :: 'p
  rp_pArrays0 :: "NDArray option"
  rp_lock :: int

section \<open>Dimensions\<close>

definition fetch_dim :: "('p, roi_param) params \<Rightarrow> roi_param \<Rightarrow> roi_param \<Rightarrow> 'p \<Rightarrow> NDDimension" where
  "fetch_dim L qMin qSize p = \<lparr>d_size = size_of_int (pget L p 0 qSize), d_offset = size_of_int (pget L p 0 qMin), d_binning = 0\<rparr>"

text \<open>One turn of the loop over the dimensions. \<open>limit\<close> is \<open>dims[0].size\<close>; in the turn of dimension 0 that is
  the size just set, which the argument \<open>None\<close> stands for.\<close>

definition fix_dim :: "u64 \<Rightarrow> u64 option \<Rightarrow> NDDimension \<Rightarrow> NDDimension" where
  "fix_dim arraySize limit d =
     (let sz = size_max (d_size d) 1
      in \<lparr>d_size = size_min sz (case limit of None \<Rightarrow> sz | Some l \<Rightarrow> l),
          d_offset = size_min (size_max (d_offset d) 0) (arraySize - 1),
          d_binning = (if 1 <s d_binning d then d_binning d else 1)\<rparr>)"

definition fix_dims :: "u64 \<Rightarrow> NDDimension \<Rightarrow> NDDimension \<Rightarrow> NDDimension \<Rightarrow> NDDimension \<times> NDDimension \<times> NDDimension" where
  "fix_dims arraySize d0 d1 d2 =
     (let e0 = fix_dim arraySize None d0;
          e1 = fix_dim arraySize (Some (d_size e0)) d1;
          e2 = fix_dim arraySize (Some (d_size e0)) d2
      in if d_size e1 * d_size e2 \<ge> arraySize
         then (e0, e1\<lparr>d_size := 1\<rparr>, e2\<lparr>d_size := 1\<rparr>) else (e0, e1, e2))"

definition publish_dims :: "('p, roi_param) params \<Rightarrow> u64 \<Rightarrow> NDDimension \<times> NDDimension \<times> NDDimension \<Rightarrow> 'p \<Rightarrow> 'p" where
  "publish_dims L arraySize = (\<lambda>(e0, e1, e2) p.
     fold (\<lambda>(q, v). pset L 0 q v)
       [(ADnEDPixelROIDim0MaxSize, 0), (ADnEDPixelROIDim1MaxSize, 0), (ADnEDPixelROIDim2MaxSize, 0),
        (ADnEDPixelROIDim0MaxSize, int_of_size arraySize), (ADnEDPixelROIDim1MaxSize, int_of_size arraySize),
        (ADnEDPixelROIDim2MaxSize, int_of_size arraySize),
        (ADnEDPixelROIDim0Min, int_of_size (d_offset e0)), (ADnEDPixelROIDim0Size, int_of_size (d_size e0)),
        (ADnEDPixelROIDim1Min, int_of_size (d_offset e1)), (ADnEDPixelROIDim1Size, int_of_size (d_size e1)),
        (ADnEDPixelROIDim2Min, int_of_size (d_offset e2)), (ADnEDPixelROIDim2Size, int_of_size (d_size e2))] p)"

section \<open>Callback\<close>

text \<open>\<open>convert pArray dataType dims\<close> is the status (success or not) and the new array.\<close>

definition roi_processCallbacks ::
    "('p, roi_param) params \<Rightarrow> (NDArray \<Rightarrow> 'p \<Rightarrow> 'p) \<Rightarrow> (NDArray \<Rightarrow> i32 \<Rightarrow> NDDimension list \<Rightarrow> bool \<times> NDArray option)
      \<Rightarrow> NDArray \<Rightarrow> 'p roi_plugin \<Rightarrow> NDArray option \<times> 'p roi_plugin" where
  "roi_processCallbacks L beginProcessCallbacks convert pArray s =
     (let p0 = rp_params s;
          d0 = fetch_dim L ADnEDPixelROIDim0Min ADnEDPixelROIDim0Size p0;
          d1 = fetch_dim L ADnEDPixelROIDim1Min ADnEDPixelROIDim1Size p0;
          d2 = fetch_dim L ADnEDPixelROIDim2Min ADnEDPixelROIDim2Size p0;
          dataType0 = pget L p0 0 ADnEDPixelROIDataType;
          p1 = beginProcessCallbacks pArray p0;
          arraySize = d_size (nd_dims pArray 0);
          (e0, e1, e2) = fix_dims arraySize d0 d1 d2;
          p2 = publish_dims L arraySize (e0, e1, e2) p1;
          dataType = (if dataType0 = -1 then nd_type (pData pArray) else dataType0);
          new_dims = [\<lparr>d_size = d_size e0, d_offset = d_offset e0, d_binning = 1\<rparr>, \<lparr>d_size = 0, d_offset = 0, d_binning = 1\<rparr>];
          s1 = s\<lparr>rp_params := p2, rp_pArrays0 := None, rp_lock := rp_lock s - 1\<rparr>
      in case convert pArray dataType new_dims of
           (False, out) \<Rightarrow> (None, s1\<lparr>rp_pArrays0 := out, rp_lock := rp_lock s1 + 1\<rparr>)
         | (True, None) \<Rightarrow> (None, s1\<lparr>rp_lock := rp_lock s1 + 1\<rparr>)
         | (True, Some out) \<Rightarrow>
             let out2 = out\<lparr>ndims := 2,
                   nd_dims := (nd_dims out)(0 := \<lparr>d_size = d_size e1, d_offset = 0, d_binning = 1\<rparr>,
                     1 := \<lparr>d_size = d_size e2, d_offset = 0, d_binning = 1\<rparr>)\<rparr>;
                 p3 = fold (\<lambda>(q, v). pset L 0 q v)
                   [(NDArraySizeX, 0), (NDArraySizeY, 0), (NDArraySizeZ, 0),
                    (NDArraySizeX, int_of_size (d_size e1)), (NDArraySizeY, int_of_size (d_size e2))] p2
             in (Some out2, s1\<lparr>rp_pArrays0 := Some out2, rp_lock := rp_lock s1 + 1, rp_params := pcalls L 0 p3\<rparr>))"

section \<open>Constructor\<close>

text \<open>\<open>p0\<close> is what the constructor of the base class leaves; it is handed 1 as its number of addresses.\<close>

definition new_ADnEDPixelROI :: "('p, roi_param) params \<Rightarrow> 'p \<Rightarrow> 'p roi_plugin" where
  "new_ADnEDPixelROI L p0 =
     (let p1 = fold (pcreate L) [ADnEDPixelROIName, ADnEDPixelROIDim0Min, ADnEDPixelROIDim1Min, ADnEDPixelROIDim2Min,
            ADnEDPixelROIDim0Size, ADnEDPixelROIDim1Size, ADnEDPixelROIDim2Size, ADnEDPixelROIDim0MaxSize,
            ADnEDPixelROIDim1MaxSize, ADnEDPixelROIDim2MaxSize, ADnEDPixelROIDataType] p0
      in \<lparr>rp_params = pset_string L 0 RoiPluginType ''ADnEDPixelROI'' p1, rp_pArrays0 = None, rp_lock = 0\<rparr>)"

section \<open>What the clamps give\<close>

lemma size_of_nat:
  assumes "k < 2 ^ 31"
  shows "unat (of_nat k :: u64) = k" "unat (size_of_int (of_nat k)) = k"
proof -
  show "unat (of_nat k :: u64) = k" using assms by (simp add: unat_of_nat)
  show "unat (size_of_int (of_nat k)) = k" using size_of_int_nonneg(1) [of "of_nat k"] assms by (simp add: sint32_of_nat)
qed

lemma int_of_size_nat: "unat w = k \<Longrightarrow> k < 2 ^ 31 \<Longrightarrow> int_of_size w = of_nat k"
  by (simp add: word_unat_eq_iff unsigned_ucast_eq unat32_of_nat take_bit_nat_eq_self)

lemma unat_size_min_max:
  "unat (size_max a b) = max (unat a) (unat b)" "unat (size_min a b) = min (unat a) (unat b)"
  by (auto simp: size_max_def size_min_def unat64_less_iff)

lemma fix_dim_nat:
  assumes "0 < unat n"
  shows "unat (d_offset (fix_dim n bd d)) = min (unat (d_offset d)) (unat n - 1)"
    "unat (d_size (fix_dim n None d)) = max (unat (d_size d)) 1"
    "unat (d_size (fix_dim n (Some l) d)) = min (max (unat (d_size d)) 1) (unat l)"
proof -
  have "unat (n - 1) = unat n - 1" using assms by (subst unat_minus_one) (auto simp: unat_eq_0)
  then show "unat (d_offset (fix_dim n bd d)) = min (unat (d_offset d)) (unat n - 1)"
    by (simp add: fix_dim_def unat_size_min_max Let_def)
  show "unat (d_size (fix_dim n None d)) = max (unat (d_size d)) 1"
    "unat (d_size (fix_dim n (Some l) d)) = min (max (unat (d_size d)) 1) (unat l)"
    by (simp_all add: fix_dim_def unat_size_min_max Let_def)
qed



text \<open>The callback gives the lock back on every path. Whether the conversion fails, delivers no array, or
  succeeds, the plugin's lock is held exactly as often afterwards as before, and an array is passed on to
  the clients only if it is the 2-D array the plugin keeps for its readers.\<close>

theorem roi_lock_balanced:
  "rp_lock (snd (roi_processCallbacks L beg convert pArray s)) = rp_lock s
    \<and> (case fst (roi_processCallbacks L beg convert pArray s) of None \<Rightarrow> True
       | Some a \<Rightarrow> ndims a = 2 \<and> rp_pArrays0 (snd (roi_processCallbacks L beg convert pArray s)) = Some a)"
  by (auto simp: roi_processCallbacks_def Let_def split_beta split: prod.splits bool.splits option.splits)

lemma roi_image:
  assumes "plugin_port L addrs" "0 < addrs" "unat (d_size (nd_dims pArray 0)) = n"
    "pget L (rp_params s) 0 ADnEDPixelROIDim0Min = of_nat off" "off < n" "n < 2 ^ 31"
    "pget L (rp_params s) 0 ADnEDPixelROIDim0Size = of_nat seg" "seg < 2 ^ 31"
    "pget L (rp_params s) 0 ADnEDPixelROIDim1Size = of_nat x" "1 \<le> x" "x \<le> seg"
    "pget L (rp_params s) 0 ADnEDPixelROIDim2Size = of_nat y" "1 \<le> y" "y \<le> seg" "x * y < n"
    "convert pArray (if pget L (rp_params s) 0 ADnEDPixelROIDataType = -1 then nd_type (pData pArray)
        else pget L (rp_params s) 0 ADnEDPixelROIDataType)
       [\<lparr>d_size = of_nat seg, d_offset = of_nat off, d_binning = 1\<rparr>, \<lparr>d_size = 0, d_offset = 0, d_binning = 1\<rparr>] = (True, Some out)"
  shows "\<exists>a s'. roi_processCallbacks L beg convert pArray s = (Some a, s') \<and> pData a = pData out \<and> ndims a = 2
    \<and> unat (d_size (nd_dims a 0)) = x \<and> unat (d_size (nd_dims a 1)) = y
    \<and> pget L (rp_params s') 0 NDArraySizeX = of_nat x \<and> pget L (rp_params s') 0 NDArraySizeY = of_nat y"
proof -
  define N where "N = d_size (nd_dims pArray 0)"
  define d0 d1 d2 where "d0 = fetch_dim L ADnEDPixelROIDim0Min ADnEDPixelROIDim0Size (rp_params s)"
    and "d1 = fetch_dim L ADnEDPixelROIDim1Min ADnEDPixelROIDim1Size (rp_params s)"
    and "d2 = fetch_dim L ADnEDPixelROIDim2Min ADnEDPixelROIDim2Size (rp_params s)"
  have N: "unat N = n" "0 < n" using assms(3,5) by (simp_all add: N_def)
  note nat = fix_dim_nat [of N, unfolded N(1), OF N(2)]
  have lt: "off < 2 ^ 31" "x < 2 ^ 31" "y < 2 ^ 31" using assms(5,6,8,11,14) by linarith+
  have sizes: "unat (d_size d0) = seg" "unat (d_offset d0) = off" "unat (d_size d1) = x" "unat (d_size d2) = y"
    using lt assms(8) by (simp_all add: d0_def d1_def d2_def fetch_dim_def assms(4,7,9,12) size_of_nat)
  define e0 e1 e2 where "e0 = fix_dim N None d0" and "e1 = fix_dim N (Some (d_size e0)) d1" and "e2 = fix_dim N (Some (d_size e0)) d2"
  have e: "unat (d_size e0) = seg" "unat (d_offset e0) = off" "unat (d_size e1) = x" "unat (d_size e2) = y"
    using assms(5,10,11,13,14) by (auto simp: e0_def e1_def e2_def nat sizes)
  have e0: "d_size e0 = of_nat seg" "d_offset e0 = of_nat off" using e lt assms(8) by (simp_all add: word_unat_eq_iff size_of_nat)
  have "unat (d_size e1 * d_size e2) = x * y" using e assms(6,15) by (subst unat_size_mult) simp_all
  then have fd: "fix_dims N d0 d1 d2 = (e0, e1, e2)"
    using assms(15) N(1) by (simp add: fix_dims_def e0_def [symmetric] e1_def [symmetric] e2_def [symmetric] Let_def word_le_nat_alt)
  have xy: "int_of_size (d_size e1) = of_nat x" "int_of_size (d_size e2) = of_nat y"
    using e lt by (simp_all add: int_of_size_nat)
  show ?thesis using assms(16) e xy
    by (simp add: roi_processCallbacks_def N_def [symmetric] d0_def [symmetric] d1_def [symmetric] d2_def [symmetric]
        fd e0 Let_def plugin_port.pget_pcalls [OF assms(1)] plugin_port.pget_pset [OF assms(1,2)])
qed

text \<open>(C32) A well-formed region is shown as asked. For a segment of \<open>seg\<close> elements that starts inside the array and an
  image of \<open>x\<close> by \<open>y\<close> elements, with both sides at most \<open>seg\<close> and fewer elements than the array has, the
  conversion is asked for exactly that segment, and when it delivers an array its elements are passed on
  unchanged under the dimensions \<open>x\<close> and \<open>y\<close>, which the parameters report.\<close>

theorem roi_shows_image:
  assumes "plugin_port L addrs" "0 < addrs" "unat (d_size (nd_dims pArray 0)) = n"
    "pget L (rp_params s) 0 ADnEDPixelROIDim0Min = of_nat off" "off < n" "n < 2 ^ 31"
    "pget L (rp_params s) 0 ADnEDPixelROIDim0Size = of_nat seg" "seg < 2 ^ 31"
    "pget L (rp_params s) 0 ADnEDPixelROIDim1Size = of_nat x" "1 \<le> x" "x \<le> seg"
    "pget L (rp_params s) 0 ADnEDPixelROIDim2Size = of_nat y" "1 \<le> y" "y \<le> seg" "x * y < n"
    "convert pArray (if pget L (rp_params s) 0 ADnEDPixelROIDataType = -1 then nd_type (pData pArray)
        else pget L (rp_params s) 0 ADnEDPixelROIDataType)
       [\<lparr>d_size = of_nat seg, d_offset = of_nat off, d_binning = 1\<rparr>, \<lparr>d_size = 0, d_offset = 0, d_binning = 1\<rparr>] = (True, Some out)"
  shows "\<exists>a s'. roi_processCallbacks L beg convert pArray s = (Some a, s') \<and> pData a = pData out \<and> ndims a = 2
    \<and> unat (d_size (nd_dims a 0)) = x \<and> unat (d_size (nd_dims a 1)) = y
    \<and> pget L (rp_params s') 0 NDArraySizeX = of_nat x \<and> pget L (rp_params s') 0 NDArraySizeY = of_nat y"
  using assms by (rule roi_image)

text \<open>A 100-element array, of which 20 elements from 10 on are shown as 5 by 4.\<close>

definition demo_roi :: "(nat \<Rightarrow> roi_param \<Rightarrow> i32) roi_plugin" where
  "demo_roi = \<lparr>rp_params = (\<lambda>_ q. if q = ADnEDPixelROIDim0Min then 10 else if q = ADnEDPixelROIDim0Size then 20
     else if q = ADnEDPixelROIDim1Size then 5 else if q = ADnEDPixelROIDim2Size then 4
     else if q = ADnEDPixelROIDataType then -1 else 0), rp_pArrays0 = None, rp_lock = 1\<rparr>"

definition demo_line :: "nat \<Rightarrow> NDArray" where
  "demo_line n = \<lparr>ndims = 1, nd_dims = (\<lambda>_. \<lparr>d_size = of_nat n, d_offset = 0, d_binning = 1\<rparr>), pData = NDUInt32 (replicate n 7)\<rparr>"

theorem roi_shows_image_witness:
  "\<exists>a s'. roi_processCallbacks (fun_params 1) (\<lambda>_ p. p) (\<lambda>_ _ ds. (True, Some (demo_line (unat (d_size (ds ! 0)))))) (demo_line 100) demo_roi
      = (Some a, s') \<and> pData a = NDUInt32 (replicate 20 7) \<and> unat (d_size (nd_dims a 0)) = 5 \<and> unat (d_size (nd_dims a 1)) = 4"
  using roi_shows_image [where L = "fun_params 1" and addrs = 1 and pArray = "demo_line 100" and n = 100 and s = demo_roi
    and off = 10 and seg = 20 and x = 5 and y = 4 and beg = "\<lambda>_ p. p" and out = "demo_line 20"
    and convert = "\<lambda>_ _ ds. (True, Some (demo_line (unat (d_size (ds ! 0)))))"] fp.plugin_port_axioms [of 1]
  by (auto simp: demo_roi_def demo_line_def fun_params_def)

text \<open>An image that covers the whole array is refused. The comment at the check says that the image must not be
  bigger than the array; an image with exactly as many elements as the array is replaced by one element
  all the same.\<close>

theorem roi_full_image_refused:
  assumes "unat (d_size d1) * unat (d_size d2) = unat n" "1 \<le> unat (d_size d1)" "1 \<le> unat (d_size d2)"
    "unat (d_size d1) \<le> unat (d_size d0)" "unat (d_size d2) \<le> unat (d_size d0)"
  shows "\<exists>e0 e1 e2. fix_dims n d0 d1 d2 = (e0, e1, e2) \<and> d_size e1 = 1 \<and> d_size e2 = 1"
proof -
  have n: "0 < unat n" using assms(1-3) by (metis less_le_trans mult_pos_pos zero_less_one)
  note nat = fix_dim_nat [OF n]
  define f0 where "f0 = fix_dim n None d0"
  have "unat (d_size (fix_dim n (Some (d_size f0)) d1)) = unat (d_size d1)" "unat (d_size (fix_dim n (Some (d_size f0)) d2)) = unat (d_size d2)"
    using assms(2-5) by (auto simp: nat f0_def)
  then have "unat (d_size (fix_dim n (Some (d_size f0)) d1) * d_size (fix_dim n (Some (d_size f0)) d2)) = unat n"
    using assms(1) unat64_lt [of n] by (subst unat_size_mult) simp_all
  then have "n \<le> d_size (fix_dim n (Some (d_size f0)) d1) * d_size (fix_dim n (Some (d_size f0)) d2)"
    by (simp add: word_le_nat_alt)
  then show ?thesis by (simp add: fix_dims_def f0_def Let_def)
qed

theorem roi_full_image_refused_witness:
  "\<exists>e0 e1 e2. fix_dims 20 \<lparr>d_size = 20, d_offset = 0, d_binning = 0\<rparr> \<lparr>d_size = 5, d_offset = 0, d_binning = 0\<rparr>
      \<lparr>d_size = 4, d_offset = 0, d_binning = 0\<rparr> = (e0, e1, e2) \<and> d_size e1 = 1 \<and> d_size e2 = 1"
  using roi_full_image_refused [of "\<lparr>d_size = 5, d_offset = 0, d_binning = 0\<rparr>" "\<lparr>d_size = 4, d_offset = 0, d_binning = 0\<rparr>" 20
    "\<lparr>d_size = 20, d_offset = 0, d_binning = 0\<rparr>"] by simp

text \<open>The constructor sets no defaults, although its comment says so. Until a client sets the region and the type, every array
  is reduced to its first element, as an image of one by one, and converted to data type 0, which is \<open>NDInt8\<close>.\<close>

theorem roi_defaults:
  assumes "plugin_port L 1" "convert pArray 0 [\<lparr>d_size = 1, d_offset = 0, d_binning = 1\<rparr>, \<lparr>d_size = 0, d_offset = 0, d_binning = 1\<rparr>]
      = (True, Some out)"
  shows "\<exists>a s'. roi_processCallbacks L beg convert pArray (new_ADnEDPixelROI L p0) = (Some a, s') \<and> pData a = pData out
    \<and> d_size (nd_dims a 0) = 1 \<and> d_size (nd_dims a 1) = 1"
proof -
  define N where "N = d_size (nd_dims pArray 0)"
  have get: "pget L (rp_params (new_ADnEDPixelROI L p0)) 0 q = 0"
    if "q \<in> {ADnEDPixelROIDim0Min, ADnEDPixelROIDim1Min, ADnEDPixelROIDim2Min, ADnEDPixelROIDim0Size, ADnEDPixelROIDim1Size,
      ADnEDPixelROIDim2Size, ADnEDPixelROIDataType}" for q
    using that
    by (auto simp: new_ADnEDPixelROI_def Let_def plugin_port.pget_pcreate [OF assms(1)] plugin_port.pget_pset_string [OF assms(1)])
  have f: "fix_dim N bd \<lparr>d_size = 0, d_offset = 0, d_binning = 0\<rparr> =
      \<lparr>d_size = (case bd of None \<Rightarrow> 1 | Some l \<Rightarrow> size_min 1 l), d_offset = 0, d_binning = 1\<rparr>" for bd
    by (auto simp: fix_dim_def size_max_def size_min_def Let_def word_gt_0 word_sless_alt split: option.splits)
  have "fix_dims N \<lparr>d_size = 0, d_offset = 0, d_binning = 0\<rparr> \<lparr>d_size = 0, d_offset = 0, d_binning = 0\<rparr> \<lparr>d_size = 0, d_offset = 0, d_binning = 0\<rparr>
      = (\<lparr>d_size = 1, d_offset = 0, d_binning = 1\<rparr>, \<lparr>d_size = 1, d_offset = 0, d_binning = 1\<rparr>, \<lparr>d_size = 1, d_offset = 0, d_binning = 1\<rparr>)"
    by (simp add: fix_dims_def f size_min_def Let_def)
  then show ?thesis using assms(2)
    by (simp add: roi_processCallbacks_def fetch_dim_def get N_def [symmetric] Let_def)
qed

end
