(* ===== verification/Channel.thy ===== *)
theory Channel
  imports Acquisition
begin

text \<open>
  The pvAccess side: the requesters of \<open>nEDChannel.cpp\<close>, \<open>setupChannelMonitor\<close>, and the loops of \<open>eventTask\<close> over
  the channels (\<open>ADnED.cpp\<close>). pvAccess itself is the argument \<open>N\<close>: whether there is a provider, whether the
  CONNECTED state of a channel arrives within the timeout, and what \<open>isConnected\<close> answers. One event is shared by
  all the channels (there is one channel requester), one belongs to each monitor requester; an event that nobody
  has waited for stays signalled.
\<close>

section \<open>State\<close>

record pvnet =
  has_provider :: bool
  connects :: "nat \<Rightarrow> string \<Rightarrow> bool"
  is_connected :: "nat \<Rightarrow> string \<Rightarrow> bool"

text \<open>A channel is known by its name, a monitor by the name of the channel it was created on.\<close>

record chans =
  p_ChannelRequester :: bool
  p_ChannelProvider :: bool
  p_Channel :: "nat \<Rightarrow> string option"
  p_Monitor :: "nat \<Rightarrow> string option"
  mon_started :: "nat \<Rightarrow> bool"
  m_connectEvent :: bool
  mon_connectEvent :: "nat \<Rightarrow> bool"

text \<open>As the constructor of the driver leaves it: the requesters exist, nothing is connected, no event is signalled.\<close>

definition new_chans :: chans where
  "new_chans = \<lparr>p_ChannelRequester = True, p_ChannelProvider = False, p_Channel = (\<lambda>_. None), p_Monitor = (\<lambda>_. None),
     mon_started = (\<lambda>_. False), m_connectEvent = False, mon_connectEvent = (\<lambda>_. False)\<rparr>"

datatype ConnectionState = NEVER_CONNECTED | CONNECTED | DISCONNECTED | DESTROYED

section \<open>nEDChannelRequester, nEDMonitorRequester\<close>

definition channelStateChange :: "ConnectionState \<Rightarrow> chans \<Rightarrow> chans" where
  "channelStateChange connectionState c = (if connectionState = CONNECTED then c\<lparr>m_connectEvent := True\<rparr> else c)"

text \<open>The flag says whether the signal arrives while the call waits.\<close>

definition waitUntilConnected :: "bool \<Rightarrow> chans \<Rightarrow> bool \<times> chans" where
  "waitUntilConnected arrives c =
     (if m_connectEvent c then (True, c\<lparr>m_connectEvent := False\<rparr>)
      else let c1 = (if arrives then channelStateChange CONNECTED c else c)
           in (m_connectEvent c1, c1\<lparr>m_connectEvent := False\<rparr>))"

definition monitorConnect :: "bool \<Rightarrow> bool \<Rightarrow> nat \<Rightarrow> chans \<Rightarrow> chans" where
  "monitorConnect isSuccess has_userTag ch c =
     (if isSuccess then if \<not> has_userTag then c else c\<lparr>mon_connectEvent := (mon_connectEvent c)(ch := True)\<rparr> else c)"

text \<open>The updates that \<open>poll\<close> delivers before it delivers none, each with the time at which it is handled. An
  exception from \<open>release\<close> is caught and printed.\<close>

fun monitorEvent ::
    "machine \<Rightarrow> 'p asyn \<Rightarrow> 't pvtime \<Rightarrow> u32 \<Rightarrow> (u32 \<times> u32 \<times> 't pvdata) list \<Rightarrow> ('p, 't) adned \<Rightarrow> ('p, 't) adned res" where
  "monitorEvent M A T m_channelID [] s = Inr s"
| "monitorEvent M A T m_channelID ((sec, ns, update) # queue) s =
     res_bind (eventHandler M A T sec ns update m_channelID s) (monitorEvent M A T m_channelID queue)"

section \<open>setupChannelMonitor\<close>

text \<open>The flag is \<open>False\<close> when an exception is thrown; what has been changed up to there stays.\<close>

definition create_channel :: "string \<Rightarrow> nat \<Rightarrow> chans \<Rightarrow> chans" where
  "create_channel pvName channel c = c\<lparr>p_Channel := (p_Channel c)(channel := Some pvName)\<rparr>"

definition create_monitor :: "string \<Rightarrow> nat \<Rightarrow> chans \<Rightarrow> chans" where
  "create_monitor pvName channel c =
     c\<lparr>p_Monitor := (p_Monitor c)(channel := Some pvName), mon_started := (mon_started c)(channel := False),
       mon_connectEvent := (mon_connectEvent c)(channel := False)\<rparr>"

definition connect_channel :: "pvnet \<Rightarrow> string \<Rightarrow> nat \<Rightarrow> chans \<Rightarrow> bool \<times> bool \<times> chans" where
  "connect_channel N pvName channel c =
     (case p_Channel c channel of
        None \<Rightarrow>
          let (connectStatus, c') = waitUntilConnected (connects N channel pvName) (create_channel pvName channel c)
          in (connectStatus, False, c')
      | Some channelName \<Rightarrow>
          if channelName \<noteq> pvName
          then let (connectStatus, c') = waitUntilConnected (connects N channel pvName) (create_channel pvName channel c)
               in (is_connected N channel pvName, True, c')
          else (is_connected N channel channelName, False, c))"

definition setupChannelMonitor :: "pvnet \<Rightarrow> string \<Rightarrow> nat \<Rightarrow> chans \<Rightarrow> bool \<times> chans" where
  "setupChannelMonitor N pvName channel c =
     (if channel \<ge> ADNED_MAX_CHANNELS then (False, c)
      else if \<not> p_ChannelRequester c then (False, c)
      else if \<not> p_ChannelProvider c \<and> \<not> has_provider N then (False, c)
      else
        let (connectStatus, newMonitor, c2) = connect_channel N pvName channel (c\<lparr>p_ChannelProvider := True\<rparr>)
        in if \<not> connectStatus then (False, c2)
           else if p_Monitor c2 channel = None \<or> newMonitor then (True, create_monitor pvName channel c2)
           else (True, c2))"

section \<open>The channel loops of eventTask\<close>

text \<open>\<open>for (int channel=0; channel<numChannels; ++channel)\<close>.\<close>

definition chan_range :: "i32 \<Rightarrow> nat list" where "chan_range n = [0..<nat (sint n)]"

text \<open>\<open>pvName[channel][0] != '0'\<close>; the first character of an empty string is the NUL.\<close>

definition wanted :: "string \<Rightarrow> bool" where
  "wanted pvName \<longleftrightarrow> (case pvName of [] \<Rightarrow> True | c # _ \<Rightarrow> c \<noteq> CHR ''0'')"

fun connect_channels :: "pvnet \<Rightarrow> (nat \<Rightarrow> string) \<Rightarrow> nat list \<Rightarrow> chans \<Rightarrow> bool \<times> chans" where
  "connect_channels N names [] c = (True, c)"
| "connect_channels N names (ch # chs) c =
     (if wanted (names ch)
      then case setupChannelMonitor N (names ch) ch c of
             (ok, c') \<Rightarrow> if ok then connect_channels N names chs c' else (False, c')
      else connect_channels N names chs c)"

fun set_monitors :: "bool \<Rightarrow> nat list \<Rightarrow> chans \<Rightarrow> chans" where
  "set_monitors on [] c = c"
| "set_monitors on (ch # chs) c =
     set_monitors on chs (if p_Monitor c ch \<noteq> None then c\<lparr>mon_started := (mon_started c)(ch := on)\<rparr> else c)"

section \<open>Lemmas\<close>

lemma monitorEvent_run: "monitorEvent M A T ch us s = run_updates M A T (map (\<lambda>(sec, ns, pv). (sec, ns, pv, ch)) us) s"
  by (induction M A T ch us s rule: monitorEvent.induct)
    (auto simp: run_updates_def res_bind_def split: sum.splits)

lemma set_monitors_fields [simp]: "p_Monitor (set_monitors on chs c) = p_Monitor c" "p_Channel (set_monitors on chs c) = p_Channel c"
  by (induction chs arbitrary: c) auto

lemma set_monitors_started:
  "mon_started (set_monitors on chs c) ch = (if ch \<in> set chs \<and> p_Monitor c ch \<noteq> None then on else mon_started c ch)"
  by (induction chs arbitrary: c) auto

text \<open>A monitor belongs to the present channel.\<close>

definition mon_inv :: "chans \<Rightarrow> bool" where
  "mon_inv c \<longleftrightarrow> (\<forall>ch. p_Monitor c ch \<noteq> None \<longrightarrow> p_Monitor c ch = p_Channel c ch)"

definition can_connect :: "pvnet \<Rightarrow> chans \<Rightarrow> bool" where
  "can_connect N c \<longleftrightarrow> p_ChannelRequester c \<and> (p_ChannelProvider c \<or> has_provider N)"

lemma wait_fields:
  "waitUntilConnected b c = (r, c') \<Longrightarrow> c' = c\<lparr>m_connectEvent := False\<rparr> \<and> r = (m_connectEvent c \<or> b)"
  by (auto simp: waitUntilConnected_def channelStateChange_def Let_def split: if_splits)

lemma connect_channel_result:
  assumes "connect_channel N nm ch c = (r, new, c')"
  shows "p_Channel c' = (p_Channel c)(ch := Some nm)" "p_Monitor c' = p_Monitor c" "p_ChannelRequester c' = p_ChannelRequester c"
    "p_ChannelProvider c' = p_ChannelProvider c" "new = (p_Channel c ch \<noteq> None \<and> p_Channel c ch \<noteq> Some nm)"
    "connects N ch nm \<Longrightarrow> is_connected N ch nm \<Longrightarrow> r"
  using assms
  by (auto simp: connect_channel_def create_channel_def fun_upd_idem split: option.splits if_splits prod.splits dest!: wait_fields)

lemma setup_ok:
  assumes "mon_inv c" "can_connect N c" "ch < ADNED_MAX_CHANNELS" "connects N ch nm" "is_connected N ch nm"
  shows "\<exists>c'. setupChannelMonitor N nm ch c = (True, c') \<and> mon_inv c' \<and> can_connect N c'
    \<and> p_Channel c' = (p_Channel c)(ch := Some nm) \<and> p_Monitor c' = (p_Monitor c)(ch := Some nm)"
proof -
  obtain r new c2 where cc: "connect_channel N nm ch (c\<lparr>p_ChannelProvider := True\<rparr>) = (r, new, c2)"
    by (cases "connect_channel N nm ch (c\<lparr>p_ChannelProvider := True\<rparr>)")
  note res = connect_channel_result [OF cc]
  have r: "r" using res(6) assms(4,5) by simp
  have keep: "p_Monitor c ch = Some nm" if "p_Monitor c2 ch \<noteq> None" "\<not> new"
    using that res(2,5) assms(1) by (auto simp: mon_inv_def)
  have m: "mon_inv c'" if "p_Channel c' = (p_Channel c)(ch := Some nm)" "p_Monitor c' = (p_Monitor c)(ch := Some nm)" for c'
    using that assms(1) by (auto simp: mon_inv_def)
  show ?thesis
  proof (cases "p_Monitor c2 ch = None \<or> new")
    case True
    with r cc assms(2,3) have "setupChannelMonitor N nm ch c = (True, create_monitor nm ch c2)"
      by (simp add: setupChannelMonitor_def can_connect_def not_le)
    moreover have "p_Channel (create_monitor nm ch c2) = (p_Channel c)(ch := Some nm)"
      "p_Monitor (create_monitor nm ch c2) = (p_Monitor c)(ch := Some nm)" "can_connect N (create_monitor nm ch c2)"
      using res(1-4) assms(2) by (simp_all add: create_monitor_def can_connect_def)
    ultimately show ?thesis using m by blast
  next
    case False
    with r cc assms(2,3) have "setupChannelMonitor N nm ch c = (True, c2)"
      by (auto simp: setupChannelMonitor_def can_connect_def not_le)
    moreover have "p_Channel c2 = (p_Channel c)(ch := Some nm)" "p_Monitor c2 = (p_Monitor c)(ch := Some nm)" "can_connect N c2"
      using res(1-4) assms(2) keep False by (simp_all add: can_connect_def fun_upd_idem)
    ultimately show ?thesis using m by blast
  qed
qed

lemma connect_channels_ok:
  assumes "mon_inv c" "can_connect N c"
    "\<And>ch. ch \<in> set chs \<Longrightarrow> ch < ADNED_MAX_CHANNELS \<and> connects N ch (names ch) \<and> is_connected N ch (names ch)"
  shows "\<exists>c'. connect_channels N names chs c = (True, c') \<and> mon_inv c' \<and> can_connect N c'
    \<and> (\<forall>ch. p_Channel c' ch = (if ch \<in> set chs \<and> wanted (names ch) then Some (names ch) else p_Channel c ch))
    \<and> (\<forall>ch. p_Monitor c' ch = (if ch \<in> set chs \<and> wanted (names ch) then Some (names ch) else p_Monitor c ch))"
  using assms
proof (induction chs arbitrary: c)
  case (Cons ch chs)
  show ?case
  proof (cases "wanted (names ch)")
    case True
    obtain c1 where c1: "setupChannelMonitor N (names ch) ch c = (True, c1)" "mon_inv c1" "can_connect N c1"
        "p_Channel c1 = (p_Channel c)(ch := Some (names ch))" "p_Monitor c1 = (p_Monitor c)(ch := Some (names ch))"
      using setup_ok [OF Cons.prems(1,2), of ch "names ch"] Cons.prems(3) by auto
    with Cons.IH [OF c1(2,3)] Cons.prems(3) True show ?thesis by fastforce
  next
    case False
    with Cons.IH [OF Cons.prems(1,2)] Cons.prems(3) show ?thesis by fastforce
  qed
qed simp


section \<open>A failed change of name\<close>

text \<open>(C38) After a failed change of name a channel listens to the wrong data. Let a channel with a working monitor
  be given a new name that does not connect at the first start. That start fails, as it should. At the next start,
  with the server of the new name now there, the set-up reports success: the channel has the new name, but its monitor
  is still the one that was created on the old channel, which has been destroyed.\<close>

theorem stale_monitor:
  assumes "channel < ADNED_MAX_CHANNELS" "can_connect N c" "p_Channel c channel = Some old" "p_Monitor c channel = Some old"
    "new \<noteq> old" "\<not> is_connected N channel new" "is_connected N' channel new"
  shows "\<exists>c1 c2. setupChannelMonitor N new channel c = (False, c1) \<and> setupChannelMonitor N' new channel c1 = (True, c2)
    \<and> p_Channel c2 channel = Some new \<and> p_Monitor c2 channel = Some old"
proof -
  obtain r fresh c1 where cc: "connect_channel N new channel (c\<lparr>p_ChannelProvider := True\<rparr>) = (r, fresh, c1)"
    by (cases "connect_channel N new channel (c\<lparr>p_ChannelProvider := True\<rparr>)")
  have "\<not> r" using cc assms(3,5,6) by (auto simp: connect_channel_def split: prod.splits)
  moreover note res = connect_channel_result [OF cc]
  ultimately have 1: "setupChannelMonitor N new channel c = (False, c1)"
    using cc assms(1,2) by (auto simp: setupChannelMonitor_def can_connect_def not_le)
  have c1: "c1\<lparr>p_ChannelProvider := True\<rparr> = c1" using res(4) by simp
  have "connect_channel N' new channel c1 = (True, False, c1)"
    using res(1) assms(7) by (simp add: connect_channel_def)
  then have 2: "setupChannelMonitor N' new channel c1 = (True, c1)"
    using res(2,3,4) assms(1,2,4) by (simp add: c1 setupChannelMonitor_def can_connect_def not_le)
  show ?thesis using 1 2 res(1,2) assms(4) by auto
qed

definition demo_net :: "string list \<Rightarrow> pvnet" where
  "demo_net up = \<lparr>has_provider = True, connects = (\<lambda>_ nm. nm \<in> set up), is_connected = (\<lambda>_ nm. nm \<in> set up)\<rparr>"

theorem stale_monitor_witness:
  "\<exists>c0 c1 c2. setupChannelMonitor (demo_net [''a'']) ''a'' 0 new_chans = (True, c0)
    \<and> setupChannelMonitor (demo_net [''a'']) ''b'' 0 c0 = (False, c1)
    \<and> setupChannelMonitor (demo_net [''a'', ''b'']) ''b'' 0 c1 = (True, c2)
    \<and> p_Channel c2 0 = Some ''b'' \<and> p_Monitor c2 0 = Some ''a''"
proof -
  obtain c0 where "setupChannelMonitor (demo_net [''a'']) ''a'' 0 new_chans = (True, c0)" "can_connect (demo_net [''a'']) c0"
      "p_Channel c0 0 = Some ''a''" "p_Monitor c0 0 = Some ''a''"
    using setup_ok [of new_chans "demo_net [''a'']" 0 "''a''"]
    by (auto simp: mon_inv_def new_chans_def demo_net_def can_connect_def)
  then show ?thesis
    using stale_monitor [of 0 "demo_net [''a'']" c0 "''a''" "''b''" "demo_net [''a'', ''b'']"] by (auto simp: demo_net_def)
qed

end
