(* ===== verification/Tasks.thy ===== *)
theory Tasks
  imports CommandSpec Channel
begin

text \<open>
  The two threads of the driver, \<open>eventTask\<close> and \<open>frameTask\<close> (\<open>ADnED.cpp\<close>). A thread is a program counter at one
  of its waits and a step function for what it does from that wait to the next. The \<open>epicsEvent\<close>s are the flags of
  \<open>ioc\<close>: a wait takes the signal and returns \<open>epicsEventWaitOK\<close>; a wait with a timeout may also go on without
  one. \<open>et_lock\<close> and \<open>ft_lock\<close> count a thread's calls of \<open>lock()\<close> minus its calls of \<open>unlock()\<close>; the
  driver's mutex is recursive. The pool of NDArrays is the argument \<open>pool\<close>: for which sizes it delivers one.
\<close>

section \<open>eventTask\<close>

datatype event_pc = Wait_Idle | Wait_Start | Wait_Stop

record event_task =
  et_pc :: event_pc
  et_acquire :: bool
  et_error :: bool
  et_numChannels :: i32
  et_lock :: int

definition new_event_task :: event_task where
  "new_event_task = \<lparr>et_pc = Wait_Idle, et_acquire = False, et_error = True, et_numChannels = 0, et_lock = 0\<rparr>"

text \<open>What the thread does before its loop.\<close>

definition et_boot :: "'p asyn \<Rightarrow> ('p, 't) ioc \<Rightarrow> ('p, 't) ioc" where
  "et_boot A s = s\<lparr>drv := upd_plib (setS A 0 ADStatusMessage ''Startup'') (drv s)\<rparr>"

type_synonym ('p, 't) et_state = "event_task \<times> chans \<times> ('p, 't) ioc"

text \<open>From the wait at the top of the loop to the wait for a start. \<open>m_stopEvent\<close> is taken if it is signalled.\<close>

definition et_idle :: "'p asyn \<Rightarrow> ('p, 't) et_state \<Rightarrow> ('p, 't) et_state" where
  "et_idle A = (\<lambda>(e, c, s).
     let p1 = setI A 0 ADAcquire 0 (plib (drv s));
         p2 = (if et_error e then p1 else setS A 0 ADStatusMessage ''Idle'' p1)
     in (e\<lparr>et_pc := Wait_Start\<rparr>, c, s\<lparr>ev_stop := False, drv := (drv s)\<lparr>plib := calls A 0 p2\<rparr>\<rparr>))"

text \<open>What a start does with the lock held: allocate, clear the buffer, connect, start the monitors. The first
  component of the result is \<open>error\<close>.\<close>

definition et_start ::
    "machine \<Rightarrow> 'p asyn \<Rightarrow> pvnet \<Rightarrow> i32 \<Rightarrow> chans \<Rightarrow> ('p, 't) ioc \<Rightarrow> (bool \<times> chans \<times> ('p, 't) ioc) res" where
  "et_start M A N numChannels c s =
     (let (st, d1) = allocArray (calloc_ok M) A (drv s)
      in if st \<noteq> asynSuccess
         then Inr (True, c, s\<lparr>drv := upd_plib (setS A 0 ADStatusMessage ''allocArray Error'') d1\<rparr>)
         else
           res_bind (clear_data d1) (\<lambda>d2.
             let p1 = calls A 0 (setS A 0 ADStatusMessage ''Acquiring Events'' (setI A 0 ADStatus ADStatusAcquire (plib d2)));
                 s1 = s\<lparr>drv := d2\<lparr>plib := p1\<rparr>, ev_startFrame := True\<rparr>;
                 names = (\<lambda>ch. getStringParam A p1 ch ADnEDPVName);
                 (ok, c1) = connect_channels N names (chan_range numChannels) c
             in if ok then Inr (False, set_monitors True (chan_range numChannels) c1, s1)
                else Inr (True, c1, s1\<lparr>ev_stopFrame := True, drv := upd_plib
                       (\<lambda>p. setI A 0 ADStatus ADStatusError (setS A 0 ADStatusMessage ''Failed To Connect To PV.'' p)) (drv s1)\<rparr>)))"

text \<open>From the end of the inner loop to the top: stop the monitors, zero the rates, complete the stop.\<close>

fun zero_rates :: "'p asyn \<Rightarrow> nat list \<Rightarrow> 'p \<Rightarrow> 'p" where
  "zero_rates A [] p = p"
| "zero_rates A (det # dets) p = zero_rates A dets (calls A det (setI A det ADnEDDetEventRate 0 p))"

definition et_finish :: "'p asyn \<Rightarrow> ('p, 't) et_state \<Rightarrow> ('p, 't) et_state" where
  "et_finish A = (\<lambda>(e, c, s).
     let p = plib (drv s);
         numDet = getIntegerParam A p 0 ADnEDNumDet;
         p1 = zero_rates A (det_range numDet) (setI A 0 ADnEDEventRate 0 p);
         p2 = calls A 0 (setI A 0 ADnEDStop 0 (calls A 0 p1))
     in (e\<lparr>et_pc := Wait_Idle, et_lock := et_lock e - 1\<rparr>, set_monitors False (chan_range (et_numChannels e)) c,
         s\<lparr>drv := (drv s)\<lparr>plib := p2\<rparr>\<rparr>))"

text \<open>From the wait for a start to the next wait. A start that fails goes straight on to \<open>et_finish\<close>.\<close>

definition et_started :: "machine \<Rightarrow> 'p asyn \<Rightarrow> pvnet \<Rightarrow> ('p, 't) et_state \<Rightarrow> ('p, 't) et_state res" where
  "et_started M A N = (\<lambda>(e, c, s).
     let numChannels = clamp_max ADNED_MAX_CHANNELS (getIntegerParam A (plib (drv s)) 0 ADnEDNumChannels);
         e1 = e\<lparr>et_lock := et_lock e + 1, et_numChannels := numChannels\<rparr>
     in res_bind (et_start M A N numChannels c (s\<lparr>ev_start := False\<rparr>)) (\<lambda>(err, c1, s1).
          let p1 = (if err then setI A 0 ADStatus ADStatusError (plib (drv s1)) else plib (drv s1));
              p2 = calls A 0 (setI A 0 ADnEDStart 0 (calls A 0 p1));
              s2 = s1\<lparr>drv := (drv s1)\<lparr>plib := p2\<rparr>\<rparr>;
              e2 = e1\<lparr>et_error := err, et_acquire := \<not> err, et_lock := et_lock e1 - 1\<rparr>
          in if err then Inr (et_finish A (e2, c1, s2))
             else Inr (e2\<lparr>et_pc := Wait_Stop\<rparr>, c1, s2)))"

text \<open>From the wait for a stop, when the stop has been signalled.\<close>

definition et_stopped :: "'p asyn \<Rightarrow> ('p, 't) et_state \<Rightarrow> ('p, 't) et_state" where
  "et_stopped A = (\<lambda>(e, c, s).
     et_finish A (e\<lparr>et_acquire := False, et_lock := et_lock e + 1\<rparr>, c,
       s\<lparr>ev_stop := False, ev_stopFrame := True, drv := upd_plib (setI A 0 ADStatus ADStatusIdle) (drv s)\<rparr>))"

text \<open>The thread as a transition relation: one step from wait to wait.\<close>

inductive event_step :: "machine \<Rightarrow> 'p asyn \<Rightarrow> pvnet \<Rightarrow> ('p, 't) et_state \<Rightarrow> ('p, 't) et_state \<Rightarrow> bool"
  for M :: machine and A :: "'p asyn" and N :: pvnet where
  idle: "et_pc e = Wait_Idle \<Longrightarrow> event_step M A N (e, c, s) (et_idle A (e, c, s))"
| start: "et_pc e = Wait_Start \<Longrightarrow> ev_start s \<Longrightarrow> et_started M A N (e, c, s) = Inr x \<Longrightarrow> event_step M A N (e, c, s) x"
| stop: "et_pc e = Wait_Stop \<Longrightarrow> ev_stop s \<Longrightarrow> event_step M A N (e, c, s) (et_stopped A (e, c, s))"
| timeout: "et_pc e = Wait_Stop \<Longrightarrow> \<not> ev_stop s \<Longrightarrow> event_step M A N (e, c, s) (e, c, s)"

inductive_cases event_stepE: "event_step M A N (e, c, s) x"

section \<open>frameTask\<close>

datatype frame_pc = Frame_Idle | Frame_Start | Frame_Acquire

record frame_task =
  ft_pc :: frame_pc
  ft_counter :: i32
  ft_lock :: int

definition new_frame_task :: frame_task where
  "new_frame_task = \<lparr>ft_pc = Frame_Idle, ft_counter = 0, ft_lock = 1\<rparr>"

text \<open>An array passed on to the plugins: its \<open>uniqueId\<close> and its elements.\<close>

type_synonym ('p, 't) ft_state = "frame_task \<times> (i32 \<times> u32 list) list \<times> ('p, 't) ioc"

text \<open>\<open>memcpy(pNDArray->pData, p_Data, m_bufferMaxSize * sizeof(epicsUInt32))\<close>.\<close>

definition copy_data :: "('p, 't) adned \<Rightarrow> u32 list res" where
  "copy_data d =
     (case p_Data d of
        None \<Rightarrow> if m_bufferMaxSize d = 0 then Inr [] else Inl Null_Deref
      | Some xs \<Rightarrow> if length xs < unat (m_bufferMaxSize d) then Inl Oob_Read else Inr (take (unat (m_bufferMaxSize d)) xs))"

definition ft_idle :: "'p asyn \<Rightarrow> ('p, 't) ft_state \<Rightarrow> ('p, 't) ft_state" where
  "ft_idle A = (\<lambda>(f, out, s). (f\<lparr>ft_pc := Frame_Start\<rparr>, out, s\<lparr>ev_stopFrame := False, drv := upd_plib (calls A 0) (drv s)\<rparr>))"

definition ft_started :: "'p asyn \<Rightarrow> ('p, 't) ft_state \<Rightarrow> ('p, 't) ft_state" where
  "ft_started A = (\<lambda>(f, out, s).
     (f\<lparr>ft_pc := Frame_Acquire, ft_counter := 0\<rparr>, out,
      s\<lparr>ev_startFrame := False, drv := upd_plib (\<lambda>p. calls A 0 (setI A 0 NDArrayCounter 0 p)) (drv s)\<rparr>))"

text \<open>One turn of the acquisition loop after the timeout has run out. The lock taken before the copy is not
  given back; \<open>release\<close> is called whether or not there is an array.\<close>

definition ft_frame :: "(nat \<Rightarrow> bool) \<Rightarrow> 'p asyn \<Rightarrow> ('p, 't) ft_state \<Rightarrow> ('p, 't) ft_state res" where
  "ft_frame pool A = (\<lambda>(f, out, s).
     if getIntegerParam A (plib (drv s)) 0 NDArrayCallbacks = 0 then Inr (f, out, s)
     else if \<not> pool (unat (m_bufferMaxSize (drv s))) then Inl Null_Deref
     else
       res_bind (copy_data (drv s)) (\<lambda>xs.
         let n = ft_counter f + 1
         in Inr (f\<lparr>ft_counter := n, ft_lock := ft_lock f + 1\<rparr>, out @ [(n, xs)],
              s\<lparr>drv := upd_plib (\<lambda>p. calls A 0 (setI A 0 NDArrayCounter n p)) (drv s)\<rparr>)))"

inductive frame_step :: "(nat \<Rightarrow> bool) \<Rightarrow> 'p asyn \<Rightarrow> ('p, 't) ft_state \<Rightarrow> ('p, 't) ft_state \<Rightarrow> bool"
  for pool :: "nat \<Rightarrow> bool" and A :: "'p asyn" where
  idle: "ft_pc f = Frame_Idle \<Longrightarrow> frame_step pool A (f, out, s) (ft_idle A (f, out, s))"
| start: "ft_pc f = Frame_Start \<Longrightarrow> ev_startFrame s \<Longrightarrow> frame_step pool A (f, out, s) (ft_started A (f, out, s))"
| frame: "ft_pc f = Frame_Acquire \<Longrightarrow> \<not> ev_stopFrame s \<Longrightarrow> ft_frame pool A (f, out, s) = Inr x \<Longrightarrow> frame_step pool A (f, out, s) x"
| stop: "ft_pc f = Frame_Acquire \<Longrightarrow> ev_stopFrame s \<Longrightarrow>
    frame_step pool A (f, out, s) (f\<lparr>ft_pc := Frame_Idle\<rparr>, out, s\<lparr>ev_stopFrame := False\<rparr>)"

inductive_cases frame_stepE: "frame_step pool A (f, out, s) x"

end
