(* ===== verification/Pipeline.thy ===== *)
theory Pipeline
  imports History PixelROI Tasks
begin

text \<open>
  From packets of events to the picture of a detector. The buffer is allocated, updates arrive, the frame thread copies the buffer
  into an array, and the pixel region plugin shows one detector's segment of it. \<open>image_config\<close> says which configurations this is
  about: detectors that are consistent, do not transform times of flight, and whose pixels stay in their own segment.
\<close>

section \<open>Configuration\<close>

definition pixels_inside :: "('p, 't) adned \<Rightarrow> nat \<Rightarrow> bool" where
  "pixels_inside s d \<longleftrightarrow> (\<forall>px. in_det (m_det s d) px \<longrightarrow> spec_pixel s d px < unat (m_detSizeValues (m_det s d)))"

definition image_config :: "'p asyn \<Rightarrow> ('p, 't) adned \<Rightarrow> nat \<Rightarrow> bool" where
  "image_config A s d \<longleftrightarrow> det_config A s d \<and> regular_det A (planned A s) d \<and> pixels_inside (planned A s) d
     \<and> 0 < sint (getIntegerParam A (plib s) d ADnEDDetPixelROISizeX)"

text \<open>The detector shows pixels, whatever the time of flight.\<close>

definition plain_image :: "'p asyn \<Rightarrow> ('p, 't) adned \<Rightarrow> nat \<Rightarrow> bool" where
  "plain_image A s d \<longleftrightarrow> getIntegerParam A (plib s) d ADnEDDet2DType = PLOT_XY \<and> m_detTOFROIEnabled (m_det (planned A s) d) = 0"

text \<open>The event belongs to the detector and is shown at place \<open>k\<close> of its picture.\<close>

definition shown_at :: "'p asyn \<Rightarrow> ('p, 't) adned \<Rightarrow> nat \<Rightarrow> nat \<Rightarrow> u32 \<times> u32 \<Rightarrow> bool" where
  "shown_at A s d k = (\<lambda>(px, t). in_det (m_det (planned A s) d) px \<and> spec_pixel (planned A s) d px = k)"

text \<open>The event belongs to the detector and its time of flight, transformed or not, is \<open>j\<close> whole units; where the
  X/Y region is enabled on mapped pixels, the pixel is in it.\<close>

definition timed_at :: "machine \<Rightarrow> 'p asyn \<Rightarrow> ('p, 't) adned \<Rightarrow> nat \<Rightarrow> nat \<Rightarrow> nat \<Rightarrow> u32 \<times> u32 \<Rightarrow> bool" where
  "timed_at M A s tofMax d j = (\<lambda>(px, t).
     let v = m_det (planned A s) d; x = spec_time M (planned A s) d px t
     in in_det v px \<and> recorded_time tofMax x \<and> whole x = j
        \<and> (m_detPixelROIEnable v \<noteq> 0 \<longrightarrow> m_detPixelMappingEnabled v \<noteq> 0 \<longrightarrow> in_rectangle v (spec_pixel (planned A s) d px)))"

text \<open>The state an allocation leaves.\<close>

definition laid_out :: "'p asyn \<Rightarrow> ('p, 't) adned \<Rightarrow> nat \<Rightarrow> nat \<Rightarrow> ('p, 't) adned \<Rightarrow> bool" where
  "laid_out A s n tofMax s1 \<longleftrightarrow> active_dets A s1 = [1..<Suc n] \<and> only_layout A (plib s) (plib s1)
     \<and> published A (plib s1) (sizes_of A (plib s)) n tofMax \<and> handler_ok A s1
     \<and> s1 = s\<lparr>plib := plib s1, m_dataMaxSize := m_dataMaxSize s1, m_bufferMaxSize := of_nat (buf_len (sizes_of A (plib s)) n tofMax),
         m_tofMax := of_nat tofMax, m_dataAlloc := False, p_Data := Some (replicate (buf_len (sizes_of A (plib s)) n tofMax) 0)\<rparr>
     \<and> m_dataMaxSize s1 \<noteq> 0"

lemma allocArray_laid_out:
  assumes "asyn_port A" "alloc_config A (plib s) n tofMax" "m_dataAlloc s" "alloc_ok (buf_len (sizes_of A (plib s)) n tofMax)"
    "\<forall>d\<in>{1..n}. det_config A s d" "allocArray alloc_ok A s = (asynSuccess, s1)"
  shows "laid_out A s n tofMax s1"
proof -
  define N where "N = buf_len (sizes_of A (plib s)) n tofMax"
  obtain p where p: "published A p (sizes_of A (plib s)) n tofMax" "only_layout A (plib s) p"
      "s1 = s\<lparr>plib := setI A 0 ADnEDAllocSpaceStatus ALLOC_STATUS_OK p,
        m_dataMaxSize := of_nat (\<Sum>d\<in>{1..n}. sizes_of A (plib s) d),
        m_bufferMaxSize := of_nat N, m_tofMax := of_nat tofMax, m_dataAlloc := False, p_Data := Some (replicate N 0)\<rparr>"
    using asyn_port.allocArray_eq [OF assms(1-3), of alloc_ok N] assms(4,6) unfolding N_def by auto
  have pub: "published A (plib s1) (sizes_of A (plib s)) n tofMax" and only: "only_layout A (plib s) (plib s1)"
    using p(1,2) by (simp_all add: p(3) asyn_port.published_status [OF assms(1)] asyn_port.only_layout_status [OF assms(1)])
  have cfg: "1 \<le> n" "n \<le> ADNED_MAX_DETS" "N < 2 ^ 31" "0 < sizes_of A (plib s) 1"
    using assms(2) by (auto simp: alloc_config_def N_def)
  have "getIntegerParam A (plib s1) 0 ADnEDNumDet = of_nat n"
    using only assms(2) by (simp add: only_layout_def layout_iparams_def alloc_config_def)
  then have act: "active_dets A s1 = [1..<Suc n]"
    using cfg by (simp add: active_dets_def num_dets_def clamp_max_def det_range_def sint32_of_nat)
  have "sizes_of A (plib s) 1 \<le> (\<Sum>d\<in>{1..n}. sizes_of A (plib s) d)" using cfg(1) by (intro member_le_sum) auto
  moreover have "(\<Sum>d\<in>{1..n}. sizes_of A (plib s) d) < 2 ^ 31" using cfg(3) by (simp add: N_def buf_len_def)
  ultimately have nz: "m_dataMaxSize s1 \<noteq> 0"
    using cfg(4) by (simp add: p(3) word_of_nat_eq_0_iff nat_dvd_not_less del: of_nat_sum)
  have "handler_ok A s1" using asyn_port.allocArray_handler_ok [where alloc_ok = alloc_ok, OF assms(1,2) _ assms(3,4)] assms(5,6) by auto
  then show ?thesis using pub only act nz unfolding laid_out_def N_def [symmetric] by (simp add: p(3))
qed

lemma laid_out_fields:
  assumes "laid_out A s n tofMax s1"
  shows "p_PixelMap s1 = p_PixelMap s" "m_PixelMapSize s1 = m_PixelMapSize s" "m_TimeStampLast s1 = m_TimeStampLast s"
    "m_pulseCounter s1 = m_pulseCounter s" "m_pChargeInt s1 = m_pChargeInt s" "m_tofMax s1 = of_nat tofMax"
    "m_bufferMaxSize s1 = of_nat (buf_len (sizes_of A (plib s)) n tofMax)"
    "p_Data s1 = Some (replicate (buf_len (sizes_of A (plib s)) n tofMax) 0)" "p_Transform s1 = p_Transform s"
proof -
  obtain p m where "s1 = s\<lparr>plib := p, m_dataMaxSize := m, m_bufferMaxSize := of_nat (buf_len (sizes_of A (plib s)) n tofMax),
      m_tofMax := of_nat tofMax, m_dataAlloc := False, p_Data := Some (replicate (buf_len (sizes_of A (plib s)) n tofMax) 0)\<rparr>"
    using assms unfolding laid_out_def by blast
  then show "p_PixelMap s1 = p_PixelMap s" "m_PixelMapSize s1 = m_PixelMapSize s" "m_TimeStampLast s1 = m_TimeStampLast s"
    "m_pulseCounter s1 = m_pulseCounter s" "m_pChargeInt s1 = m_pChargeInt s" "m_tofMax s1 = of_nat tofMax"
    "m_bufferMaxSize s1 = of_nat (buf_len (sizes_of A (plib s)) n tofMax)"
    "p_Data s1 = Some (replicate (buf_len (sizes_of A (plib s)) n tofMax) 0)" "p_Transform s1 = p_Transform s"
    by simp_all
qed

lemma loaded_laid_out:
  assumes "alloc_config A (plib s) n tofMax" "laid_out A s n tofMax s1" "d \<in> {1..n}"
  shows "m_det (loaded A s1) d = (m_det (planned A s) d)\<lparr>m_NDArrayStartValues := m_NDArrayStartValues (m_det (loaded A s1) d),
      m_NDArrayTOFStartValues := m_NDArrayTOFStartValues (m_det (loaded A s1) d)\<rparr>"
    "unat (m_NDArrayStartValues (m_det (loaded A s1) d)) = pix_off (sizes_of A (plib s)) d"
    "unat (m_NDArrayTOFStartValues (m_det (loaded A s1) d)) = tof_off (sizes_of A (plib s)) n tofMax d"
    "unat (m_detSizeValues (m_det (planned A s) d)) = sizes_of A (plib s) d"
    "spec_pixel (loaded A s1) d px = spec_pixel (planned A s) d px"
proof -
  define v where "v = m_det (loaded A s1) d"
  have act: "d \<in> set (active_dets A s1)" and only: "only_layout A (plib s) (plib s1)"
    and pub: "published A (plib s1) (sizes_of A (plib s)) n tofMax"
    using assms(2,3) by (auto simp: laid_out_def)
  have w: "sint (m_NDArrayStartValues v) = int (pix_off (sizes_of A (plib s)) d)" "sint (m_detSizeValues v) = int (sizes_of A (plib s) d)"
    "sint (m_NDArrayTOFStartValues v) = int (tof_off (sizes_of A (plib s)) n tofMax d)"
    using pub assms(3) act by (auto simp: published_def v_def loaded_def load_det_def dest!: bspec [where x = d])
  then have u: "unat (m_NDArrayStartValues v) = pix_off (sizes_of A (plib s)) d" "unat (m_detSizeValues v) = sizes_of A (plib s) d"
    "unat (m_NDArrayTOFStartValues v) = tof_off (sizes_of A (plib s)) n tofMax d"
    using sint32_pos_uint by (simp_all add: unat_eq_nat_uint)
  show sz: "unat (m_detSizeValues (m_det (planned A s) d)) = sizes_of A (plib s) d" by (simp add: planned_def sizes_of_def)
  then have "m_detSizeValues v = m_detSizeValues (m_det (planned A s) d)" using u(2) by (simp add: word_unat_eq_iff)
  then have vd: "v = (m_det (planned A s) d)\<lparr>m_NDArrayStartValues := m_NDArrayStartValues v,
      m_NDArrayTOFStartValues := m_NDArrayTOFStartValues v\<rparr>"
    using load_det_layout [OF only, of d] act by (simp add: v_def loaded_def planned_def)
  then show "m_det (loaded A s1) d = (m_det (planned A s) d)\<lparr>m_NDArrayStartValues := m_NDArrayStartValues (m_det (loaded A s1) d),
      m_NDArrayTOFStartValues := m_NDArrayTOFStartValues (m_det (loaded A s1) d)\<rparr>"
    by (simp add: v_def)
  show "unat (m_NDArrayStartValues (m_det (loaded A s1) d)) = pix_off (sizes_of A (plib s)) d"
    "unat (m_NDArrayTOFStartValues (m_det (loaded A s1) d)) = tof_off (sizes_of A (plib s)) n tofMax d"
    using u by (simp_all add: v_def)
  have f: "m_detStartValues v = m_detStartValues (m_det (planned A s) d)"
    "m_detPixelMappingEnabled v = m_detPixelMappingEnabled (m_det (planned A s) d)"
    by (subst vd, simp)+
  have "p_PixelMap s1 = p_PixelMap s" "m_PixelMapSize s1 = m_PixelMapSize s" using laid_out_fields [OF assms(2)] by simp_all
  then show "spec_pixel (loaded A s1) d px = spec_pixel (planned A s) d px"
    unfolding spec_pixel_def Let_def v_def [symmetric] f by (simp add: loaded_def planned_def)
qed

lemma spec_time_laid_out:
  assumes "alloc_config A (plib s) n tofMax" "laid_out A s n tofMax s1" "d \<in> {1..n}"
  shows "spec_time M (loaded A s1) d px t = spec_time M (planned A s) d px t"
proof -
  note vd = loaded_laid_out(1) [OF assms]
  have "m_detTOFTransType (m_det (loaded A s1) d) = m_detTOFTransType (m_det (planned A s) d)"
    "m_detTOFTransScale (m_det (loaded A s1) d) = m_detTOFTransScale (m_det (planned A s) d)"
    "m_detTOFTransOffset (m_det (loaded A s1) d) = m_detTOFTransOffset (m_det (planned A s) d)"
    "m_detStartValues (m_det (loaded A s1) d) = m_detStartValues (m_det (planned A s) d)"
    by (subst vd, simp)+
  moreover have "p_Transform (loaded A s1) = p_Transform (planned A s)"
    using laid_out_fields(9) [OF assms(2)] by (simp add: loaded_def planned_def)
  ultimately show ?thesis by (simp add: spec_time_def Let_def)
qed

lemma laid_out_countable:
  assumes "alloc_config A (plib s) n tofMax" "laid_out A s n tofMax s1" "\<forall>d\<in>{1..n}. image_config A s d"
  shows "countable A s1"
proof -
  have only: "only_layout A (plib s) (plib s1)" and act: "set (active_dets A s1) = {1..n}"
    using assms(2) by (auto simp: laid_out_def)
  have i: "getIntegerParam A (plib s1) a q = getIntegerParam A (plib s) a q" if "q \<notin> layout_iparams" for a q
    using only that by (simp add: only_layout_def)
  have "regular_det A (loaded A s1) d" if d: "d \<in> {1..n}" for d
  proof -
    have "regular_det A (planned A s) d" using assms(3) d by (simp add: image_config_def)
    moreover have "plib (loaded A s1) = plib s1" "plib (planned A s) = plib s" by (simp_all add: loaded_def planned_def)
    ultimately show ?thesis unfolding regular_det_def Let_def
      by (subst (1 2 3 4 5) loaded_laid_out(1) [OF assms(1,2) d]) (simp add: i layout_iparams_def rect_ok_def)
  qed
  then show ?thesis
    using assms(2,3) laid_out_fields [OF assms(2)] act
    by (simp add: countable_def laid_out_def image_config_def i layout_iparams_def)
qed

section \<open>Every event stays in its detector\<close>

lemma laid_out_tofMax:
  assumes "alloc_config A (plib s) n tofMax" "laid_out A s n tofMax s1" "d \<in> {1..n}"
  shows "unat (m_tofMax (loaded A s1)) = tofMax"
proof -
  have "1 * (tofMax + 1) \<le> n * (tofMax + 1)" using assms(3) by (intro mult_le_mono1) simp
  then have "tofMax < 2 ^ 31" using assms(1) by (simp add: alloc_config_def buf_len_def)
  then show ?thesis using laid_out_fields(6) [OF assms(2)] by (simp add: loaded_def unat32_of_nat)
qed

lemma spec_cells_segments:
  assumes "alloc_config A (plib s) n tofMax" "laid_out A s n tofMax s1" "d \<in> {1..n}" "image_config A s d"
    "c \<in> set (spec_cells M A (loaded A s1) px t d)"
  shows "\<exists>k\<in>{d, n + d}. seg_start (sizes_of A (plib s)) n tofMax k \<le> c
    \<and> c < seg_start (sizes_of A (plib s)) n tofMax k + seg_len (sizes_of A (plib s)) n tofMax k"
proof -
  define v where "v = m_det (loaded A s1) d"
  define S where "S = sizes_of A (plib s)"
  note l = loaded_laid_out [OF assms(1-3), folded v_def S_def]
  have sz: "unat (m_detSizeValues v) = S d" "m_detStartValues v = m_detStartValues (m_det (planned A s) d)"
    "m_detEndValues v = m_detEndValues (m_det (planned A s) d)"
    using l(4) arg_cong [OF l(1), of m_detSizeValues] arg_cong [OF l(1), of m_detStartValues] arg_cong [OF l(1), of m_detEndValues]
    by simp_all
  have tm: "unat (m_tofMax (loaded A s1)) = tofMax" using laid_out_tofMax [OF assms(1-3)] .
  have px: "in_det v px" using assms(5) by (auto simp: spec_cells_def v_def in_det_def word_le_nat_alt Let_def split: if_splits)
  then have m: "spec_pixel (loaded A s1) d px < S d"
    using assms(4) l(4,5) sz by (simp add: image_config_def pixels_inside_def in_det_def)
  have "c \<in> {pix_off S d..<pix_off S d + S d} \<union> {tof_off S n tofMax d..tof_off S n tofMax d + tofMax}"
    using assms(5) m
    by (auto dest: recorded_whole simp: spec_cells_def spec_pixel_cells_def spec_tof_cells_def v_def [symmetric] l(2,3) sz(1) tm Let_def split: if_splits)
  then show ?thesis using assms(3) by (auto simp: seg_start_def seg_len_def S_def)
qed

lemma cell_owner:
  assumes "alloc_config A (plib s) n tofMax" "laid_out A s n tofMax s1" "d \<in> {1..n}" "i \<in> {d, n + d}" "d' \<in> {1..n}" "image_config A s d'"
    "seg_start (sizes_of A (plib s)) n tofMax i + k \<in> set (spec_cells M A (loaded A s1) px t d')"
    "k < seg_len (sizes_of A (plib s)) n tofMax i"
  shows "d' = d"
proof -
  define c where "c = seg_start (sizes_of A (plib s)) n tofMax i + k"
  obtain j where j: "j \<in> {d', n + d'}" "seg_start (sizes_of A (plib s)) n tofMax j \<le> c"
      "c < seg_start (sizes_of A (plib s)) n tofMax j + seg_len (sizes_of A (plib s)) n tofMax j"
    using spec_cells_segments [OF assms(1,2,5,6,7)] unfolding c_def by blast
  have "j = i"
    using lay.owner_unique [of j n i "sizes_of A (plib s)" tofMax c] j assms(3,4,5,8) by (auto simp: c_def)
  then show ?thesis using j(1) assms(3,4,5) by auto
qed

lemma own_pixel_cell:
  assumes "alloc_config A (plib s) n tofMax" "laid_out A s n tofMax s1" "d \<in> {1..n}" "image_config A s d" "plain_image A s d"
    "k < sizes_of A (plib s) d"
  shows "count_list (spec_cells M A (loaded A s1) px t d) (pix_off (sizes_of A (plib s)) d + k) = (if shown_at A s d k (px, t) then 1 else 0)"
proof -
  define v where "v = m_det (loaded A s1) d"
  define S where "S = sizes_of A (plib s)"
  note l = loaded_laid_out [OF assms(1-3), folded v_def S_def]
  have f: "m_detTOFROIEnabled v = 0" "in_det v px = in_det (m_det (planned A s) d) px"
    using assms(5) arg_cong [OF l(1), of m_detTOFROIEnabled] arg_cong [OF l(1), of "\<lambda>w. in_det w px"]
    by (simp_all add: plain_image_def in_det_def)
  have ty: "getIntegerParam A (plib (loaded A s1)) d ADnEDDet2DType = PLOT_XY"
    using assms(2,5) by (simp add: laid_out_def only_layout_def layout_iparams_def plain_image_def loaded_def)
  have "pix_off S d + k < pix_off S (Suc n)" using assms(3,6) pix_off_next [of d "Suc n" S] by (simp add: S_def)
  then have tof: "pix_off S d + k < tof_off S n tofMax d + x" for x by (simp only: pix_off_total tof_off_def)
  have "count_list (spec_tof_cells b v m x) (pix_off S d + k) = 0" for b m x
    using tof [of "whole x"] by (auto simp: spec_tof_cells_def l(3) count_list_0_iff)
  moreover have "spec_cells M A (loaded A s1) px t d = (if in_det v px then (pix_off S d + spec_pixel (planned A s) d px)
      # spec_tof_cells (unat (m_tofMax (loaded A s1))) v (spec_pixel (planned A s) d px) (spec_time M (loaded A s1) d px t) else [])"
    unfolding spec_cells_def Let_def v_def [symmetric] ty l(5) by (simp add: spec_pixel_cells_def f(1) l(2) in_det_def word_le_nat_alt)
  ultimately show ?thesis unfolding S_def [symmetric] by (simp add: shown_at_def f(2))
qed

lemma pixel_cells_inside:
  assumes "c \<in> set (spec_pixel_cells b bins ty v m x)" "m < unat (m_detSizeValues v)"
  shows "c < unat (m_NDArrayStartValues v) + unat (m_detSizeValues v)"
  using assms by (auto simp: spec_pixel_cells_def Let_def split: if_splits)

lemma own_time_cell:
  assumes "alloc_config A (plib s) n tofMax" "laid_out A s n tofMax s1" "d \<in> {1..n}" "image_config A s d" "j \<le> tofMax"
  shows "count_list (spec_cells M A (loaded A s1) px t d) (tof_off (sizes_of A (plib s)) n tofMax d + j)
    = (if timed_at M A s tofMax d j (px, t) then 1 else 0)"
proof -
  define v S c where "v = m_det (loaded A s1) d" and "S = sizes_of A (plib s)" and "c = tof_off (sizes_of A (plib s)) n tofMax d + j"
  define m x where "m = spec_pixel (planned A s) d px" and "x = spec_time M (planned A s) d px t"
  note l = loaded_laid_out [OF assms(1-3), folded v_def S_def]
  have f: "in_det v px = in_det (m_det (planned A s) d) px" "m_detPixelROIEnable v = m_detPixelROIEnable (m_det (planned A s) d)"
    "m_detPixelMappingEnabled v = m_detPixelMappingEnabled (m_det (planned A s) d)" "unat (m_detSizeValues v) = S d"
    "in_rectangle v m = in_rectangle (m_det (planned A s) d) m"
    by (subst l(1), simp add: in_det_def in_rectangle_def l(4))+
  have tm: "unat (m_tofMax (loaded A s1)) = tofMax" using laid_out_tofMax [OF assms(1-3)] .
  have none: "count_list (spec_pixel_cells b bins ty v m x) c = 0" if "in_det v px" for b bins ty
  proof -
    have "m < S d" using assms(4) that l(4) f(1) by (simp add: image_config_def pixels_inside_def m_def)
    moreover have "pix_off S d + S d \<le> pix_off S (Suc n)" using assms(3) pix_off_next [of d "Suc n" S] by simp
    moreover have "pix_off S (Suc n) \<le> c" unfolding c_def tof_off_def pix_off_total S_def by (simp only: add.assoc le_add1)
    ultimately show ?thesis using pixel_cells_inside [of c b bins ty v m x] f(4) l(2) by (auto simp: count_list_0_iff)
  qed
  have "count_list (spec_tof_cells tofMax v m x) c = (if timed_at M A s tofMax d j (px, t) then 1 else 0)" if "in_det v px"
    using that by (auto simp: spec_tof_cells_def timed_at_def l(3) f c_def S_def m_def [symmetric] x_def [symmetric] Let_def)
  then show ?thesis
    using none f(1) unfolding c_def [symmetric]
    by (auto simp: spec_cells_def v_def [symmetric] l(5) m_def [symmetric] spec_time_laid_out [OF assms(1-3)] x_def [symmetric] tm
        in_det_def word_le_nat_alt timed_at_def Let_def)
qed

lemma count_concat_one:
  assumes "d \<in> set ds" "distinct ds" "\<And>d'. d' \<in> set ds \<Longrightarrow> c \<in> set (f d') \<Longrightarrow> d' = d"
  shows "count_list (concat (map f ds)) c = count_list (f d) c"
  using assms
proof (induction ds)
  case (Cons x ds)
  have none: "count_list (concat (map f es)) c = 0" if "d \<notin> set es" "set es \<subseteq> set (x # ds)" for es
    using that Cons.prems(3) by (force simp: count_list_0_iff)
  show ?case
  proof (cases "x = d")
    case True
    then show ?thesis using none [of ds] Cons.prems(2) by auto
  next
    case False
    then have "c \<notin> set (f x)" using Cons.prems(3) by auto
    then show ?thesis using False Cons by simp
  qed
qed simp

lemma count_concat_filter:
  "(\<And>e. count_list (g e) c = (if P e then 1 else 0)) \<Longrightarrow> count_list (concat (map g es)) c = length (filter P es)"
  by (induction es) auto

text \<open>A cell of one of the two segments of detector \<open>d\<close> counts the events that \<open>d\<close> counts there.\<close>

lemma segment_count:
  assumes "alloc_config A (plib s) n tofMax" "laid_out A s n tofMax s1" "\<forall>d\<in>{1..n}. image_config A s d" "d \<in> {1..n}"
    "i \<in> {d, n + d}" "k < seg_len (sizes_of A (plib s)) n tofMax i"
    and own: "\<And>px t. count_list (spec_cells M A (loaded A s1) px t d) (seg_start (sizes_of A (plib s)) n tofMax i + k)
      = (if P (px, t) then 1 else 0)"
  shows "count_list (all_cells M A (loaded A s1) (active_dets A s1) evs) (seg_start (sizes_of A (plib s)) n tofMax i + k)
    = length (filter P evs)"
proof -
  have act: "active_dets A s1 = [1..<Suc n]" using assms(2) by (simp add: laid_out_def)
  have "count_list (concat (map (spec_cells M A (loaded A s1) px t) [1..<Suc n])) (seg_start (sizes_of A (plib s)) n tofMax i + k)
      = (if P (px, t) then 1 else 0)" for px t
    using own [of px t] cell_owner [OF assms(1,2,4,5) _ _ _ assms(6)] assms(3,4)
    by (subst count_concat_one [where d = d]) (auto simp del: upt_Suc)
  then show ?thesis unfolding all_cells_def act by (intro count_concat_filter) (auto simp: split_beta simp del: upt_Suc)
qed

lemma image_count:
  assumes "alloc_config A (plib s) n tofMax" "laid_out A s n tofMax s1" "\<forall>d\<in>{1..n}. image_config A s d" "d \<in> {1..n}"
    "plain_image A s d" "k < sizes_of A (plib s) d"
  shows "count_list (all_cells M A (loaded A s1) (active_dets A s1) evs) (pix_off (sizes_of A (plib s)) d + k)
    = length (filter (shown_at A s d k) evs)"
  using segment_count [OF assms(1-4), of d k M "shown_at A s d k" evs] own_pixel_cell [OF assms(1,2,4) _ assms(5,6)] assms(3,4,6)
  by (simp add: seg_start_def seg_len_def)

lemma spectrum_count:
  assumes "alloc_config A (plib s) n tofMax" "laid_out A s n tofMax s1" "\<forall>d\<in>{1..n}. image_config A s d" "d \<in> {1..n}" "j \<le> tofMax"
  shows "count_list (all_cells M A (loaded A s1) (active_dets A s1) evs) (tof_off (sizes_of A (plib s)) n tofMax d + j)
    = length (filter (timed_at M A s tofMax d j) evs)"
  using segment_count [OF assms(1-4), of "n + d" j M "timed_at M A s tofMax d j" evs] own_time_cell [OF assms(1,2,4) _ assms(5)] assms(3-5)
  by (simp add: seg_start_def seg_len_def)

section \<open>The frame and the picture\<close>

text \<open>The array that \<open>frameTask\<close> takes from the pool and fills with the buffer.\<close>

definition frame_array :: "u32 list \<Rightarrow> NDArray" where
  "frame_array xs = \<lparr>ndims = 1, nd_dims = (\<lambda>i. if i = 0 then \<lparr>d_size = of_nat (length xs), d_offset = 0, d_binning = 1\<rparr>
     else \<lparr>d_size = 0, d_offset = 0, d_binning = 0\<rparr>), pData = NDUInt32 xs\<rparr>"

text \<open>What the pool's \<open>convert\<close> documents for such an array: asked for a range of its elements, in their own type, it delivers them.\<close>

definition extracts :: "(NDArray \<Rightarrow> i32 \<Rightarrow> NDDimension list \<Rightarrow> bool \<times> NDArray option) \<Rightarrow> bool" where
  "extracts convert \<longleftrightarrow> (\<forall>xs off seg. off + seg \<le> length xs \<longrightarrow> length xs < 2 ^ 31 \<longrightarrow>
     (\<exists>out. convert (frame_array xs) (nd_type (NDUInt32 xs))
        [\<lparr>d_size = of_nat seg, d_offset = of_nat off, d_binning = 1\<rparr>, \<lparr>d_size = 0, d_offset = 0, d_binning = 1\<rparr>] = (True, Some out)
      \<and> pData out = NDUInt32 (take seg (drop off xs))))"

text \<open>The plugin is set to the segment of detector \<open>d\<close>, as an image of \<open>x\<close> by \<open>y\<close>, in the type of the array.\<close>

definition region_of :: "'p asyn \<Rightarrow> 'p \<Rightarrow> ('q, roi_param) params \<Rightarrow> nat \<Rightarrow> nat \<Rightarrow> nat \<Rightarrow> 'q \<Rightarrow> bool" where
  "region_of A p L d x y q \<longleftrightarrow> pget L q 0 ADnEDPixelROIDim0Min = getIntegerParam A p d ADnEDDetNDArrayStart
     \<and> pget L q 0 ADnEDPixelROIDim0Size = getIntegerParam A p d ADnEDDetNDArraySize
     \<and> pget L q 0 ADnEDPixelROIDim1Size = of_nat x \<and> pget L q 0 ADnEDPixelROIDim2Size = of_nat y
     \<and> pget L q 0 ADnEDPixelROIDataType = -1"

lemma word_of_sint:
  assumes "sint (w :: 32 word) = int k"
  shows "w = of_nat k"
proof -
  have "w = word_of_int (sint w)" by simp
  also have "\<dots> = of_nat k" unfolding assms by simp
  finally show ?thesis .
qed

lemma region_image:
  assumes "plugin_port L addrs" "0 < addrs" "extracts convert" "alloc_config A (plib s) n tofMax" "laid_out A s n tofMax s1"
    "d \<in> {1..n}" "region_of A (plib s1) L d x y (rp_params r)" "x * y = sizes_of A (plib s) d"
    "length xs = buf_len (sizes_of A (plib s)) n tofMax"
  shows "\<exists>a r'. roi_processCallbacks L beg convert (frame_array xs) r = (Some a, r')
    \<and> pData a = NDUInt32 (take (sizes_of A (plib s) d) (drop (pix_off (sizes_of A (plib s)) d) xs))
    \<and> ndims a = 2 \<and> unat (d_size (nd_dims a 0)) = x \<and> unat (d_size (nd_dims a 1)) = y"
proof -
  define S where "S = sizes_of A (plib s)"
  have S: "0 < S d" "length xs < 2 ^ 31" using assms(4,6,9) by (auto simp: alloc_config_def S_def)
  have in_buf: "pix_off S d + S d \<le> pix_off S (Suc n)" "pix_off S (Suc n) < length xs"
    using assms(4,6,9) pix_off_next [of d "Suc n" S] by (simp_all add: pix_off_total buf_len_def S_def)
  have "sint (getIntegerParam A (plib s1) d ADnEDDetNDArrayStart) = int (pix_off S d)"
    "sint (getIntegerParam A (plib s1) d ADnEDDetNDArraySize) = int (S d)"
    using assms(5,6) by (auto simp: laid_out_def published_def S_def)
  note w = this [THEN word_of_sint]
  have xy: "1 \<le> x" "1 \<le> y" "x \<le> S d" "y \<le> S d" using S(1) assms(8) unfolding S_def [symmetric]
    by (cases x; cases y; simp)+
  obtain out where out: "convert (frame_array xs) (nd_type (NDUInt32 xs))
        [\<lparr>d_size = of_nat (S d), d_offset = of_nat (pix_off S d), d_binning = 1\<rparr>, \<lparr>d_size = 0, d_offset = 0, d_binning = 1\<rparr>] = (True, Some out)"
      "pData out = NDUInt32 (take (S d) (drop (pix_off S d) xs))"
    using assms(3) in_buf S(2) unfolding extracts_def by (metis (no_types, lifting) le_trans less_imp_le)
  have "unat (d_size (nd_dims (frame_array xs) 0)) = length xs" using S(2) by (simp add: frame_array_def size_of_nat)
  from roi_image [OF assms(1,2) this _ _ S(2), of r "pix_off S d" "S d" x y convert out beg]
  show ?thesis using assms(7) in_buf S xy out assms(8) unfolding S_def [symmetric]
    by (auto simp: region_of_def w frame_array_def S_def [symmetric])
qed

section \<open>From the updates to the frame\<close>

lemma frame_after_updates:
  assumes "asyn_port A" "pv_clock T" "alloc_config A (plib s) n tofMax" "laid_out A s n tofMax s1" "\<forall>d\<in>{1..n}. image_config A s d"
    "\<not> is_paused A s" "evs = t_events (fold (tally_update T False) ups (first_tally T s))"
  shows "\<exists>s2. run_updates M A T ups s1 = Inr s2 \<and> copy_data s2 = Inr (bumps (all_cells M A (loaded A s1) (active_dets A s1) evs)
      (replicate (buf_len (sizes_of A (plib s)) n tofMax) 0))"
proof -
  define N where "N = buf_len (sizes_of A (plib s)) n tofMax"
  note f = laid_out_fields [OF assms(4), folded N_def]
  have p: "\<not> is_paused A s1"
    using assms(4,6) by (simp add: is_paused_def laid_out_def only_layout_def layout_iparams_def)
  have t: "first_tally T s1 = first_tally T s" by (simp add: first_tally_def f)
  obtain s2 where s2: "run_updates M A T ups s1 = Inr s2"
      "counted M A T s1 (replicate N 0) s2 (fold (tally_update T (is_paused A s1)) ups (first_tally T s1))"
    using pv_clock.counted_run [OF assms(2,1) laid_out_countable [OF assms(3-5)] f(8) counted_first [OF f(8)]] by blast
  then have "p_Data s2 = Some (bumps (all_cells M A (loaded A s1) (active_dets A s1) evs) (replicate N 0))" "m_bufferMaxSize s2 = of_nat N"
    using p by (simp_all add: counted_def same_setup_def f t assms(7))
  moreover have "unat (of_nat N :: u32) = N" using assms(3) by (simp add: alloc_config_def N_def unat32_of_nat)
  ultimately show ?thesis using s2(1) by (simp add: copy_data_def N_def)
qed

end
