(* ===== verification/Sections.thy ===== *)
theory Sections
  imports CommandSpec Channel
begin

text \<open>
  \<open>eventHandler\<close> does not hold the driver's mutex throughout: it takes it three times, and other threads may run in
  between. Here it is cut at these places into four sections: the clock; the detector parameters, time stamp and sequence
  number; the tests on the packet and on the buffer, which hold no mutex; the integration. Between two sections the handler
  is at a program counter that carries its local variables. Run one after the other without interference the
  sections are \<open>eventHandler\<close>.
\<close>

section \<open>The sections\<close>

record 't h_local =
  h_channelID :: u32
  h_pv :: "'t pvdata"
  h_paused :: bool
  h_eventUpdate :: bool
  h_timeDiffSecs :: f64
  h_numChan :: i32
  h_numDet :: i32
  h_newPulse :: bool

datatype 't handler_pc = H_Done | H_Identify "'t h_local" | H_Check "'t h_local" | H_Integrate "'t h_local" f64 "(u32 \<times> u32) list"

definition hs_enter :: "'p asyn \<Rightarrow> u32 \<Rightarrow> u32 \<Rightarrow> 't pvdata \<Rightarrow> u32 \<Rightarrow> ('p, 't) adned \<Rightarrow> 't handler_pc \<times> ('p, 't) adned" where
  "hs_enter A secPastEpoch nsec pv channelID s =
     (let paused = (getIntegerParam A (plib s) 0 ADnEDPause \<noteq> 0);
          (eventUpdate, timeDiffSecs, s1) = eh_clock A secPastEpoch nsec s
      in if unat channelID \<ge> ADNED_MAX_CHANNELS then (H_Done, s1)
         else (H_Identify \<lparr>h_channelID = channelID, h_pv = pv, h_paused = paused, h_eventUpdate = eventUpdate,
                 h_timeDiffSecs = timeDiffSecs, h_numChan = 0, h_numDet = 0, h_newPulse = False\<rparr>, s1))"

definition hs_identify :: "'p asyn \<Rightarrow> 't pvtime \<Rightarrow> 't h_local \<Rightarrow> ('p, 't) adned \<Rightarrow> 't handler_pc \<times> ('p, 't) adned" where
  "hs_identify A T h s =
     (let numChan = clamp_max ADNED_MAX_CHANNELS (getIntegerParam A (plib s) 0 ADnEDNumChannels);
          numDet = clamp_max ADNED_MAX_DETS (getIntegerParam A (plib s) 0 ADnEDNumDet);
          (loaded, s1) = load_dets A (det_range numDet) s
      in if \<not> loaded then (H_Done, s1)
         else
           let (stamped, newPulse, s2) = eh_stamp A T (unat (h_channelID h)) (pv_timestamp (h_pv h)) s1
           in (if stamped then H_Check (h\<lparr>h_numChan := numChan, h_numDet := numDet, h_newPulse := newPulse\<rparr>) else H_Done, s2))"

definition hs_check :: "'t h_local \<Rightarrow> ('p, 't) adned \<Rightarrow> 't handler_pc \<times> ('p, 't) adned" where
  "hs_check h s =
     (case pv_pcharge (h_pv h) of
        None \<Rightarrow> (H_Done, s)
      | Some pCharge \<Rightarrow>
          if p_Data s = None \<or> m_dataMaxSize s = 0 then (H_Done, s)
          else case (pv_pixels (h_pv h), pv_tof (h_pv h)) of
            (Some pixels, Some tofs) \<Rightarrow>
              let pixelsLength = (of_nat (length pixels) :: u32);
                  tofLength = (of_nat (length tofs) :: u32)
              in if pixelsLength \<noteq> tofLength then (H_Done, s)
                 else (H_Integrate h pCharge (take (unat pixelsLength) (zip pixels tofs)),
                       s\<lparr>m_eventsSinceLastUpdate := m_eventsSinceLastUpdate s + pixelsLength\<rparr>)
          | _ \<Rightarrow> (H_Done, s))"

definition hs_integrate :: "machine \<Rightarrow> 'p asyn \<Rightarrow> 't h_local \<Rightarrow> f64 \<Rightarrow> (u32 \<times> u32) list \<Rightarrow> ('p, 't) adned
    \<Rightarrow> ('t handler_pc \<times> ('p, 't) adned) res" where
  "hs_integrate M A h pCharge events s =
     res_bind (eh_events M A (h_numDet h) (h_paused h) (h_newPulse h) pCharge events s) (\<lambda>s1.
       Inr (H_Done, if h_eventUpdate h then eh_post M A (h_numChan h) (h_numDet h) (h_timeDiffSecs h) pCharge s1 else s1))"

fun handler_step :: "machine \<Rightarrow> 'p asyn \<Rightarrow> 't pvtime \<Rightarrow> 't handler_pc \<Rightarrow> ('p, 't) adned \<Rightarrow> ('t handler_pc \<times> ('p, 't) adned) res" where
  "handler_step M A T H_Done s = Inr (H_Done, s)"
| "handler_step M A T (H_Identify h) s = Inr (hs_identify A T h s)"
| "handler_step M A T (H_Check h) s = Inr (hs_check h s)"
| "handler_step M A T (H_Integrate h pCharge events) s = hs_integrate M A h pCharge events s"

primrec handler_run :: "nat \<Rightarrow> machine \<Rightarrow> 'p asyn \<Rightarrow> 't pvtime \<Rightarrow> 't handler_pc \<times> ('p, 't) adned \<Rightarrow> ('t handler_pc \<times> ('p, 't) adned) res" where
  "handler_run 0 M A T x = Inr x"
| "handler_run (Suc n) M A T x = res_bind (handler_step M A T (fst x) (snd x)) (handler_run n M A T)"

section \<open>Without interference\<close>

lemma handler_run_none: "handler_run 0 M A T = Inr"
  by (rule ext) simp

lemma handler_run_done: "handler_run n M A T (H_Done, s) = Inr (H_Done, s)"
  by (induction n) simp_all

lemma check_integrate:
  assumes "h = \<lparr>h_channelID = ch, h_pv = pv, h_paused = b, h_eventUpdate = u, h_timeDiffSecs = dt, h_numChan = nc, h_numDet = nd, h_newPulse = np\<rparr>"
  shows "handler_run 2 M A T (H_Check h, s) = res_bind (eh_packet M A nc nd b u dt np pv s) (\<lambda>s'. Inr (H_Done, s'))"
proof -
  have "handler_run 2 M A T (H_Check h, s) = res_bind (handler_step M A T (fst (hs_check h s)) (snd (hs_check h s))) Inr"
    by (simp add: numeral_2_eq_2 handler_run_none split_beta del: handler_run.simps(1))
  then show ?thesis
    unfolding assms hs_check_def eh_packet_def
    by (auto simp: hs_integrate_def Let_def res_bind_def split: option.splits sum.splits)
qed


section \<open>The sections keep the invariant of the memory\<close>

lemma length_update_pixels: "update_pixels M tm v pt tb m tof (xs, ti) = Inr (ys, ti') \<Longrightarrow> length ys = length xs"
  by (auto simp: update_pixels_def res_bind_def split: if_splits sum.splits dest!: length_bump)

lemma length_update_tof: "update_tof tm v m tof k xs = Inr ys \<Longrightarrow> length ys = length xs"
  by (auto simp: update_tof_def res_bind_def split: if_splits sum.splits dest!: length_bump)

lemma integrate_event_inv:
  assumes "drv_inv s" "integrate_event M A px tf det (s, ti) = Inr (s', ti')"
  shows "drv_inv s'"
proof (cases "s' = s")
  case False
  then obtain xs ys zs v pt tb m tof k n e where s: "p_Data s = Some xs"
      "update_pixels M (m_tofMax s) v pt tb m tof (xs, ti) = Inr (ys, ti')" "update_tof (m_tofMax s) v m tof k ys = Inr zs"
      "s' = s\<lparr>p_Data := Some zs, m_detEventsSinceLastUpdate := n, m_detTotalEvents := e\<rparr>"
    using assms(2)
    by (auto simp: integrate_event_def res_bind_def Let_def split: if_splits sum.splits option.splits prod.splits)
  then have "drv_inv (s\<lparr>p_Data := Some zs\<rparr>)"
    using drv_inv_data [OF assms(1), of "Some zs"] length_update_pixels length_update_tof by simp
  moreover have "drv_inv s' = drv_inv (s\<lparr>p_Data := Some zs\<rparr>)" using s(4) by (intro drv_inv_fields) simp_all
  ultimately show ?thesis by simp
qed (use assms in simp)

lemma integrate_all_inv:
  fixes s :: "('p, 't) adned"
  assumes "drv_inv s" "integrate_all M A dets es s = Inr s'"
  shows "drv_inv s'"
proof -
  define f :: "u32 \<times> u32 \<Rightarrow> ('p, 't) adned \<times> i32 \<Rightarrow> _" where "f = (\<lambda>(px, tf). foldR (integrate_event M A px tf) dets)"
  obtain ti where ti: "foldR f es (s, 0) = Inr (s', ti)"
    using assms(2) by (auto simp: integrate_all_def f_def res_bind_def split: sum.splits)
  have "drv_inv (fst b)" if "drv_inv (fst a)" "f e a = Inr b" for e a b
  proof -
    obtain px tf where "f e = foldR (integrate_event M A px tf) dets" by (cases e) (simp add: f_def)
    with that(2) have "foldR (integrate_event M A px tf) dets a = Inr b" by simp
    then show ?thesis
    proof (rule foldR_inv [where I = "\<lambda>a. drv_inv (fst a)", rotated 2])
      show "drv_inv (fst b')" if "drv_inv (fst a')" "integrate_event M A px tf d a' = Inr b'" for d and a' b' :: "('p, 't) adned \<times> i32"
        using integrate_event_inv [of "fst a'" M A px tf d "snd a'" "fst b'" "snd b'"] that by simp
    qed (rule that(1))
  qed
  then have "drv_inv (fst (s', ti))"
    by (rule foldR_inv [where I = "\<lambda>a. drv_inv (fst a)", OF _ _ ti]) (use assms(1) in simp_all)
  then show ?thesis by simp
qed

lemma eh_clock_inv: "eh_clock A sec ns s = (u, dt, s') \<Longrightarrow> drv_inv s' = drv_inv s"
  by (rule drv_inv_fields) (auto simp: eh_clock_def Let_def split: if_splits)

lemma load_dets_inv: "load_dets A ds s = (go, s') \<Longrightarrow> drv_inv s' = drv_inv s"
proof (induction ds arbitrary: s)
  case (Cons d ds)
  have "drv_inv (s\<lparr>m_det := v\<rparr>) = drv_inv s" for v by (rule drv_inv_fields) simp_all
  then show ?case using Cons by (auto simp: Let_def split: if_splits)
qed simp

lemma eh_stamp_inv: "eh_stamp A T ch tsf s = (go, np, s') \<Longrightarrow> drv_inv s' = drv_inv s"
  by (rule drv_inv_fields) (auto simp: eh_stamp_def eh_sequence_def Let_def split: ts_field.splits if_splits)

lemma fold_inv: "(\<And>x s. drv_inv (f x s) = drv_inv s) \<Longrightarrow> drv_inv (fold f xs s) = drv_inv s"
  by (induction xs arbitrary: s) simp_all

lemma post_inv:
  "drv_inv (post_channel A c s) = drv_inv s" "drv_inv (post_det M A dt d s) = drv_inv s"
  "drv_inv (s\<lparr>plib := p, m_eventsSinceLastUpdate := n\<rparr>) = drv_inv s"
  by (simp add: post_channel_def) (rule drv_inv_fields, simp_all add: post_det_def)+

lemma eh_post_inv: "drv_inv (eh_post M A nc nd dt pc s) = drv_inv s"
  by (simp add: eh_post_def Let_def fold_inv post_inv)

lemma eh_events_inv:
  assumes "drv_inv s" "eh_events M A nd b np pc es s = Inr s'"
  shows "drv_inv s'"
proof (cases b)
  case True
  then show ?thesis using assms by (simp add: eh_events_def)
next
  case False
  then obtain s1 x n where s1: "integrate_all M A (det_range nd) es s = Inr s1"
      "s' = s1 \<or> s' = s1\<lparr>m_pChargeInt := x, m_pulseCounter := n\<rparr>"
    using assms(2) by (auto simp: eh_events_def res_bind_def split: sum.splits if_splits)
  then have "drv_inv s' = drv_inv s1" by (intro drv_inv_fields) auto
  with integrate_all_inv [OF assms(1) s1(1)] show ?thesis by simp
qed

lemma hs_enter_inv: "hs_enter A sec ns pv ch s = (pc, s') \<Longrightarrow> drv_inv s' = drv_inv s"
  by (auto simp: hs_enter_def Let_def split: prod.splits if_splits dest!: eh_clock_inv)

lemma hs_identify_inv: "hs_identify A T h s = (pc, s') \<Longrightarrow> drv_inv s' = drv_inv s"
  by (auto simp: hs_identify_def Let_def split: prod.splits if_splits dest!: load_dets_inv eh_stamp_inv)

lemma hs_check_keeps:
  assumes "hs_check h s = (pc, s')"
  obtains n where "s' = s\<lparr>m_eventsSinceLastUpdate := n\<rparr>"
proof -
  have "s' = s \<or> (\<exists>n. s' = s\<lparr>m_eventsSinceLastUpdate := n\<rparr>)"
    using assms by (auto simp: hs_check_def Let_def split: option.splits if_splits)
  moreover have "s = s\<lparr>m_eventsSinceLastUpdate := m_eventsSinceLastUpdate s\<rparr>" by simp
  ultimately show thesis using that by blast
qed

lemma handler_step_inv:
  assumes "drv_inv s" "handler_step M A T pc s = Inr (pc', s')"
  shows "drv_inv s'"
proof (cases pc)
  case (H_Identify h)
  then show ?thesis using assms hs_identify_inv [of A T h s pc' s'] by simp
next
  case (H_Check h)
  then obtain n where "s' = s\<lparr>m_eventsSinceLastUpdate := n\<rparr>" using assms(2) by (auto elim: hs_check_keeps)
  then have "drv_inv s' = drv_inv s" by (intro drv_inv_fields) simp_all
  then show ?thesis using assms(1) by simp
next
  case (H_Integrate h pCharge events)
  then show ?thesis
    using assms by (auto simp: hs_integrate_def res_bind_def eh_post_inv split: sum.splits if_splits dest: eh_events_inv)
qed (use assms in simp)

section \<open>With interference\<close>

lemma allocArray_det: "m_det (snd (allocArray ok A d)) = m_det d"
proof (cases "m_dataAlloc d \<and> getIntegerParam A (plib d) 0 ADnEDNumDet \<noteq> 0")
  case False
  then show ?thesis by (auto simp: allocArray_def Let_def)
next
  case True
  define nd tm where "nd = getIntegerParam A (plib d) 0 ADnEDNumDet" and "tm = getIntegerParam A (plib d) 0 ADnEDTOFMax"
  obtain fin s2 where ap: "alloc_pixels A (det_range nd) (d\<lparr>m_tofMax := tm, m_dataMaxSize := 0\<rparr>) = (fin, s2)"
    by (cases "alloc_pixels A (det_range nd) (d\<lparr>m_tofMax := tm, m_dataMaxSize := 0\<rparr>)")
  obtain p m where s2: "s2 = d\<lparr>m_tofMax := tm, plib := p, m_dataMaxSize := m\<rparr>"
    using alloc_pixels_frame [OF ap] by auto
  show ?thesis using True ap unfolding nd_def tm_def s2 by (cases fin) (simp_all add: allocArray_def Let_def)
qed


definition race_update :: "(int \<times> int \<times> i32) pvdata" where
  "race_update = \<lparr>pv_timestamp = Ts_Value (1, 0, 1), pv_pcharge = Some (Fin 1), pv_pixels = Some [10], pv_tof = Some [3]\<rparr>"

definition race_local :: "(int \<times> int \<times> i32) h_local" where
  "race_local = \<lparr>h_channelID = 0, h_pv = race_update, h_paused = False, h_eventUpdate = False, h_timeDiffSecs = Fin 0,
     h_numChan = 1, h_numDet = 2, h_newPulse = True\<rparr>"

definition race_ioc :: "(pstore, int \<times> int \<times> i32) ioc" where
  "race_ioc = new_ioc ((loaded store_asyn run_state)\<lparr>m_dataAlloc := True,
     m_det := (\<lambda>d. (load_det store_asyn (plib run_state) d)\<lparr>m_detTOFTransType := 0\<rparr>), plib := setI store_asyn 0 ADnEDTOFMax (2 ^ 30) (plib run_state)\<rparr>)"

lemma race_fields:
  "m_dataAlloc (drv race_ioc)" "p_Data (drv race_ioc) = Some (replicate 41 0)" "m_dataMaxSize (drv race_ioc) = 25"
  "m_det (drv race_ioc) (Suc 0) = (load_det store_asyn (plib run_state) 1)\<lparr>m_detTOFTransType := 0\<rparr>"
  "getIntegerParam store_asyn (plib (drv race_ioc)) a q = (if a = 0 \<and> q = ADnEDTOFMax then 2 ^ 30 else run_ints a q)"
  by (simp_all add: race_ioc_def new_ioc_def loaded_def run_dets st.port_laws run_get)


end
