(* ===== verification/System.thy ===== *)
theory System
  imports Tasks Sections
begin

text \<open>
  The driver as a system: clients that write parameters, pvAccess threads (one per channel) that run the event handler section
  by section or report connections, and the two threads of the driver, interleaved. A client's command and what a thread does from
  one wait to the next run with the mutex held, as one step; so does each section of the handler that takes the mutex. Whoever needs
  the mutex waits until the frame thread, the only one that can hold it while it sleeps, holds it no more. The loads of
  the detector parameters, which \<open>eventHandler\<close> makes just before it takes the mutex for the second time, belong to the step
  of that section.
\<close>

section \<open>Interleaving\<close>

record ('p, 't) sys =
  evt :: event_task
  frm :: frame_task
  hnd :: "nat \<Rightarrow> 't handler_pc"
  net :: chans
  arrays :: "(i32 \<times> u32 list) list"
  sioc :: "('p, 't) ioc"

text \<open>At each of its waits the frame thread has called \<open>unlock()\<close> once more than \<open>ft_lock\<close> says.\<close>

definition mutex_free :: "('p, 't) sys \<Rightarrow> bool" where "mutex_free x \<longleftrightarrow> ft_lock (frm x) - 1 \<le> 0"

definition set_drv :: "('p, 't) adned \<Rightarrow> ('p, 't) sys \<Rightarrow> ('p, 't) sys" where
  "set_drv d x = x\<lparr>sioc := (sioc x)\<lparr>drv := d\<rparr>\<rparr>"

inductive sys_step ::
    "machine \<Rightarrow> (rat \<Rightarrow> bool) \<Rightarrow> 'p asyn \<Rightarrow> 't pvtime \<Rightarrow> fsys \<Rightarrow> string \<Rightarrow> (nat \<Rightarrow> sparam \<Rightarrow> string \<Rightarrow> 'p \<Rightarrow> asynStatus \<times> 'p)
      \<Rightarrow> ('p, 't) sys \<Rightarrow> ('p, 't) sys \<Rightarrow> bool"
  for M :: machine and uf :: "rat \<Rightarrow> bool" and A :: "'p asyn" and T :: "'t pvtime" and F :: fsys and tail :: string
    and base :: "nat \<Rightarrow> sparam \<Rightarrow> string \<Rightarrow> 'p \<Rightarrow> asynStatus \<times> 'p" where
  client: "mutex_free x \<Longrightarrow> harmless c \<Longrightarrow> exec M uf A T F tail base c (sioc x) = Inr s \<Longrightarrow>
    sys_step M uf A T F tail base x (x\<lparr>sioc := s\<rparr>)"
| update: "mutex_free x \<Longrightarrow> ch < ADNED_MAX_CHANNELS \<Longrightarrow> mon_started (net x) ch \<Longrightarrow> hnd x ch = H_Done \<Longrightarrow>
    hs_enter A sec ns pv (of_nat ch) (drv (sioc x)) = (pc, d) \<Longrightarrow>
    sys_step M uf A T F tail base x (set_drv d (x\<lparr>hnd := (hnd x)(ch := pc)\<rparr>))"
| locked: "mutex_free x \<Longrightarrow> handler_step M A T (hnd x ch) (drv (sioc x)) = Inr (pc, d) \<Longrightarrow>
    sys_step M uf A T F tail base x (set_drv d (x\<lparr>hnd := (hnd x)(ch := pc)\<rparr>))"
| check: "hnd x ch = H_Check h \<Longrightarrow> hs_check h (drv (sioc x)) = (pc, d) \<Longrightarrow>
    sys_step M uf A T F tail base x (set_drv d (x\<lparr>hnd := (hnd x)(ch := pc)\<rparr>))"
| event: "mutex_free x \<Longrightarrow> event_step M A N (evt x, net x, sioc x) (e, c, s) \<Longrightarrow>
    sys_step M uf A T F tail base x (x\<lparr>evt := e, net := c, sioc := s\<rparr>)"
| frame: "frame_step pool A (frm x, arrays x, sioc x) (f, out, s) \<Longrightarrow>
    sys_step M uf A T F tail base x (x\<lparr>frm := f, arrays := out, sioc := s\<rparr>)"
| state_change: "sys_step M uf A T F tail base x (x\<lparr>net := channelStateChange cs (net x)\<rparr>)"
| monitor: "sys_step M uf A T F tail base x (x\<lparr>net := monitorConnect b b' ch (net x)\<rparr>)"

definition new_sys :: "'p asyn \<Rightarrow> chans \<Rightarrow> ('p, 't) adned \<Rightarrow> ('p, 't) sys" where
  "new_sys A c d = \<lparr>evt = new_event_task, frm = new_frame_task, hnd = (\<lambda>_. H_Done), net = c, arrays = [], sioc = et_boot A (new_ioc d)\<rparr>"

section \<open>The threads keep it\<close>

lemma et_start_inv:
  assumes "drv_inv (drv s)"
  shows "\<exists>err c' s'. et_start M A N nc c s = Inr (err, c', s') \<and> drv_inv (drv s')"
proof -
  obtain st d1 where a: "allocArray (calloc_ok M) A (drv s) = (st, d1)" by force
  have d1: "drv_inv d1" using allocArray_inv [OF assms, of "calloc_ok M" A] a by simp
  define d2 where "d2 = d1\<lparr>p_Data := map_option (\<lambda>xs. replicate (length xs) 0) (p_Data d1)\<rparr>"
  have cd: "clear_data d1 = Inr d2" unfolding d2_def by (rule clear_data_ok) (use d1 in \<open>simp add: drv_inv_def\<close>)
  have d2: "drv_inv d2" unfolding d2_def by (rule drv_inv_data [OF d1]) (simp add: option.map_comp o_def)
  show ?thesis
    using d1 d2 by (cases "st = asynSuccess") (auto simp: et_start_def a cd Let_def split: prod.splits)
qed

lemma et_started_inv:
  assumes "drv_inv (drv s)"
  shows "\<exists>e' c' s'. et_started M A N (e, c, s) = Inr (e', c', s') \<and> drv_inv (drv s')
    \<and> (et_pc e' = Wait_Stop \<and> et_lock e' = et_lock e \<or> et_pc e' = Wait_Idle \<and> et_lock e' = et_lock e - 1)"
proof -
  define nc where "nc = clamp_max ADNED_MAX_CHANNELS (getIntegerParam A (plib (drv s)) 0 ADnEDNumChannels)"
  have "drv_inv (drv (s\<lparr>ev_start := False\<rparr>))" using assms by simp
  from et_start_inv [OF this, of M A N nc c] obtain err c1 s1
    where 1: "et_start M A N nc c (s\<lparr>ev_start := False\<rparr>) = Inr (err, c1, s1)" "drv_inv (drv s1)" by blast
  show ?thesis using 1 by (auto simp: et_started_def nc_def [symmetric] Let_def et_finish_def simp del: adned_limits)
qed

lemma event_step_inv:
  assumes "event_step M A N (e, c, s) (e', c', s')" "drv_inv (drv s)"
  shows "drv_inv (drv s') \<and> et_lock e' \<le> et_lock e"
  using assms(1)
proof (rule event_stepE)
  assume "(e', c', s') = et_idle A (e, c, s)"
  then show ?thesis using assms(2) by (auto simp: et_idle_def Let_def)
next
  assume "et_started M A N (e, c, s) = Inr (e', c', s')"
  then show ?thesis using et_started_inv [OF assms(2), of M A N e c] by auto
next
  assume "(e', c', s') = et_stopped A (e, c, s)"
  then show ?thesis using assms(2) by (auto simp: et_stopped_def et_finish_def Let_def)
next
  assume "(e', c', s') = (e, c, s)"
  then show ?thesis using assms(2) by simp
qed

lemma frame_step_inv:
  assumes "frame_step pool A (f, out, s) (f', out', s')" "drv_inv (drv s)"
  shows "drv_inv (drv s') \<and> ft_lock f' - int (length out') = ft_lock f - int (length out) \<and> length out \<le> length out'"
  using assms
  by (elim frame_stepE)
    (auto simp: ft_idle_def ft_started_def ft_frame_def res_bind_def Let_def split: if_splits sum.splits)

definition sys_inv :: "('p, 't) sys \<Rightarrow> bool" where
  "sys_inv x \<longleftrightarrow> drv_inv (drv (sioc x)) \<and> ft_lock (frm x) = 1 + int (length (arrays x)) \<and> et_lock (evt x) \<le> 0"

lemma sys_inv_new: "sys_inv (new_sys A c (new_ADnED A T g gd gb ts0 p0))"
  by (simp add: sys_inv_def new_sys_def new_event_task_def new_frame_task_def et_boot_def new_ioc_def drv_inv_new)

lemma sys_step_inv:
  assumes "clean_files F" "sys_step M uf A T F tail base x y" "sys_inv x"
  shows "sys_inv y"
  using assms(2)
proof (cases rule: sys_step.cases)
  case (client c s)
  then show ?thesis
    using exec_inv [of "sioc x" F c M uf A T tail base] assms(1,3) by (auto simp: sys_inv_def)
next
  case (update ch sec ns pv pc d)
  then show ?thesis using hs_enter_inv [of A sec ns pv "of_nat ch" "drv (sioc x)" pc d] assms(3) by (simp add: sys_inv_def set_drv_def)
next
  case (locked ch pc d)
  then show ?thesis using handler_step_inv [of "drv (sioc x)" M A T "hnd x ch" pc d] assms(3) by (simp add: sys_inv_def set_drv_def)
next
  case (check ch h pc d)
  then show ?thesis using handler_step_inv [of "drv (sioc x)" M A T "H_Check h" pc d] assms(3) by (simp add: sys_inv_def set_drv_def)
next
  case (event N e c s)
  then show ?thesis using event_step_inv [of M A N "evt x" "net x" "sioc x" e c s] assms(3) by (simp add: sys_inv_def)
next
  case (frame pool f out s)
  then show ?thesis using frame_step_inv [of pool A "frm x" "arrays x" "sioc x" f out s] assms(3) by (simp add: sys_inv_def)
qed (use assms(3) in \<open>simp_all add: sys_inv_def\<close>)

lemma reachable_inv:
  assumes "clean_files F" "(sys_step M uf A T F tail base)\<^sup>*\<^sup>* x y" "sys_inv x"
  shows "sys_inv y"
  using assms(2,3) by (induction rule: rtranclp_induct) (auto intro: sys_step_inv [OF assms(1)])

section \<open>Starting and stopping\<close>

context asyn_port
begin

lemma alloc_pixels_strings: "getStringParam A (plib (snd (alloc_pixels A ds s))) = getStringParam A (plib s)"
proof (induction ds arbitrary: s)
  case (Cons d ds)
  then show ?case by (auto simp: Let_def port_laws fun_eq_iff)
qed simp

lemma alloc_tofs_strings: "getStringParam A (alloc_tofs A tm ds n p) = getStringParam A p"
  by (induction ds arbitrary: n p) (auto simp: Let_def port_laws fun_eq_iff)

lemma allocArray_strings: "getStringParam A (plib (snd (allocArray ok A d))) = getStringParam A (plib d)"
  using alloc_pixels_strings [of "det_range (getIntegerParam A (plib d) 0 ADnEDNumDet)"
      "d\<lparr>m_tofMax := getIntegerParam A (plib d) 0 ADnEDTOFMax, m_dataMaxSize := 0\<rparr>"]
  by (auto simp: allocArray_def Let_def alloc_tofs_strings port_laws fun_eq_iff split: prod.splits)

lemma zero_rates_get:
  assumes "\<forall>d\<in>set ds. d \<le> ADNED_MAX_DETS"
  shows "getIntegerParam A (zero_rates A ds p) a q = (if a \<in> set ds \<and> q = ADnEDDetEventRate then 0 else getIntegerParam A p a q)"
    "getStringParam A (zero_rates A ds p) = getStringParam A p"
  using assms by (induction ds arbitrary: p) (auto simp: port_laws fun_eq_iff)

lemma start_ok:
  fixes e :: event_task
  assumes "drv_inv (drv s)" "mon_inv c" "can_connect N c" "allocArray (calloc_ok M) A (drv s) = (asynSuccess, d1)"
    and nc: "nc = clamp_max ADNED_MAX_CHANNELS (getIntegerParam A (plib (drv s)) 0 ADnEDNumChannels)"
    and name: "name = (\<lambda>ch. getStringParam A (plib (drv s)) ch ADnEDPVName)"
    and up: "\<And>ch. ch \<in> set (chan_range nc) \<Longrightarrow> connects N ch (name ch) \<and> is_connected N ch (name ch)"
  shows "\<exists>c' s'. et_started M A N (e, c, s) = Inr (e\<lparr>et_pc := Wait_Stop, et_acquire := True, et_error := False, et_numChannels := nc\<rparr>, c', s')
     \<and> getIntegerParam A (plib (drv s')) 0 ADStatus = ADStatusAcquire \<and> getIntegerParam A (plib (drv s')) 0 ADnEDStart = 0
     \<and> getStringParam A (plib (drv s')) 0 ADStatusMessage = ''Acquiring Events''
     \<and> p_Data (drv s') = map_option (\<lambda>xs. replicate (length xs) 0) (p_Data d1) \<and> ev_startFrame s'
     \<and> (\<forall>ch\<in>set (chan_range nc). wanted (name ch) \<longrightarrow>
          p_Channel c' ch = Some (name ch) \<and> p_Monitor c' ch = Some (name ch) \<and> mon_started c' ch)"
proof -
  define d2 where "d2 = d1\<lparr>p_Data := map_option (\<lambda>xs. replicate (length xs) 0) (p_Data d1)\<rparr>"
  have "buf_inv d1" using allocArray_inv [OF assms(1), of "calloc_ok M" A] assms(4) by (simp add: drv_inv_def)
  from clear_data_ok [OF this] have cd: "clear_data d1 = Inr d2" by (simp add: d2_def)
  define p1 where "p1 = calls A 0 (setS A 0 ADStatusMessage ''Acquiring Events'' (setI A 0 ADStatus ADStatusAcquire (plib d2)))"
  have "getStringParam A (plib d1) = getStringParam A (plib (drv s))"
    using allocArray_strings [of "calloc_ok M" "drv s"] assms(4) by simp
  then have names: "(\<lambda>ch. getStringParam A p1 ch ADnEDPVName) = name"
    by (simp add: p1_def d2_def name port_laws fun_eq_iff)
  have small: "ch < ADNED_MAX_CHANNELS" if "ch \<in> set (chan_range nc)" for ch
    using that clamp_max_bound [of ADNED_MAX_CHANNELS "getIntegerParam A (plib (drv s)) 0 ADnEDNumChannels"]
    by (auto simp: chan_range_def nc)
  from connect_channels_ok [OF assms(2,3), of "chan_range nc" name] small up
  obtain c1 where c1: "connect_channels N name (chan_range nc) c = (True, c1)"
      "\<forall>ch. p_Channel c1 ch = (if ch \<in> set (chan_range nc) \<and> wanted (name ch) then Some (name ch) else p_Channel c ch)"
      "\<forall>ch. p_Monitor c1 ch = (if ch \<in> set (chan_range nc) \<and> wanted (name ch) then Some (name ch) else p_Monitor c ch)"
    by blast
  have start: "et_start M A N nc c (s\<lparr>ev_start := False\<rparr>) = Inr (False, set_monitors True (chan_range nc) c1,
      s\<lparr>ev_start := False, drv := d2\<lparr>plib := p1\<rparr>, ev_startFrame := True\<rparr>)"
    using c1(1) names by (simp add: et_start_def assms(4) cd Let_def p1_def)
  show ?thesis
    unfolding et_started_def prod.case Let_def nc [symmetric] start
    using c1(2,3) by (auto simp: p1_def d2_def port_laws set_monitors_started)
qed

lemma stop_ok:
  assumes "sint (getIntegerParam A (plib (drv s)) 0 ADnEDNumDet) \<le> int ADNED_MAX_DETS"
  shows "\<exists>c' s'. et_stopped A (e, c, s) = (e\<lparr>et_acquire := False, et_pc := Wait_Idle\<rparr>, c', s')
     \<and> getIntegerParam A (plib (drv s')) 0 ADStatus = ADStatusIdle \<and> getIntegerParam A (plib (drv s')) 0 ADnEDStop = 0
     \<and> getIntegerParam A (plib (drv s')) 0 ADnEDEventRate = 0
     \<and> (\<forall>d\<in>set (det_range (getIntegerParam A (plib (drv s)) 0 ADnEDNumDet)). getIntegerParam A (plib (drv s')) d ADnEDDetEventRate = 0)
     \<and> p_Data (drv s') = p_Data (drv s) \<and> ev_stopFrame s' \<and> \<not> ev_stop s'
     \<and> (\<forall>ch\<in>set (chan_range (et_numChannels e)). p_Monitor c ch \<noteq> None \<longrightarrow> \<not> mon_started c' ch)"
proof -
  have "\<forall>d\<in>set (det_range (getIntegerParam A (plib (drv s)) 0 ADnEDNumDet)). d \<le> ADNED_MAX_DETS"
    using assms by (auto simp: det_range_def)
  then show ?thesis
    by (auto simp: et_stopped_def et_finish_def Let_def port_laws zero_rates_get set_monitors_started)
qed

lemma failed_start_ok:
  assumes "allocArray (calloc_ok M) A (drv s) = (asynError, d1)"
    and nc: "nc = clamp_max ADNED_MAX_CHANNELS (getIntegerParam A (plib (drv s)) 0 ADnEDNumChannels)"
    and "sint (getIntegerParam A (plib d1) 0 ADnEDNumDet) \<le> int ADNED_MAX_DETS"
  shows "\<exists>c' s'. et_started M A N (e, c, s) =
       Inr (e\<lparr>et_pc := Wait_Idle, et_acquire := False, et_error := True, et_numChannels := nc, et_lock := et_lock e - 1\<rparr>, c', s')
     \<and> getIntegerParam A (plib (drv s')) 0 ADStatus = ADStatusError \<and> getIntegerParam A (plib (drv s')) 0 ADnEDStart = 0
     \<and> getStringParam A (plib (drv s')) 0 ADStatusMessage = ''allocArray Error''
     \<and> p_Data (drv s') = p_Data d1 \<and> ev_startFrame s' = ev_startFrame s"
proof -
  have "\<forall>d\<in>set (det_range (getIntegerParam A (plib d1) 0 ADnEDNumDet)). d \<le> ADNED_MAX_DETS"
    using assms(3) by (auto simp: det_range_def)
  then show ?thesis
    unfolding et_started_def prod.case Let_def nc [symmetric] et_start_def
    by (auto simp: assms(1) et_finish_def Let_def port_laws zero_rates_get)
qed

end

end
