(* ===== verification/Params.thy ===== *)
theory Params
  imports Commands PixelROI
begin

text \<open>
  The parameters as asyn knows them: the calls of \<open>createParam\<close> in the constructors, with the strings of the headers, and the records of
  the database templates that connect to these strings. The list of parameters of a port belongs to asyn: it is the record
  \<open>'l param_list\<close> with the laws of locale \<open>param_lists\<close>, and \<open>table_params\<close> is a list that meets them. The rest of the development reads and
  writes parameters through the typed names \<open>iparam\<close>, \<open>dparam\<close> and \<open>sparam\<close>; that the types are those of the created parameters is shown here.
\<close>

section \<open>What asyn offers\<close>

datatype asynParamType = asynParamInt32 | asynParamFloat64 | asynParamOctet

record 'l param_list =
  pl_create :: "'l \<Rightarrow> string \<Rightarrow> asynParamType \<Rightarrow> asynStatus \<times> nat \<times> 'l"
  pl_find :: "'l \<Rightarrow> string \<Rightarrow> nat option"
  pl_type :: "'l \<Rightarrow> nat \<Rightarrow> asynParamType option"
  pl_count :: "'l \<Rightarrow> nat"

text \<open>The calls of a constructor, in order; a call stores the index in its member and its status is dropped.\<close>

definition create_param :: "'l param_list \<Rightarrow> 'm \<times> string \<times> asynParamType \<Rightarrow> ('m \<Rightarrow> nat) \<times> 'l \<Rightarrow> ('m \<Rightarrow> nat) \<times> 'l" where
  "create_param P = (\<lambda>(m, name, ty) (idx, l). case pl_create P l name ty of (_, i, l') \<Rightarrow> (idx(m := i), l'))"

definition create_params :: "'l param_list \<Rightarrow> ('m \<times> string \<times> asynParamType) list \<Rightarrow> ('m \<Rightarrow> nat) \<times> 'l \<Rightarrow> ('m \<Rightarrow> nat) \<times> 'l" where
  "create_params P cs = fold (create_param P) cs"

text \<open>A new name gets the next index, as long as the list has room; the \<open>room\<close> of a port is given to it when it is built.\<close>

locale param_lists =
  fixes P :: "'l param_list" and room :: nat
  assumes create_new: "pl_find P l name = None \<Longrightarrow> pl_count P l < room \<Longrightarrow>
      \<exists>l'. pl_create P l name ty = (asynSuccess, pl_count P l, l') \<and> pl_count P l' = Suc (pl_count P l)
        \<and> pl_find P l' = (pl_find P l)(name \<mapsto> pl_count P l) \<and> pl_type P l' = (pl_type P l)(pl_count P l \<mapsto> ty)"
begin

lemma create_params_spec:
  assumes "distinct (map fst cs)" "distinct (map (fst \<circ> snd) cs)" "\<And>name. name \<in> set (map (fst \<circ> snd) cs) \<Longrightarrow> pl_find P l name = None"
    "pl_count P l + length cs \<le> room" "create_params P cs (idx, l) = (idx', l')"
  shows "pl_count P l' = pl_count P l + length cs
    \<and> (\<forall>k < length cs. case cs ! k of (m, name, ty) \<Rightarrow> idx' m = pl_count P l + k
         \<and> pl_find P l' name = Some (pl_count P l + k) \<and> pl_type P l' (pl_count P l + k) = Some ty)
    \<and> (\<forall>m. m \<notin> fst ` set cs \<longrightarrow> idx' m = idx m)
    \<and> (\<forall>name. name \<notin> (fst \<circ> snd) ` set cs \<longrightarrow> pl_find P l' name = pl_find P l name)
    \<and> (\<forall>i < pl_count P l. pl_type P l' i = pl_type P l i)"
  using assms
proof (induction cs arbitrary: idx l)
  case Nil
  then show ?case by (simp add: create_params_def)
next
  case (Cons c cs)
  obtain m name ty where c: "c = (m, name, ty)" by (cases c)
  obtain l1 where l1: "pl_create P l name ty = (asynSuccess, pl_count P l, l1)" "pl_count P l1 = Suc (pl_count P l)"
      "pl_find P l1 = (pl_find P l)(name \<mapsto> pl_count P l)" "pl_type P l1 = (pl_type P l)(pl_count P l \<mapsto> ty)"
    using create_new [of l name ty] Cons.prems(3,4) c by auto
  have run: "create_params P cs (idx(m := pl_count P l), l1) = (idx', l')"
    using Cons.prems(5) l1(1) by (simp add: create_params_def create_param_def c)
  have IH: "pl_count P l' = pl_count P l1 + length cs
    \<and> (\<forall>k < length cs. case cs ! k of (m, name, ty) \<Rightarrow> idx' m = pl_count P l1 + k
         \<and> pl_find P l' name = Some (pl_count P l1 + k) \<and> pl_type P l' (pl_count P l1 + k) = Some ty)
    \<and> (\<forall>m'. m' \<notin> fst ` set cs \<longrightarrow> idx' m' = (idx(m := pl_count P l)) m')
    \<and> (\<forall>name. name \<notin> (fst \<circ> snd) ` set cs \<longrightarrow> pl_find P l' name = pl_find P l1 name)
    \<and> (\<forall>i < pl_count P l1. pl_type P l' i = pl_type P l1 i)"
    using Cons.prems(1-4) by (intro Cons.IH [OF _ _ _ _ run]) (auto simp: c l1(2,3))
  show ?case
  proof (intro conjI allI impI)
    fix k assume k: "k < length (c # cs)"
    show "case (c # cs) ! k of (m, name, ty) \<Rightarrow> idx' m = pl_count P l + k
         \<and> pl_find P l' name = Some (pl_count P l + k) \<and> pl_type P l' (pl_count P l + k) = Some ty"
      using IH k Cons.prems(1,2) by (cases k) (force simp: c l1(2-4))+
  qed (use IH in \<open>auto simp: c l1(2-4)\<close>)
qed

end

text \<open>A table with a bound on its length.\<close>

definition table_params :: "nat \<Rightarrow> (string \<times> asynParamType) list param_list" where
  "table_params room = \<lparr>
     pl_create = (\<lambda>l name ty. if name \<in> fst ` set l then (asynError, 0, l)
       else if length l < room then (asynSuccess, length l, l @ [(name, ty)]) else (asynError, 0, l)),
     pl_find = (\<lambda>l name. if name \<in> fst ` set l then Some (length (takeWhile (\<lambda>r. fst r \<noteq> name) l)) else None),
     pl_type = (\<lambda>l i. if i < length l then Some (snd (l ! i)) else None),
     pl_count = length\<rparr>"

interpretation tab: param_lists "table_params room" room for room
proof
  fix l :: "(string \<times> asynParamType) list" and name ty
  assume new: "pl_find (table_params room) l name = None" and "pl_count (table_params room) l < room"
  then have n: "name \<notin> fst ` set l" "length l < room" by (simp_all add: table_params_def split: if_splits)
  have "takeWhile (\<lambda>r. fst r \<noteq> name) l = l" using n(1) by (auto simp: takeWhile_eq_all_conv)
  moreover have "takeWhile (\<lambda>r. fst r \<noteq> x) (l @ [(name, ty)]) = takeWhile (\<lambda>r. fst r \<noteq> x) l" if "x \<in> fst ` set l" for x
    using that by (auto intro: takeWhile_append1)
  ultimately show "\<exists>l'. pl_create (table_params room) l name ty = (asynSuccess, pl_count (table_params room) l, l')
      \<and> pl_count (table_params room) l' = Suc (pl_count (table_params room) l)
      \<and> pl_find (table_params room) l' = (pl_find (table_params room) l)(name \<mapsto> pl_count (table_params room) l)
      \<and> pl_type (table_params room) l' = (pl_type (table_params room) l)(pl_count (table_params room) l \<mapsto> ty)"
    using n by (auto simp: table_params_def fun_eq_iff nth_append takeWhile_append2)
qed

section \<open>The driver\<close>

text \<open>The members of \<open>ADnED\<close> that hold the index of a parameter, under the type by which the driver reads and writes it.\<close>

datatype (plugins only: code size) pmember = IntP iparam | DblP dparam | StrP sparam

fun access_type :: "pmember \<Rightarrow> asynParamType" where
  "access_type (IntP _) = asynParamInt32"
| "access_type (DblP _) = asynParamFloat64"
| "access_type (StrP _) = asynParamOctet"

text \<open>\<open>ADnED.h\<close>, in the order of declaration. \<open>NUM_DRIVER_PARAMS\<close> is the distance of the last from the first.\<close>

definition members :: "pmember list" where
  "members = [
    IntP ADnEDFirst, IntP ADnEDReset, IntP ADnEDStart, IntP ADnEDStop,
    IntP ADnEDPause, IntP ADnEDEventDebug, IntP ADnEDSeqCounter, IntP ADnEDPulseCounter,
    IntP ADnEDEventRate, IntP ADnEDSeqID, IntP ADnEDSeqIDMissing, IntP ADnEDSeqIDNumMissing,
    IntP ADnEDBadTimeStamp, DblP ADnEDPCharge, DblP ADnEDPChargeInt, DblP ADnEDEventUpdatePeriod,
    DblP ADnEDFrameUpdatePeriod, IntP ADnEDNumChannels, StrP ADnEDPVName, IntP ADnEDNumDet,
    IntP ADnEDDetPixelNumStart, IntP ADnEDDetPixelNumEnd, IntP ADnEDDetPixelNumSize, IntP ADnEDDetTOFNumBins,
    IntP ADnEDDet2DType, IntP ADnEDDetNDArrayStart, IntP ADnEDDetNDArrayEnd, IntP ADnEDDetNDArraySize,
    IntP ADnEDDetNDArrayTOFStart, IntP ADnEDDetNDArrayTOFEnd, IntP ADnEDDetEventRate, DblP ADnEDDetEventTotal,
    IntP ADnEDDetTOFROIStart, IntP ADnEDDetTOFROISize, IntP ADnEDDetTOFROIEnable, IntP ADnEDDetTOFArrayReset,
    StrP ADnEDDetTOFTransFile0, StrP ADnEDDetTOFTransFile1, StrP ADnEDDetTOFTransFile2, StrP ADnEDDetTOFTransFile3,
    StrP ADnEDDetTOFTransFile4, StrP ADnEDDetTOFTransFile5, IntP ADnEDDetTOFTransInt0, IntP ADnEDDetTOFTransInt1,
    IntP ADnEDDetTOFTransInt2, IntP ADnEDDetTOFTransInt3, IntP ADnEDDetTOFTransInt4, IntP ADnEDDetTOFTransInt5,
    DblP ADnEDDetTOFTransFloat0, DblP ADnEDDetTOFTransFloat1, DblP ADnEDDetTOFTransFloat2, DblP ADnEDDetTOFTransFloat3,
    DblP ADnEDDetTOFTransFloat4, DblP ADnEDDetTOFTransFloat5, IntP ADnEDDetTOFTransPrint, IntP ADnEDDetTOFTransDebug,
    IntP ADnEDDetTOFTransType, DblP ADnEDDetTOFTransOffset, DblP ADnEDDetTOFTransScale, StrP ADnEDDetPixelMapFile,
    IntP ADnEDDetPixelMapPrint, IntP ADnEDDetPixelMapEnable, IntP ADnEDDetPixelROIStartX, IntP ADnEDDetPixelROISizeX,
    IntP ADnEDDetPixelROIStartY, IntP ADnEDDetPixelROISizeY, IntP ADnEDDetPixelSizeX, IntP ADnEDDetPixelROIEnable,
    IntP ADnEDTOFMax, IntP ADnEDAllocSpace, IntP ADnEDAllocSpaceStatus, IntP ADnEDLast]"

definition NUM_DRIVER_PARAMS :: nat where
  "NUM_DRIVER_PARAMS = length (takeWhile (\<lambda>m. m \<noteq> IntP ADnEDLast) members) - length (takeWhile (\<lambda>m. m \<noteq> IntP ADnEDFirst) members) + 1"

text \<open>The strings of \<open>ADnED.h\<close> under which clients find the parameters; those of the base classes are not defined there.\<close>

primrec int_string :: "iparam \<Rightarrow> string" where
  "int_string ADnEDFirst = ''ADNED_FIRST''"
| "int_string ADnEDLast = ''ADNED_LAST''"
| "int_string ADnEDReset = ''ADNED_RESET''"
| "int_string ADnEDStart = ''ADNED_START''"
| "int_string ADnEDStop = ''ADNED_STOP''"
| "int_string ADnEDPause = ''ADNED_PAUSE''"
| "int_string ADnEDEventDebug = ''ADNED_EVENT_DEBUG''"
| "int_string ADnEDSeqCounter = ''ADNED_SEQ_COUNTER''"
| "int_string ADnEDPulseCounter = ''ADNED_PULSE_COUNTER''"
| "int_string ADnEDEventRate = ''ADNED_EVENT_RATE''"
| "int_string ADnEDSeqID = ''ADNED_SEQ_ID''"
| "int_string ADnEDSeqIDMissing = ''ADNED_SEQ_ID_MISSING''"
| "int_string ADnEDSeqIDNumMissing = ''ADNED_SEQ_ID_NUM_MISSING''"
| "int_string ADnEDBadTimeStamp = ''ADNED_BAD_TIMESTAMP''"
| "int_string ADnEDNumChannels = ''ADNED_NUM_CHANNELS''"
| "int_string ADnEDNumDet = ''ADNED_NUM_DET''"
| "int_string ADnEDDetPixelNumStart = ''ADNED_DET_PIXEL_NUM_START''"
| "int_string ADnEDDetPixelNumEnd = ''ADNED_DET_PIXEL_NUM_END''"
| "int_string ADnEDDetPixelNumSize = ''ADNED_DET_PIXEL_NUM_SIZE''"
| "int_string ADnEDDetTOFNumBins = ''ADNED_DET_TOF_NUM_BINS''"
| "int_string ADnEDDet2DType = ''ADNED_DET_2D_TYPE''"
| "int_string ADnEDDetNDArrayStart = ''ADNED_DET_NDARRAY_START''"
| "int_string ADnEDDetNDArrayEnd = ''ADNED_DET_NDARRAY_END''"
| "int_string ADnEDDetNDArraySize = ''ADNED_DET_NDARRAY_SIZE''"
| "int_string ADnEDDetNDArrayTOFStart = ''ADNED_DET_NDARRAY_TOF_START''"
| "int_string ADnEDDetNDArrayTOFEnd = ''ADNED_DET_NDARRAY_TOF_END''"
| "int_string ADnEDDetEventRate = ''ADNED_DET_EVENT_RATE''"
| "int_string ADnEDDetTOFROIStart = ''ADNED_DET_TOF_ROI_START''"
| "int_string ADnEDDetTOFROISize = ''ADNED_DET_TOF_ROI_SIZE''"
| "int_string ADnEDDetTOFROIEnable = ''ADNED_DET_TOF_ROI_ENABLE''"
| "int_string ADnEDDetTOFArrayReset = ''ADNED_DET_TOF_ARRAY_RESET''"
| "int_string ADnEDDetTOFTransInt0 = ''ADNED_DET_TOF_TRANS_INT0''"
| "int_string ADnEDDetTOFTransInt1 = ''ADNED_DET_TOF_TRANS_INT1''"
| "int_string ADnEDDetTOFTransInt2 = ''ADNED_DET_TOF_TRANS_INT2''"
| "int_string ADnEDDetTOFTransInt3 = ''ADNED_DET_TOF_TRANS_INT3''"
| "int_string ADnEDDetTOFTransInt4 = ''ADNED_DET_TOF_TRANS_INT4''"
| "int_string ADnEDDetTOFTransInt5 = ''ADNED_DET_TOF_TRANS_INT5''"
| "int_string ADnEDDetTOFTransPrint = ''ADNED_DET_TOF_TRANS_PRINT''"
| "int_string ADnEDDetTOFTransDebug = ''ADNED_DET_TOF_TRANS_DEBUG''"
| "int_string ADnEDDetTOFTransType = ''ADNED_DET_TOF_TRANS_TYPE''"
| "int_string ADnEDDetPixelMapPrint = ''ADNED_DET_PIXEL_MAP_PRINT''"
| "int_string ADnEDDetPixelMapEnable = ''ADNED_DET_PIXEL_MAP_ENABLE''"
| "int_string ADnEDDetPixelROIStartX = ''ADNED_DET_PIXEL_ROI_START_X''"
| "int_string ADnEDDetPixelROISizeX = ''ADNED_DET_PIXEL_ROI_SIZE_X''"
| "int_string ADnEDDetPixelROIStartY = ''ADNED_DET_PIXEL_ROI_START_Y''"
| "int_string ADnEDDetPixelROISizeY = ''ADNED_DET_PIXEL_ROI_SIZE_Y''"
| "int_string ADnEDDetPixelSizeX = ''ADNED_DET_PIXEL_SIZE_X''"
| "int_string ADnEDDetPixelROIEnable = ''ADNED_DET_PIXEL_ROI_ENABLE''"
| "int_string ADnEDTOFMax = ''ADNED_TOF_MAX''"
| "int_string ADnEDAllocSpace = ''ADNED_ALLOC_SPACE''"
| "int_string ADnEDAllocSpaceStatus = ''ADNED_ALLOC_SPACE_STATUS''"
| "int_string ADStatus = ''''"
| "int_string ADAcquire = ''''"
| "int_string NDArrayCounter = ''''"
| "int_string NDArrayCallbacks = ''''"
| "int_string (BaseInt _) = ''''"

primrec dbl_string :: "dparam \<Rightarrow> string" where
  "dbl_string ADnEDPCharge = ''ADNED_PCHARGE''"
| "dbl_string ADnEDPChargeInt = ''ADNED_PCHARGE_INT''"
| "dbl_string ADnEDEventUpdatePeriod = ''ADNED_EVENT_UPDATE_PERIOD''"
| "dbl_string ADnEDFrameUpdatePeriod = ''ADNED_FRAME_UPDATE_PERIOD''"
| "dbl_string ADnEDDetEventTotal = ''ADNED_DET_EVENT_TOTAL''"
| "dbl_string ADnEDDetTOFTransFloat0 = ''ADNED_DET_TOF_TRANS_FLOAT0''"
| "dbl_string ADnEDDetTOFTransFloat1 = ''ADNED_DET_TOF_TRANS_FLOAT1''"
| "dbl_string ADnEDDetTOFTransFloat2 = ''ADNED_DET_TOF_TRANS_FLOAT2''"
| "dbl_string ADnEDDetTOFTransFloat3 = ''ADNED_DET_TOF_TRANS_FLOAT3''"
| "dbl_string ADnEDDetTOFTransFloat4 = ''ADNED_DET_TOF_TRANS_FLOAT4''"
| "dbl_string ADnEDDetTOFTransFloat5 = ''ADNED_DET_TOF_TRANS_FLOAT5''"
| "dbl_string ADnEDDetTOFTransOffset = ''ADNED_DET_TOF_TRANS_OFFSET''"
| "dbl_string ADnEDDetTOFTransScale = ''ADNED_DET_TOF_TRANS_SCALE''"
| "dbl_string (BaseDouble _) = ''''"

primrec str_string :: "sparam \<Rightarrow> string" where
  "str_string ADnEDPVName = ''ADNED_PV_NAME''"
| "str_string ADnEDDetTOFTransFile0 = ''ADNED_DET_TOF_TRANS_FILE0''"
| "str_string ADnEDDetTOFTransFile1 = ''ADNED_DET_TOF_TRANS_FILE1''"
| "str_string ADnEDDetTOFTransFile2 = ''ADNED_DET_TOF_TRANS_FILE2''"
| "str_string ADnEDDetTOFTransFile3 = ''ADNED_DET_TOF_TRANS_FILE3''"
| "str_string ADnEDDetTOFTransFile4 = ''ADNED_DET_TOF_TRANS_FILE4''"
| "str_string ADnEDDetTOFTransFile5 = ''ADNED_DET_TOF_TRANS_FILE5''"
| "str_string ADnEDDetPixelMapFile = ''ADNED_DET_PIXEL_MAP_FILE''"
| "str_string ADStatusMessage = ''''"
| "str_string ADManufacturer = ''''"
| "str_string ADModel = ''''"
| "str_string (BaseOctet _) = ''''"

fun param_string :: "pmember \<Rightarrow> string" where
  "param_string (IntP q) = int_string q"
| "param_string (DblP q) = dbl_string q"
| "param_string (StrP q) = str_string q"

text \<open>The calls of \<open>createParam\<close> in \<open>ADnED::ADnED\<close>: the member, whose macro is the string of the call, and the type.\<close>

definition driver_calls :: "(pmember \<times> string \<times> asynParamType) list" where
  "driver_calls = map (\<lambda>(m, ty). (m, param_string m, ty)) [
    (IntP ADnEDFirst, asynParamInt32), (IntP ADnEDReset, asynParamInt32),
    (IntP ADnEDStart, asynParamInt32), (IntP ADnEDStop, asynParamInt32),
    (IntP ADnEDPause, asynParamInt32), (IntP ADnEDEventDebug, asynParamInt32),
    (IntP ADnEDSeqCounter, asynParamInt32), (IntP ADnEDPulseCounter, asynParamInt32),
    (IntP ADnEDEventRate, asynParamInt32), (IntP ADnEDSeqID, asynParamInt32),
    (IntP ADnEDSeqIDMissing, asynParamInt32), (IntP ADnEDSeqIDNumMissing, asynParamInt32),
    (IntP ADnEDBadTimeStamp, asynParamInt32), (DblP ADnEDPCharge, asynParamFloat64),
    (DblP ADnEDPChargeInt, asynParamFloat64), (DblP ADnEDEventUpdatePeriod, asynParamFloat64),
    (DblP ADnEDFrameUpdatePeriod, asynParamFloat64), (IntP ADnEDNumChannels, asynParamInt32),
    (StrP ADnEDPVName, asynParamOctet), (IntP ADnEDNumDet, asynParamInt32),
    (IntP ADnEDDetPixelNumStart, asynParamInt32), (IntP ADnEDDetPixelNumEnd, asynParamInt32),
    (IntP ADnEDDetPixelNumSize, asynParamInt32), (IntP ADnEDDetTOFNumBins, asynParamInt32),
    (IntP ADnEDDet2DType, asynParamInt32), (IntP ADnEDDetNDArrayStart, asynParamInt32),
    (IntP ADnEDDetNDArrayEnd, asynParamInt32), (IntP ADnEDDetNDArraySize, asynParamInt32),
    (IntP ADnEDDetNDArrayTOFStart, asynParamInt32), (IntP ADnEDDetNDArrayTOFEnd, asynParamInt32),
    (IntP ADnEDDetEventRate, asynParamInt32), (DblP ADnEDDetEventTotal, asynParamFloat64),
    (IntP ADnEDDetTOFROIStart, asynParamInt32), (IntP ADnEDDetTOFROISize, asynParamInt32),
    (IntP ADnEDDetTOFROIEnable, asynParamInt32), (IntP ADnEDDetTOFArrayReset, asynParamInt32),
    (StrP ADnEDDetTOFTransFile0, asynParamOctet), (StrP ADnEDDetTOFTransFile1, asynParamOctet),
    (StrP ADnEDDetTOFTransFile2, asynParamOctet), (StrP ADnEDDetTOFTransFile3, asynParamOctet),
    (StrP ADnEDDetTOFTransFile4, asynParamOctet), (StrP ADnEDDetTOFTransFile5, asynParamOctet),
    (IntP ADnEDDetTOFTransInt0, asynParamInt32), (IntP ADnEDDetTOFTransInt1, asynParamInt32),
    (IntP ADnEDDetTOFTransInt2, asynParamInt32), (IntP ADnEDDetTOFTransInt3, asynParamInt32),
    (IntP ADnEDDetTOFTransInt4, asynParamInt32), (IntP ADnEDDetTOFTransInt5, asynParamInt32),
    (DblP ADnEDDetTOFTransFloat0, asynParamFloat64), (DblP ADnEDDetTOFTransFloat1, asynParamFloat64),
    (DblP ADnEDDetTOFTransFloat2, asynParamFloat64), (DblP ADnEDDetTOFTransFloat3, asynParamFloat64),
    (DblP ADnEDDetTOFTransFloat4, asynParamFloat64), (DblP ADnEDDetTOFTransFloat5, asynParamFloat64),
    (IntP ADnEDDetTOFTransPrint, asynParamInt32), (IntP ADnEDDetTOFTransDebug, asynParamInt32),
    (IntP ADnEDDetTOFTransType, asynParamInt32), (DblP ADnEDDetTOFTransOffset, asynParamFloat64),
    (DblP ADnEDDetTOFTransScale, asynParamFloat64), (StrP ADnEDDetPixelMapFile, asynParamOctet),
    (IntP ADnEDDetPixelMapPrint, asynParamInt32), (IntP ADnEDDetPixelMapEnable, asynParamInt32),
    (IntP ADnEDDetPixelROIStartX, asynParamInt32), (IntP ADnEDDetPixelROISizeX, asynParamInt32),
    (IntP ADnEDDetPixelROIStartY, asynParamInt32), (IntP ADnEDDetPixelROISizeY, asynParamInt32),
    (IntP ADnEDDetPixelSizeX, asynParamInt32), (IntP ADnEDDetPixelROIEnable, asynParamInt32),
    (IntP ADnEDTOFMax, asynParamInt32), (IntP ADnEDAllocSpace, asynParamInt32),
    (IntP ADnEDAllocSpaceStatus, asynParamInt32), (IntP ADnEDLast, asynParamInt32)]"

section \<open>The plugins\<close>

definition mask_calls :: "(mask_param \<times> string \<times> asynParamType) list" where
  "mask_calls = [
    (NDPluginMaskName, ''MASK_NAME'', asynParamOctet),
    (NDPluginMaskUse, ''MASK_USE'', asynParamInt32),
    (NDPluginMaskMaxSizeX, ''MASK_MAX_SIZE_X'', asynParamInt32),
    (NDPluginMaskMaxSizeY, ''MASK_MAX_SIZE_Y'', asynParamInt32),
    (NDPluginMaskPosX, ''MASK_POS_X'', asynParamInt32),
    (NDPluginMaskPosY, ''MASK_POS_Y'', asynParamInt32),
    (NDPluginMaskSizeX, ''MASK_SIZE_X'', asynParamInt32),
    (NDPluginMaskSizeY, ''MASK_SIZE_Y'', asynParamInt32),
    (NDPluginMaskVal, ''MASK_VAL'', asynParamInt32),
    (NDPluginMaskType, ''MASK_TYPE'', asynParamInt32)]"

definition roi_calls :: "(roi_param \<times> string \<times> asynParamType) list" where
  "roi_calls = [
    (ADnEDPixelROIName, ''PIXELROI_NAME'', asynParamOctet),
    (ADnEDPixelROIDim0Min, ''PIXELROI_DIM0_MIN'', asynParamInt32),
    (ADnEDPixelROIDim1Min, ''PIXELROI_DIM1_MIN'', asynParamInt32),
    (ADnEDPixelROIDim2Min, ''PIXELROI_DIM2_MIN'', asynParamInt32),
    (ADnEDPixelROIDim0Size, ''PIXELROI_DIM0_SIZE'', asynParamInt32),
    (ADnEDPixelROIDim1Size, ''PIXELROI_DIM1_SIZE'', asynParamInt32),
    (ADnEDPixelROIDim2Size, ''PIXELROI_DIM2_SIZE'', asynParamInt32),
    (ADnEDPixelROIDim0MaxSize, ''PIXELROI_DIM0_MAX_SIZE'', asynParamInt32),
    (ADnEDPixelROIDim1MaxSize, ''PIXELROI_DIM1_MAX_SIZE'', asynParamInt32),
    (ADnEDPixelROIDim2MaxSize, ''PIXELROI_DIM2_MAX_SIZE'', asynParamInt32),
    (ADnEDPixelROIDataType, ''PIXELROI_ROI_DATA_TYPE'', asynParamInt32)]"

section \<open>The records of the templates\<close>

text \<open>The device support of a record and the string it linked to. Records of the base classes' parameters (\<open>ARRAY_SIZE_X\<close> and its
  like) are left out.\<close>

datatype devType = DevInt32 | DevFloat64 | DevOctetRead | DevOctetWrite

fun dev_type :: "devType \<Rightarrow> asynParamType" where
  "dev_type DevInt32 = asynParamInt32"
| "dev_type DevFloat64 = asynParamFloat64"
| "dev_type DevOctetRead = asynParamOctet"
| "dev_type DevOctetWrite = asynParamOctet"

definition ADnED_template :: "(devType \<times> string) list" where
  "ADnED_template = [
    (DevInt32, ''ADNED_RESET''), (DevInt32, ''ADNED_EVENT_DEBUG''),
    (DevInt32, ''ADNED_PULSE_COUNTER''), (DevInt32, ''ADNED_EVENT_RATE''),
    (DevFloat64, ''ADNED_EVENT_UPDATE_PERIOD''), (DevFloat64, ''ADNED_EVENT_UPDATE_PERIOD''),
    (DevInt32, ''ADNED_NUM_CHANNELS''), (DevInt32, ''ADNED_NUM_CHANNELS''),
    (DevFloat64, ''ADNED_FRAME_UPDATE_PERIOD''), (DevFloat64, ''ADNED_FRAME_UPDATE_PERIOD''),
    (DevInt32, ''ADNED_NUM_DET''), (DevInt32, ''ADNED_NUM_DET''),
    (DevInt32, ''ADNED_TOF_MAX''), (DevInt32, ''ADNED_TOF_MAX''),
    (DevFloat64, ''ADNED_PCHARGE''), (DevFloat64, ''ADNED_PCHARGE_INT''),
    (DevInt32, ''ADNED_ALLOC_SPACE''), (DevInt32, ''ADNED_ALLOC_SPACE_STATUS''),
    (DevInt32, ''ADNED_START''), (DevInt32, ''ADNED_STOP''),
    (DevInt32, ''ADNED_PAUSE'')]"

definition ADnEDChannel_template :: "(devType \<times> string) list" where
  "ADnEDChannel_template = [
    (DevOctetWrite, ''ADNED_PV_NAME''), (DevOctetRead, ''ADNED_PV_NAME''),
    (DevInt32, ''ADNED_SEQ_COUNTER''), (DevInt32, ''ADNED_SEQ_ID''),
    (DevInt32, ''ADNED_SEQ_ID_MISSING''), (DevInt32, ''ADNED_SEQ_ID_NUM_MISSING''),
    (DevInt32, ''ADNED_BAD_TIMESTAMP'')]"

definition ADnEDDetector_template :: "(devType \<times> string) list" where
  "ADnEDDetector_template = [
    (DevInt32, ''ADNED_DET_PIXEL_NUM_START''), (DevInt32, ''ADNED_DET_PIXEL_NUM_START''),
    (DevInt32, ''ADNED_DET_PIXEL_NUM_END''), (DevInt32, ''ADNED_DET_PIXEL_NUM_END''),
    (DevInt32, ''ADNED_DET_PIXEL_NUM_SIZE''), (DevInt32, ''ADNED_DET_PIXEL_NUM_SIZE''),
    (DevInt32, ''ADNED_DET_TOF_NUM_BINS''), (DevInt32, ''ADNED_DET_TOF_NUM_BINS''),
    (DevInt32, ''ADNED_DET_2D_TYPE''), (DevInt32, ''ADNED_DET_2D_TYPE''),
    (DevInt32, ''ADNED_DET_NDARRAY_START''), (DevInt32, ''ADNED_DET_NDARRAY_END''),
    (DevInt32, ''ADNED_DET_NDARRAY_SIZE''), (DevInt32, ''ADNED_DET_NDARRAY_TOF_START''),
    (DevInt32, ''ADNED_DET_NDARRAY_TOF_END''), (DevInt32, ''ADNED_DET_EVENT_RATE''),
    (DevFloat64, ''ADNED_DET_EVENT_TOTAL''), (DevInt32, ''ADNED_DET_TOF_ROI_START''),
    (DevInt32, ''ADNED_DET_TOF_ROI_START''), (DevInt32, ''ADNED_DET_TOF_ROI_SIZE''),
    (DevInt32, ''ADNED_DET_TOF_ROI_SIZE''), (DevInt32, ''ADNED_DET_TOF_ROI_ENABLE''),
    (DevInt32, ''ADNED_DET_TOF_ROI_ENABLE''), (DevInt32, ''ADNED_DET_TOF_TRANS_PRINT''),
    (DevInt32, ''ADNED_DET_TOF_TRANS_DEBUG''), (DevInt32, ''ADNED_DET_TOF_TRANS_DEBUG''),
    (DevInt32, ''ADNED_DET_TOF_TRANS_TYPE''), (DevInt32, ''ADNED_DET_TOF_TRANS_TYPE''),
    (DevFloat64, ''ADNED_DET_TOF_TRANS_OFFSET''), (DevFloat64, ''ADNED_DET_TOF_TRANS_OFFSET''),
    (DevFloat64, ''ADNED_DET_TOF_TRANS_SCALE''), (DevFloat64, ''ADNED_DET_TOF_TRANS_SCALE''),
    (DevOctetWrite, ''ADNED_DET_PIXEL_MAP_FILE''), (DevOctetRead, ''ADNED_DET_PIXEL_MAP_FILE''),
    (DevInt32, ''ADNED_DET_PIXEL_MAP_PRINT''), (DevInt32, ''ADNED_DET_PIXEL_MAP_ENABLE''),
    (DevInt32, ''ADNED_DET_PIXEL_MAP_ENABLE''), (DevInt32, ''ADNED_DET_PIXEL_ROI_START_X''),
    (DevInt32, ''ADNED_DET_PIXEL_ROI_START_X''), (DevInt32, ''ADNED_DET_PIXEL_ROI_SIZE_X''),
    (DevInt32, ''ADNED_DET_PIXEL_ROI_SIZE_X''), (DevInt32, ''ADNED_DET_PIXEL_ROI_START_Y''),
    (DevInt32, ''ADNED_DET_PIXEL_ROI_START_Y''), (DevInt32, ''ADNED_DET_PIXEL_ROI_SIZE_Y''),
    (DevInt32, ''ADNED_DET_PIXEL_ROI_SIZE_Y''), (DevInt32, ''ADNED_DET_PIXEL_SIZE_X''),
    (DevInt32, ''ADNED_DET_PIXEL_SIZE_X''), (DevInt32, ''ADNED_DET_PIXEL_ROI_ENABLE''),
    (DevInt32, ''ADNED_DET_PIXEL_ROI_ENABLE''), (DevInt32, ''ADNED_DET_TOF_ARRAY_RESET'')]"

text \<open>Loaded once for each \<open>INDEX\<close>, a digit.\<close>

definition TOFTransform_template :: "char \<Rightarrow> (devType \<times> string) list" where
  "TOFTransform_template index = [
    (DevOctetWrite, ''ADNED_DET_TOF_TRANS_FILE'' @ [index]),
    (DevOctetRead, ''ADNED_DET_TOF_TRANS_FILE'' @ [index]),
    (DevInt32, ''ADNED_DET_TOF_TRANS_INT'' @ [index]),
    (DevInt32, ''ADNED_DET_TOF_TRANS_INT'' @ [index]),
    (DevFloat64, ''ADNED_DET_TOF_TRANS_FLOAT'' @ [index]),
    (DevFloat64, ''ADNED_DET_TOF_TRANS_FLOAT'' @ [index])]"

definition ADnEDMask_template :: "(devType \<times> string) list" where
  "ADnEDMask_template = [
    (DevInt32, ''MASK_MAX_SIZE_X''), (DevInt32, ''MASK_MAX_SIZE_Y'')]"

definition ADnEDMaskN_template :: "(devType \<times> string) list" where
  "ADnEDMaskN_template = [
    (DevOctetWrite, ''MASK_NAME''), (DevOctetRead, ''MASK_NAME''),
    (DevInt32, ''MASK_USE''), (DevInt32, ''MASK_USE''),
    (DevInt32, ''MASK_POS_X''), (DevInt32, ''MASK_POS_X''),
    (DevInt32, ''MASK_POS_Y''), (DevInt32, ''MASK_POS_Y''),
    (DevInt32, ''MASK_SIZE_X''), (DevInt32, ''MASK_SIZE_X''),
    (DevInt32, ''MASK_SIZE_Y''), (DevInt32, ''MASK_SIZE_Y''),
    (DevInt32, ''MASK_VAL''), (DevInt32, ''MASK_VAL''),
    (DevInt32, ''MASK_TYPE''), (DevInt32, ''MASK_TYPE'')]"

definition ADnEDPixelROI_template :: "(devType \<times> string) list" where
  "ADnEDPixelROI_template = [
    (DevOctetWrite, ''PIXELROI_NAME''), (DevOctetRead, ''PIXELROI_NAME''),
    (DevInt32, ''PIXELROI_DIM0_MIN''), (DevInt32, ''PIXELROI_DIM0_MIN''),
    (DevInt32, ''PIXELROI_DIM1_MIN''), (DevInt32, ''PIXELROI_DIM1_MIN''),
    (DevInt32, ''PIXELROI_DIM2_MIN''), (DevInt32, ''PIXELROI_DIM2_MIN''),
    (DevInt32, ''PIXELROI_DIM0_SIZE''), (DevInt32, ''PIXELROI_DIM0_SIZE''),
    (DevInt32, ''PIXELROI_DIM1_SIZE''), (DevInt32, ''PIXELROI_DIM1_SIZE''),
    (DevInt32, ''PIXELROI_DIM2_SIZE''), (DevInt32, ''PIXELROI_DIM2_SIZE''),
    (DevInt32, ''PIXELROI_DIM0_MAX_SIZE''), (DevInt32, ''PIXELROI_DIM1_MAX_SIZE''),
    (DevInt32, ''PIXELROI_DIM2_MAX_SIZE''), (DevInt32, ''PIXELROI_ROI_DATA_TYPE''),
    (DevInt32, ''PIXELROI_ROI_DATA_TYPE'')]"

text \<open>The choices of the records whose value the code compares with a constant.\<close>

definition menu_2DType :: "nat list" where "menu_2DType = [0, 1, 2, 3]"
definition menu_AllocSpaceStatus :: "nat list" where "menu_AllocSpaceStatus = [0, 1, 2]"
definition menu_MaskType :: "nat list" where "menu_MaskType = [0, 1]"

lemma menus_match:
  "menu_2DType = map unat [PLOT_XY, PLOT_XTOF, PLOT_YTOF, PLOT_PIXELIDTOF]"
  "menu_AllocSpaceStatus = map unat [ALLOC_STATUS_OK, ALLOC_STATUS_REQ, ALLOC_STATUS_FAIL]"
  "menu_MaskType = map unat [MASK_TYPE_REJECT, MASK_TYPE_PASS]"
  by (simp_all add: menu_2DType_def menu_AllocSpaceStatus_def menu_MaskType_def plot_type_defs alloc_status_defs
      MASK_TYPE_REJECT_def MASK_TYPE_PASS_def)

section \<open>The tables fit together\<close>

lemma call_members: "map fst driver_calls = members" "distinct members"
  by (simp_all add: driver_calls_def members_def)

lemma call_types: "(m, name, ty) \<in> set driver_calls \<Longrightarrow> ty = access_type m"
  unfolding driver_calls_def by auto

lemma num_params: "NUM_DRIVER_PARAMS = 72" "length members = 72" "length driver_calls = 72"
  by (simp_all add: NUM_DRIVER_PARAMS_def members_def driver_calls_def)

lemma call_names:
  "distinct (map (fst \<circ> snd) driver_calls)" "distinct (map (fst \<circ> snd) mask_calls)" "distinct (map (fst \<circ> snd) roi_calls)"
  by (simp_all add: driver_calls_def mask_calls_def roi_calls_def)

text \<open>A record linked when its string is the name of a parameter of the type that its device support uses.\<close>

definition linked :: "'l param_list \<Rightarrow> 'l \<Rightarrow> (devType \<times> string) list \<Rightarrow> bool" where
  "linked P l recs \<longleftrightarrow> (\<forall>(d, s)\<in>set recs. \<exists>i. pl_find P l s = Some i \<and> pl_type P l i = Some (dev_type d))"

definition answered :: "('m \<times> string \<times> asynParamType) list \<Rightarrow> (devType \<times> string) list \<Rightarrow> bool" where
  "answered cs recs \<longleftrightarrow> list_all (\<lambda>(d, s). (s, dev_type d) \<in> set (map snd cs)) recs"

definition driver_records :: "(devType \<times> string) list" where
  "driver_records = ADnED_template @ ADnEDChannel_template @ ADnEDDetector_template @ concat (map TOFTransform_template ''012345'')"

lemma answered_append: "answered cs (xs @ ys) \<longleftrightarrow> answered cs xs \<and> answered cs ys"
  by (simp add: answered_def)

lemma ADnED_answered: "answered driver_calls (ADnED_template @ ADnEDChannel_template)"
  by code_simp

lemma detector_answered: "answered driver_calls ADnEDDetector_template"
  by code_simp

lemma transform_answered: "answered driver_calls (concat (map TOFTransform_template ''012345''))"
  by code_simp

lemma mask_answered: "answered mask_calls (ADnEDMask_template @ ADnEDMaskN_template)"
  by code_simp

lemma roi_answered: "answered roi_calls ADnEDPixelROI_template"
  by code_simp

lemma driver_answered: "answered driver_calls driver_records"
  using ADnED_answered detector_answered transform_answered by (simp add: driver_records_def answered_append del: concat.simps list.map)

definition fresh :: "'l param_list \<Rightarrow> 'l \<Rightarrow> ('m \<times> string \<times> asynParamType) list \<Rightarrow> bool" where
  "fresh P l cs \<longleftrightarrow> (\<forall>(m, name, ty)\<in>set cs. pl_find P l name = None)"

lemma fresh_names: "fresh P l cs \<Longrightarrow> name \<in> set (map (fst \<circ> snd) cs) \<Longrightarrow> pl_find P l name = None"
  by (auto simp: fresh_def)

context param_lists
begin

lemma records_connect:
  assumes "distinct (map fst cs)" "distinct (map (fst \<circ> snd) cs)" "fresh P l cs" "pl_count P l + length cs \<le> room" "answered cs recs"
  shows "linked P (snd (create_params P cs (idx, l))) recs"
  unfolding linked_def
proof (intro ballI)
  fix r assume r: "r \<in> set recs"
  obtain d s where ds: "r = (d, s)" by (cases r)
  then obtain k where k: "k < length cs" "snd (cs ! k) = (s, dev_type d)"
    using assms(5) r unfolding answered_def by (fastforce simp: list_all_iff image_iff in_set_conv_nth [of _ cs])
  obtain idx' l' where run: "create_params P cs (idx, l) = (idx', l')" by (cases "create_params P cs (idx, l)")
  from create_params_spec [OF assms(1,2) fresh_names [OF assms(3)] assms(4) run] k ds
  show "case r of (d, s) \<Rightarrow> \<exists>i. pl_find P (snd (create_params P cs (idx, l))) s = Some i
      \<and> pl_type P (snd (create_params P cs (idx, l))) i = Some (dev_type d)"
    by (cases "cs ! k") (auto simp: run)
qed

end

section \<open>Properties\<close>

text \<open>(C14) The parameters of the driver are well typed. On the list of the base classes, with none of the driver's names in it and room for
  \<open>NUM_DRIVER_PARAMS\<close> more, the constructor's calls all succeed and use up that room exactly: the member at place \<open>k\<close> of the class gets
  the \<open>k\<close>-th index after those of the base classes; the string of its call finds that index; and the parameter there has the type
  by which the driver reads and writes that member. What the base classes created stays as it was. The test
  \<open>function < ADNED_FIRST_DRIVER_COMMAND\<close> of \<open>writeOctet\<close> therefore tells the parameters of the base classes from the driver's own, as the model of that function has it.\<close>

theorem params_typed:
  assumes "param_lists P (pl_count P l0 + NUM_DRIVER_PARAMS)" "fresh P l0 driver_calls"
    and base: "\<And>m. m \<notin> set members \<Longrightarrow> idx0 m < pl_count P l0"
    and run: "create_params P driver_calls (idx0, l0) = (idx, l1)"
  shows "pl_count P l1 = pl_count P l0 + NUM_DRIVER_PARAMS
    \<and> (\<forall>k < NUM_DRIVER_PARAMS. idx (members ! k) = pl_count P l0 + k)
    \<and> (\<forall>(m, name, ty)\<in>set driver_calls. pl_find P l1 name = Some (idx m) \<and> pl_type P l1 (idx m) = Some (access_type m))
    \<and> (\<forall>i < pl_count P l0. pl_type P l1 i = pl_type P l0 i)
    \<and> (\<forall>q. idx (StrP q) < idx (IntP ADnEDFirst) \<longleftrightarrow> is_base_octet q)"
proof -
  have "distinct (map fst driver_calls)" using call_members by simp
  from param_lists.create_params_spec [OF assms(1) this call_names(1) fresh_names [OF assms(2)] _ run]
  have s: "pl_count P l1 = pl_count P l0 + 72"
    "\<And>k. k < 72 \<Longrightarrow> case driver_calls ! k of (m, name, ty) \<Rightarrow> idx m = pl_count P l0 + k
         \<and> pl_find P l1 name = Some (pl_count P l0 + k) \<and> pl_type P l1 (pl_count P l0 + k) = Some ty"
    "\<And>m. m \<notin> set members \<Longrightarrow> idx m = idx0 m" "\<forall>i < pl_count P l0. pl_type P l1 i = pl_type P l0 i"
    using call_members(1) by (auto simp: num_params simp flip: set_map)
  have idx: "idx (members ! k) = pl_count P l0 + k" if "k < 72" for k
    using s(2) [OF that] that by (simp add: call_members(1) [symmetric] num_params split_beta)
  have own: "pl_find P l1 name = Some (idx m) \<and> pl_type P l1 (idx m) = Some (access_type m)" if c: "(m, name, ty) \<in> set driver_calls" for m name ty
  proof -
    obtain k where "k < 72" "driver_calls ! k = (m, name, ty)" using c by (auto simp: in_set_conv_nth num_params)
    then show ?thesis using s(2) [of k] call_types [OF c] by simp
  qed
  have "members ! 0 = IntP ADnEDFirst" by (simp add: members_def)
  then have first: "idx (IntP ADnEDFirst) = pl_count P l0" using idx [of 0] by simp
  have "pl_count P l0 \<le> idx m" if "m \<in> set members" for m
    using that idx by (auto simp: in_set_conv_nth num_params)
  moreover have "is_base_octet q \<longleftrightarrow> StrP q \<notin> set members" for q
    by (cases q) (simp_all add: is_base_octet_def members_def)
  ultimately have "idx (StrP q) < idx (IntP ADnEDFirst) \<longleftrightarrow> is_base_octet q" for q
    using base [of "StrP q"] s(3) [of "StrP q"] by (auto simp: first not_less [symmetric])
  with s(1,4) idx own show ?thesis by (auto simp: num_params)
qed

text \<open>(C16) The records of the templates fit the code. Whatever list the base classes leave, as long as it has room and none of the names, each
  record of the driver's templates, of the mask plugin's and of the region plugin's that names one of their own strings finds a parameter
  created by the constructor under that string, of the type that the record's device support reads and writes; the template of the
  transformations for each of its six indices.\<close>

theorem records_typed:
  assumes "param_lists P room" "pl_count P l + 72 \<le> room" "fresh P l driver_calls" "fresh P l mask_calls" "fresh P l roi_calls"
  shows "linked P (snd (create_params P driver_calls (i, l))) driver_records
    \<and> linked P (snd (create_params P mask_calls (j, l))) (ADnEDMask_template @ ADnEDMaskN_template)
    \<and> linked P (snd (create_params P roi_calls (k, l))) ADnEDPixelROI_template"
proof -
  have d: "distinct (map fst driver_calls)" "distinct (map fst mask_calls)" "distinct (map fst roi_calls)"
    using call_members by (simp_all add: mask_calls_def roi_calls_def)
  have "length mask_calls \<le> 72" "length roi_calls \<le> 72" by (simp_all add: mask_calls_def roi_calls_def)
  then show ?thesis
    using assms(2) num_params
    by (intro conjI param_lists.records_connect [OF assms(1) d(1) call_names(1) assms(3) _ driver_answered]
        param_lists.records_connect [OF assms(1) d(2) call_names(2) assms(4) _ mask_answered]
        param_lists.records_connect [OF assms(1) d(3) call_names(3) assms(5) _ roi_answered]) simp_all
qed

lemma table_fresh: "fresh (table_params n) [] cs"
  by (auto simp: fresh_def table_params_def)

lemma table_count: "pl_count (table_params n) = length"
  by (simp add: table_params_def)

theorem params_typed_witness:
  "\<exists>idx l1. create_params (table_params 73) driver_calls (\<lambda>_. 0, [(''PORT_NAME_SELF'', asynParamOctet)]) = (idx, l1)
    \<and> idx (IntP ADnEDNumDet) = 20 \<and> length l1 = 73"
proof -
  obtain idx l1 where r: "create_params (table_params 73) driver_calls (\<lambda>_. 0, [(''PORT_NAME_SELF'', asynParamOctet)]) = (idx, l1)"
    by (cases "create_params (table_params 73) driver_calls (\<lambda>_. 0, [(''PORT_NAME_SELF'', asynParamOctet)])")
  have "fresh (table_params 73) [(''PORT_NAME_SELF'', asynParamOctet)] driver_calls"
    by (simp add: fresh_def table_params_def driver_calls_def)
  then have "idx (members ! 19) = 20 \<and> length l1 = 73"
    using params_typed [of "table_params 73" "[(''PORT_NAME_SELF'', asynParamOctet)]", OF _ _ _ r] tab.param_lists_axioms [of 73]
    by (simp add: num_params table_count)
  moreover have "members ! 19 = IntP ADnEDNumDet" by (simp add: members_def)
  ultimately show ?thesis using r by simp
qed

theorem records_typed_witness:
  "linked (table_params 72) (snd (create_params (table_params 72) driver_calls (\<lambda>_. 0, []))) driver_records"
proof -
  show ?thesis
    using records_typed [OF tab.param_lists_axioms [of 72], of "[]" "\<lambda>_. 0"] by (simp add: table_fresh table_count)
qed

end
