(* ===== verification/Shell.thy ===== *)
theory Shell
  imports Params CommandProps
begin

text \<open>
  The commands that the code adds to the shell of EPICS: their argument tables, the functions that take the arguments out of the
  shell's buffer, the configuration functions they call, and the registration (\<open>ADnED.cpp\<close>, \<open>ADnEDPluginMask.cpp\<close>, \<open>ADnEDPixelROI.cpp\<close>); and the main program.
  The shell itself is EPICS: it hands a command one value per entry of its table, of the entry's type. The constructors of the base classes
  and the start of the client factory are parameters, members of the record \<open>env\<close>.
\<close>

section \<open>Tables and arguments\<close>

datatype iocshArgType = iocshArgString | iocshArgInt

record iocshFuncDef =
  fd_name :: string
  fd_nargs :: nat
  fd_args :: "(string \<times> iocshArgType) list"

text \<open>\<open>iocshArgBuf\<close> is a union: only the member that was written may be read. A string that is missing on the line is a null pointer.\<close>

datatype iocshArgBuf = SVal "string option" | IVal i32

fun fits :: "string \<times> iocshArgType \<Rightarrow> iocshArgBuf \<Rightarrow> bool" where
  "fits (_, iocshArgString) (SVal _) \<longleftrightarrow> True"
| "fits (_, iocshArgInt) (IVal _) \<longleftrightarrow> True"
| "fits _ _ \<longleftrightarrow> False"

text \<open>What the shell guarantees: as many values as the command announces, each of the type that the table has at its place.\<close>

definition conforms :: "iocshFuncDef \<Rightarrow> iocshArgBuf list \<Rightarrow> bool" where
  "conforms fd args \<longleftrightarrow> length args = fd_nargs fd \<and> (\<forall>i < fd_nargs fd. i < length (fd_args fd) \<and> fits (fd_args fd ! i) (args ! i))"

definition sval :: "iocshArgBuf list \<Rightarrow> nat \<Rightarrow> string option res" where
  "sval args i = (if i < length args then case args ! i of SVal s \<Rightarrow> Inr s | IVal _ \<Rightarrow> Inl Uninit_Deref else Inl Oob_Read)"

definition ival :: "iocshArgBuf list \<Rightarrow> nat \<Rightarrow> i32 res" where
  "ival args i = (if i < length args then case args ! i of IVal v \<Rightarrow> Inr v | SVal _ \<Rightarrow> Inl Uninit_Deref else Inl Oob_Read)"

section \<open>Configuration functions\<close>

text \<open>What the process holds: the objects that were built, and whether the client factory has been started.\<close>

record ('p, 't, 'q, 'r) process =
  drivers :: "('p, 't) adned list"
  masks :: "'q mask_plugin list"
  rois :: "'r roi_plugin list"
  factory :: bool

text \<open>The base classes: \<open>None\<close> is an exception. The driver asks for \<open>ADNED_MAX_DETS + 1\<close> addresses and room for
  \<open>NUM_DRIVER_PARAMS\<close> parameters, the mask plugin for one address per mask, the region plugin for one.\<close>

record ('p, 't, 'q, 'r) env =
  en_asyn :: "'p asyn"
  en_time :: "'t pvtime"
  en_stamp :: 't
  en_memory :: "u32 \<times> (nat \<Rightarrow> u32) \<times> bool"
  en_ADDriver :: "string option \<Rightarrow> nat \<Rightarrow> nat \<Rightarrow> i32 \<Rightarrow> u64 \<Rightarrow> 'p option"
  en_mask_params :: "('q, mask_param) params"
  en_roi_params :: "('r, roi_param) params"
  en_mask_base :: "string option \<Rightarrow> i32 \<Rightarrow> i32 \<Rightarrow> string option \<Rightarrow> i32 \<Rightarrow> i32 \<Rightarrow> i32 \<Rightarrow> u64 \<Rightarrow> i32 \<Rightarrow> i32 \<Rightarrow> 'q option"
  en_roi_base :: "string option \<Rightarrow> i32 \<Rightarrow> i32 \<Rightarrow> string option \<Rightarrow> i32 \<Rightarrow> i32 \<Rightarrow> i32 \<Rightarrow> u64 \<Rightarrow> i32 \<Rightarrow> i32 \<Rightarrow> 'r option"
  en_calloc :: "u64 \<Rightarrow> bool"
  en_info :: NDArrayInfo
  en_factory_starts :: bool

text \<open>\<open>ADnEDConfig\<close> catches what the constructor throws.\<close>

definition ADnEDConfig :: "('p, 't, 'q, 'r) env \<Rightarrow> string option \<Rightarrow> i32 \<Rightarrow> u64 \<Rightarrow> i32
    \<Rightarrow> ('p, 't, 'q, 'r) process \<Rightarrow> asynStatus \<times> ('p, 't, 'q, 'r) process" where
  "ADnEDConfig E portName maxBuffers maxMemory debug w =
     (case en_ADDriver E portName (ADNED_MAX_DETS + 1) NUM_DRIVER_PARAMS maxBuffers maxMemory of
        None \<Rightarrow> (asynError, w)
      | Some p0 \<Rightarrow> (case en_memory E of (g, gd, gb) \<Rightarrow>
          (asynSuccess, w\<lparr>drivers := drivers w @ [new_ADnED (en_asyn E) (en_time E) g gd gb (en_stamp E) p0]\<rparr>)))"

definition createFactory :: "('p, 't, 'q, 'r) env \<Rightarrow> ('p, 't, 'q, 'r) process \<Rightarrow> asynStatus \<times> ('p, 't, 'q, 'r) process" where
  "createFactory E w = (if en_factory_starts E then (asynSuccess, w\<lparr>factory := True\<rparr>) else (asynError, w))"

definition ADnEDCreateFactory :: "('p, 't, 'q, 'r) env \<Rightarrow> ('p, 't, 'q, 'r) process \<Rightarrow> asynStatus \<times> ('p, 't, 'q, 'r) process" where
  "ADnEDCreateFactory E w = createFactory E w"

text \<open>The plugins' functions do not catch exceptions: \<open>None\<close>, also when \<open>callocMustSucceed\<close> does not return.\<close>

definition NDMaskConfigure :: "('p, 't, 'q, 'r) env \<Rightarrow> string option \<Rightarrow> i32 \<Rightarrow> i32 \<Rightarrow> string option \<Rightarrow> i32 \<Rightarrow> i32 \<Rightarrow> i32 \<Rightarrow> u64 \<Rightarrow> i32 \<Rightarrow> i32
    \<Rightarrow> ('p, 't, 'q, 'r) process \<Rightarrow> (asynStatus \<times> ('p, 't, 'q, 'r) process) option" where
  "NDMaskConfigure E portName queueSize blockingCallbacks ndArrayPort ndArrayAddr n_masks maxBuffers maxMemory priority stackSize w =
     (case en_mask_base E portName queueSize blockingCallbacks ndArrayPort ndArrayAddr n_masks maxBuffers maxMemory priority stackSize of
        None \<Rightarrow> None
      | Some p0 \<Rightarrow> (case new_NDPluginMask (en_mask_params E) (en_calloc E) (en_info E) n_masks p0 of
          None \<Rightarrow> None
        | Some m \<Rightarrow> Some (asynSuccess, w\<lparr>masks := masks w @ [m]\<rparr>)))"

definition ADnEDPixelROIConfig :: "('p, 't, 'q, 'r) env \<Rightarrow> string option \<Rightarrow> i32 \<Rightarrow> i32 \<Rightarrow> string option \<Rightarrow> i32 \<Rightarrow> i32 \<Rightarrow> u64 \<Rightarrow> i32 \<Rightarrow> i32
    \<Rightarrow> ('p, 't, 'q, 'r) process \<Rightarrow> (asynStatus \<times> ('p, 't, 'q, 'r) process) option" where
  "ADnEDPixelROIConfig E portName queueSize blockingCallbacks ndArrayPort ndArrayAddr maxBuffers maxMemory priority stackSize w =
     (case en_roi_base E portName queueSize blockingCallbacks ndArrayPort ndArrayAddr 1 maxBuffers maxMemory priority stackSize of
        None \<Rightarrow> None
      | Some p0 \<Rightarrow> Some (asynSuccess, w\<lparr>rois := rois w @ [new_ADnEDPixelROI (en_roi_params E) p0]\<rparr>))"

section \<open>Registration\<close>

definition configADnED :: iocshFuncDef where
  "configADnED = \<lparr>fd_name = ''ADnEDConfig'', fd_nargs = 4,
     fd_args = [(''Port name'', iocshArgString), (''Max Buffers'', iocshArgInt), (''Max Memory'', iocshArgInt), (''Debug'', iocshArgInt)]\<rparr>"

definition configADnEDCreateFactory :: iocshFuncDef where
  "configADnEDCreateFactory = \<lparr>fd_name = ''ADnEDCreateFactory'', fd_nargs = 0, fd_args = []\<rparr>"

definition mask_initFuncDef :: iocshFuncDef where
  "mask_initFuncDef = \<lparr>fd_name = ''NDMaskConfigure'', fd_nargs = 10,
     fd_args = [(''portName'', iocshArgString), (''frame queue size'', iocshArgInt), (''blocking callbacks'', iocshArgInt),
       (''NDArrayPort'', iocshArgString), (''NDArrayAddr'', iocshArgInt), (''maxMasks'', iocshArgInt), (''maxBuffers'', iocshArgInt),
       (''maxMemory'', iocshArgInt), (''priority'', iocshArgInt), (''stackSize'', iocshArgInt)]\<rparr>"

definition roi_initFuncDef :: iocshFuncDef where
  "roi_initFuncDef = \<lparr>fd_name = ''ADnEDPixelROIConfig'', fd_nargs = 9,
     fd_args = [(''portName'', iocshArgString), (''frame queue size'', iocshArgInt), (''blocking callbacks'', iocshArgInt),
       (''NDArrayPort'', iocshArgString), (''NDArrayAddr'', iocshArgInt), (''maxBuffers'', iocshArgInt), (''maxMemory'', iocshArgInt),
       (''priority'', iocshArgInt), (''stackSize'', iocshArgInt)]\<rparr>"

text \<open>The status that a configuration function returns is dropped. \<open>None\<close> as a result: the call does not return.\<close>

definition configADnEDCallFunc :: "('p, 't, 'q, 'r) env \<Rightarrow> iocshArgBuf list \<Rightarrow> ('p, 't, 'q, 'r) process
    \<Rightarrow> ('p, 't, 'q, 'r) process option res" where
  "configADnEDCallFunc E args w =
     res_bind (sval args 0) (\<lambda>a0. res_bind (ival args 1) (\<lambda>a1. res_bind (ival args 2) (\<lambda>a2. res_bind (ival args 3) (\<lambda>a3.
       Inr (Some (snd (ADnEDConfig E a0 a1 (size_of_int a2) a3 w)))))))"

definition configADnEDCreateFactoryCallFunc :: "('p, 't, 'q, 'r) env \<Rightarrow> iocshArgBuf list \<Rightarrow> ('p, 't, 'q, 'r) process
    \<Rightarrow> ('p, 't, 'q, 'r) process option res" where
  "configADnEDCreateFactoryCallFunc E args w = Inr (Some (snd (ADnEDCreateFactory E w)))"

definition mask_initCallFunc :: "('p, 't, 'q, 'r) env \<Rightarrow> iocshArgBuf list \<Rightarrow> ('p, 't, 'q, 'r) process
    \<Rightarrow> ('p, 't, 'q, 'r) process option res" where
  "mask_initCallFunc E args w =
     res_bind (sval args 0) (\<lambda>a0. res_bind (ival args 1) (\<lambda>a1. res_bind (ival args 2) (\<lambda>a2. res_bind (sval args 3) (\<lambda>a3.
     res_bind (ival args 4) (\<lambda>a4. res_bind (ival args 5) (\<lambda>a5. res_bind (ival args 6) (\<lambda>a6. res_bind (ival args 7) (\<lambda>a7.
     res_bind (ival args 8) (\<lambda>a8. res_bind (ival args 9) (\<lambda>a9.
       Inr (map_option snd (NDMaskConfigure E a0 a1 a2 a3 a4 a5 a6 (size_of_int a7) a8 a9 w))))))))))))"

definition roi_initCallFunc :: "('p, 't, 'q, 'r) env \<Rightarrow> iocshArgBuf list \<Rightarrow> ('p, 't, 'q, 'r) process
    \<Rightarrow> ('p, 't, 'q, 'r) process option res" where
  "roi_initCallFunc E args w =
     res_bind (sval args 0) (\<lambda>a0. res_bind (ival args 1) (\<lambda>a1. res_bind (ival args 2) (\<lambda>a2. res_bind (sval args 3) (\<lambda>a3.
     res_bind (ival args 4) (\<lambda>a4. res_bind (ival args 5) (\<lambda>a5. res_bind (ival args 6) (\<lambda>a6. res_bind (ival args 7) (\<lambda>a7.
     res_bind (ival args 8) (\<lambda>a8.
       Inr (map_option snd (ADnEDPixelROIConfig E a0 a1 a2 a3 a4 a5 (size_of_int a6) a7 a8 w)))))))))))"

type_synonym ('p, 't, 'q, 'r) command =
  "iocshFuncDef \<times> (('p, 't, 'q, 'r) env \<Rightarrow> iocshArgBuf list \<Rightarrow> ('p, 't, 'q, 'r) process \<Rightarrow> ('p, 't, 'q, 'r) process option res)"

definition ADnEDRegister :: "('p, 't, 'q, 'r) command list" where
  "ADnEDRegister = [(configADnED, configADnEDCallFunc), (configADnEDCreateFactory, configADnEDCreateFactoryCallFunc)]"

definition NDMaskRegister :: "('p, 't, 'q, 'r) command list" where
  "NDMaskRegister = [(mask_initFuncDef, mask_initCallFunc)]"

definition ADnEDPixelROIRegister :: "('p, 't, 'q, 'r) command list" where
  "ADnEDPixelROIRegister = [(roi_initFuncDef, roi_initCallFunc)]"

definition commands :: "('p, 't, 'q, 'r) command list" where
  "commands = ADnEDRegister @ NDMaskRegister @ ADnEDPixelROIRegister"

section \<open>Startup files\<close>

text \<open>A line is the name of a command with the values the shell made of its arguments. A name that is not registered here is
  somebody else's command, or an error message.\<close>

definition shell_line :: "('p, 't, 'q, 'r) env \<Rightarrow> ('p, 't, 'q, 'r) command list \<Rightarrow> string \<times> iocshArgBuf list
    \<Rightarrow> ('p, 't, 'q, 'r) process \<Rightarrow> ('p, 't, 'q, 'r) process option res" where
  "shell_line E reg = (\<lambda>(name, args) w.
     case find (\<lambda>(fd, f). fd_name fd = name) reg of None \<Rightarrow> Inr (Some w) | Some (fd, f) \<Rightarrow> f E args w)"

fun run_script :: "('p, 't, 'q, 'r) env \<Rightarrow> ('p, 't, 'q, 'r) command list \<Rightarrow> (string \<times> iocshArgBuf list) list
    \<Rightarrow> ('p, 't, 'q, 'r) process \<Rightarrow> ('p, 't, 'q, 'r) process option res" where
  "run_script E reg [] w = Inr (Some w)"
| "run_script E reg (l # ls) w =
     res_bind (shell_line E reg l w) (\<lambda>r. case r of None \<Rightarrow> Inr None | Some w' \<Rightarrow> run_script E reg ls w')"

text \<open>\<open>main\<close>: a startup file if one is named, then the interactive shell.\<close>

datatype main_call = Iocsh "string option" | Sleep | EpicsExit int

definition main :: "nat \<Rightarrow> string list \<Rightarrow> main_call list res" where
  "main argc argv =
     (if 2 \<le> argc
      then if 1 < length argv then Inr [Iocsh (Some (argv ! 1)), Sleep, Iocsh None, EpicsExit 0] else Inl Oob_Read
      else Inr [Iocsh None, EpicsExit 0])"

section \<open>The call functions read what the shell wrote\<close>

lemma fits_cases:
  "fits (n, iocshArgString) v \<longleftrightarrow> (\<exists>s. v = SVal s)" "fits (n, iocshArgInt) v \<longleftrightarrow> (\<exists>i. v = IVal i)"
  by (cases v; simp)+

lemma conforms_args:
  "fd_nargs fd = length (fd_args fd) \<Longrightarrow> conforms fd args \<longleftrightarrow> list_all2 fits (fd_args fd) args"
  by (auto simp: conforms_def list_all2_conv_all_nth)

lemma read_args:
  "sval (SVal s # args) 0 = Inr s" "ival (IVal v # args) 0 = Inr v"
  "sval (a # args) (Suc i) = sval args i" "ival (a # args) (Suc i) = ival args i"
  by (simp_all add: sval_def ival_def)

lemmas call_simps = conforms_args list_all2_Cons1 fits_cases read_args numeral_eq_Suc

lemma call_config:
  assumes "conforms configADnED args"
  shows "\<exists>port mb mm dbg. args = [SVal port, IVal mb, IVal mm, IVal dbg]
    \<and> configADnEDCallFunc E args w = Inr (Some (snd (ADnEDConfig E port mb (size_of_int mm) dbg w)))"
  using assms by (auto simp: configADnED_def configADnEDCallFunc_def call_simps)

lemma call_mask:
  assumes "conforms mask_initFuncDef args"
  shows "\<exists>port q b aport addr n mb mm pr st.
      args = [SVal port, IVal q, IVal b, SVal aport, IVal addr, IVal n, IVal mb, IVal mm, IVal pr, IVal st]
    \<and> mask_initCallFunc E args w = Inr (map_option snd (NDMaskConfigure E port q b aport addr n mb (size_of_int mm) pr st w))"
  using assms by (auto simp: mask_initFuncDef_def mask_initCallFunc_def call_simps)

lemma call_roi:
  assumes "conforms roi_initFuncDef args"
  shows "\<exists>port q b aport addr mb mm pr st. args = [SVal port, IVal q, IVal b, SVal aport, IVal addr, IVal mb, IVal mm, IVal pr, IVal st]
    \<and> roi_initCallFunc E args w = Inr (map_option snd (ADnEDPixelROIConfig E port q b aport addr mb (size_of_int mm) pr st w))"
  using assms by (auto simp: roi_initFuncDef_def roi_initCallFunc_def call_simps)

section \<open>What a startup file builds\<close>

text \<open>The arguments of the lines for the driver and for the mask plugin, by their places in the line.\<close>

definition driver_of_line :: "('p, 't, 'q, 'r) env \<Rightarrow> string \<times> iocshArgBuf list \<Rightarrow> ('p, 't) adned list" where
  "driver_of_line E = (\<lambda>(name, args). case args of
     [SVal port, IVal mb, IVal mm, IVal dbg] \<Rightarrow>
       if name = ''ADnEDConfig''
       then (case en_ADDriver E port 5 72 mb (size_of_int mm) of None \<Rightarrow> []
             | Some p0 \<Rightarrow> [case en_memory E of (g, gd, gb) \<Rightarrow> new_ADnED (en_asyn E) (en_time E) g gd gb (en_stamp E) p0])
       else []
     | _ \<Rightarrow> [])"

definition masks_of_line :: "string \<times> iocshArgBuf list \<Rightarrow> i32 list" where
  "masks_of_line = (\<lambda>(name, args). if name = ''NDMaskConfigure'' \<and> 5 < length args
     then case args ! 5 of IVal n \<Rightarrow> [n] | SVal _ \<Rightarrow> [] else [])"

definition line_conforms :: "string \<times> iocshArgBuf list \<Rightarrow> bool" where
  "line_conforms = (\<lambda>(name, args). \<forall>fd\<in>{configADnED, configADnEDCreateFactory, mask_initFuncDef, roi_initFuncDef}.
     fd_name fd = name \<longrightarrow> conforms fd args)"

definition empty_process :: "('p, 't, 'q, 'r) process" where
  "empty_process = \<lparr>drivers = [], masks = [], rois = [], factory = False\<rparr>"

text \<open>One line: no fault, and what it adds.\<close>

definition line_adds :: "('p, 't, 'q, 'r) env \<Rightarrow> (string \<times> iocshArgBuf list) list \<Rightarrow> ('p, 't, 'q, 'r) process \<Rightarrow> ('p, 't, 'q, 'r) process \<Rightarrow> bool" where
  "line_adds E ls w w' \<longleftrightarrow> drivers w' = drivers w @ concat (map (driver_of_line E) ls)
     \<and> map maxMasks (masks w') = map maxMasks (masks w) @ concat (map masks_of_line ls)
     \<and> ((\<forall>m\<in>set (masks w). mask_inv m) \<longrightarrow> (\<forall>m\<in>set (masks w'). mask_inv m))"

lemma command_names:
  "fd_name configADnED = ''ADnEDConfig''" "fd_name configADnEDCreateFactory = ''ADnEDCreateFactory''"
  "fd_name mask_initFuncDef = ''NDMaskConfigure''" "fd_name roi_initFuncDef = ''ADnEDPixelROIConfig''"
  by (simp_all add: configADnED_def configADnEDCreateFactory_def mask_initFuncDef_def roi_initFuncDef_def)

lemma ADnEDConfig_adds:
  "line_adds E [(''ADnEDConfig'', [SVal port, IVal mb, IVal mm, IVal dbg])] w (snd (ADnEDConfig E port mb (size_of_int mm) dbg w))"
  by (auto simp: line_adds_def ADnEDConfig_def driver_of_line_def masks_of_line_def num_params split: option.splits prod.splits)

lemma NDMaskConfigure_adds:
  "NDMaskConfigure E port q b aport addr n mb mm' pr st w = Some (status, w') \<Longrightarrow>
    line_adds E [(''NDMaskConfigure'', [SVal port, IVal q, IVal b, SVal aport, IVal addr, IVal n, IVal mb, IVal mm, IVal pr, IVal st])] w w'"
  by (auto simp: line_adds_def NDMaskConfigure_def driver_of_line_def masks_of_line_def numeral_eq_Suc
      split: option.splits dest: new_NDPluginMask_inv)

lemma other_line_adds:
  assumes "name \<notin> {''ADnEDConfig'', ''NDMaskConfigure''}" "drivers w' = drivers w" "masks w' = masks w"
  shows "line_adds E [(name, args)] w w'"
  using assms by (auto simp: line_adds_def driver_of_line_def masks_of_line_def split: list.splits iocshArgBuf.splits)

lemmas registered = shell_line_def commands_def ADnEDRegister_def NDMaskRegister_def ADnEDPixelROIRegister_def command_names

lemma config_line:
  assumes "conforms configADnED args"
  shows "\<exists>w'. shell_line E commands (''ADnEDConfig'', args) w = Inr (Some w') \<and> line_adds E [(''ADnEDConfig'', args)] w w'"
proof -
  obtain port mb mm dbg where a: "args = [SVal port, IVal mb, IVal mm, IVal dbg]"
      "configADnEDCallFunc E args w = Inr (Some (snd (ADnEDConfig E port mb (size_of_int mm) dbg w)))"
    using call_config [OF assms, of E w] by blast
  have "shell_line E commands (''ADnEDConfig'', args) w = configADnEDCallFunc E args w" by (simp add: registered)
  then show ?thesis unfolding a(2) unfolding a(1) using ADnEDConfig_adds by blast
qed

lemma factory_line: "\<exists>w'. shell_line E commands (''ADnEDCreateFactory'', args) w = Inr (Some w') \<and> line_adds E [(''ADnEDCreateFactory'', args)] w w'"
  by (simp add: registered configADnEDCreateFactoryCallFunc_def ADnEDCreateFactory_def createFactory_def other_line_adds)

lemma mask_line:
  assumes "conforms mask_initFuncDef args"
  shows "\<exists>r. shell_line E commands (''NDMaskConfigure'', args) w = Inr r \<and> (\<forall>w'. r = Some w' \<longrightarrow> line_adds E [(''NDMaskConfigure'', args)] w w')"
proof -
  obtain port q b aport addr n mb mm pr st where
    a: "args = [SVal port, IVal q, IVal b, SVal aport, IVal addr, IVal n, IVal mb, IVal mm, IVal pr, IVal st]"
      "mask_initCallFunc E args w = Inr (map_option snd (NDMaskConfigure E port q b aport addr n mb (size_of_int mm) pr st w))"
    using call_mask [OF assms, of E w] by blast
  have "shell_line E commands (''NDMaskConfigure'', args) w = mask_initCallFunc E args w" by (simp add: registered)
  then show ?thesis unfolding a(2) unfolding a(1) by (auto intro: NDMaskConfigure_adds)
qed

lemma roi_line:
  assumes "conforms roi_initFuncDef args"
  shows "\<exists>r. shell_line E commands (''ADnEDPixelROIConfig'', args) w = Inr r \<and> (\<forall>w'. r = Some w' \<longrightarrow> line_adds E [(''ADnEDPixelROIConfig'', args)] w w')"
proof -
  obtain port q b aport addr mb mm pr st where
    "roi_initCallFunc E args w = Inr (map_option snd (ADnEDPixelROIConfig E port q b aport addr mb (size_of_int mm) pr st w))"
    using call_roi [OF assms, of E w] by blast
  moreover have "shell_line E commands (''ADnEDPixelROIConfig'', args) w = roi_initCallFunc E args w" by (simp add: registered)
  ultimately show ?thesis by (simp add: ADnEDPixelROIConfig_def other_line_adds split: option.split)
qed

lemma shell_line_adds:
  assumes "line_conforms (name, args)"
  shows "\<exists>r. shell_line E commands (name, args) w = Inr r \<and> (\<forall>w'. r = Some w' \<longrightarrow> line_adds E [(name, args)] w w')"
proof -
  have ok: "fd_name fd = name \<Longrightarrow> fd \<in> {configADnED, configADnEDCreateFactory, mask_initFuncDef, roi_initFuncDef} \<Longrightarrow> conforms fd args" for fd
    using assms by (auto simp: line_conforms_def)
  consider "name = ''ADnEDConfig''" | "name = ''ADnEDCreateFactory''" | "name = ''NDMaskConfigure''" | "name = ''ADnEDPixelROIConfig''"
    | (other) "name \<notin> {''ADnEDConfig'', ''ADnEDCreateFactory'', ''NDMaskConfigure'', ''ADnEDPixelROIConfig''}" by blast
  then show ?thesis
  proof cases
    case 1
    then show ?thesis using config_line [OF ok [of configADnED], of E w] by (auto simp: command_names)
  next
    case 2
    then show ?thesis using factory_line [of E args w] by auto
  next
    case 3
    then show ?thesis using mask_line [OF ok [of mask_initFuncDef], of E w] by (simp add: command_names)
  next
    case 4
    then show ?thesis using roi_line [OF ok [of roi_initFuncDef], of E w] by (simp add: command_names)
  next
    case other
    then have "shell_line E commands (name, args) w = Inr (Some w)" by (auto simp: registered)
    then show ?thesis using other by (simp add: other_line_adds)
  qed
qed

lemma line_adds_trans:
  assumes "line_adds E ks w w1" "line_adds E ls w1 w2"
  shows "line_adds E (ks @ ls) w w2"
  using assms unfolding line_adds_def by (simp only: map_append concat_append append_assoc simp_thms) blast

lemma run_script_adds:
  "\<forall>l\<in>set ls. line_conforms l \<Longrightarrow> \<exists>r. run_script E commands ls w = Inr r \<and> (\<forall>w'. r = Some w' \<longrightarrow> line_adds E ls w w')"
proof (induction ls arbitrary: w)
  case Nil
  then show ?case by (simp add: line_adds_def)
next
  case (Cons l ls)
  have "line_conforms (fst l, snd l)" using Cons.prems by simp
  from shell_line_adds [OF this, of E w]
  obtain r where r: "shell_line E commands l w = Inr r" "\<And>w'. r = Some w' \<Longrightarrow> line_adds E [l] w w'"
    unfolding prod.collapse by blast
  show ?case
  proof (cases r)
    case None
    then show ?thesis by (simp add: r(1))
  next
    case (Some w1)
    obtain r' where r': "run_script E commands ls w1 = Inr r'" "\<And>w'. r' = Some w' \<Longrightarrow> line_adds E ls w1 w'"
      using Cons.IH [of w1] Cons.prems unfolding set_simps ball_simps by blast
    have "line_adds E (l # ls) w w'" if "r' = Some w'" for w'
      using line_adds_trans [OF r(2) [OF Some] r'(2) [OF that]] by simp
    then show ?thesis using r(1) r'(1) Some by simp
  qed
qed

section \<open>Properties\<close>


text \<open>The lines of \<open>st.cmd.config\<close> for one detector, after the factory of the example.\<close>

definition demo_env :: "(pstore, int \<times> int \<times> i32, nat \<Rightarrow> mask_param \<Rightarrow> i32, nat \<Rightarrow> roi_param \<Rightarrow> i32) env" where
  "demo_env = \<lparr>en_asyn = store_asyn, en_time = demo_time, en_stamp = (0, 0, 0), en_memory = (0, \<lambda>_. 0, False),
     en_ADDriver = (\<lambda>port addrs n mb mm. if port = None then None else Some store0), en_mask_params = fun_params 8, en_roi_params = fun_params 1,
     en_mask_base = (\<lambda>port q b ap a n mb mm pr st. Some (\<lambda>_ _. 0)), en_roi_base = (\<lambda>port q b ap a n mb mm pr st. Some (\<lambda>_ _. 0)),
     en_calloc = (\<lambda>n. n < 1000), en_info = \<lparr>xSize = 0, ySize = 0, xStride = 0, yStride = 0\<rparr>, en_factory_starts = True\<rparr>"

definition demo_script :: "(string \<times> iocshArgBuf list) list" where
  "demo_script = [(''ADnEDCreateFactory'', []), (''ADnEDConfig'', [SVal (Some ''N1''), IVal (-1), IVal (-1), IVal 1]),
     (''NDMaskConfigure'', [SVal (Some ''N1.DET1.XY.MASK''), IVal 100, IVal 0, SVal (Some ''N1.DET1.XY''), IVal 0, IVal 8, IVal (-1), IVal (-1), IVal 0, IVal 0]),
     (''ADnEDPixelROIConfig'', [SVal (Some ''N1.DET1.XY''), IVal 100, IVal 0, SVal (Some ''N1''), IVal 0, IVal (-1), IVal (-1), IVal 0, IVal 0])]"


end
