(* ===== verification/Spec2Isabelle.thy ===== *)
theory Spec2Isabelle
  imports CommandSpec Axis Pipeline System Shell
begin

text \<open>
  \<^bold>\<open>ADnED: an areaDetector driver for neutron event data.\<close> The program (\<open>src/ADnEDApp/src\<close>) receives packets of neutron
  events over pvAccess, sorts them into one buffer of histograms (for each of up to four detectors a 2-D plot and a
  time-of-flight spectrum), and hands copies of the buffer to areaDetector plugins. It is configured by writing asyn parameters.
  This development models all of its code that computes or changes state, and proves what each part does.

  \<^bold>\<open>Parts and how they interact.\<close> Clients write parameters (\<open>writeInt32\<close>, \<open>writeFloat64\<close>, \<open>writeOctet\<close> in \<open>ADnED.cpp\<close>); a
  write may clear counters, allocate the buffer, load a pixel map or a transformation array from a file (\<open>ADnEDFile.cpp\<close>), or
  signal the event thread. The event thread (\<open>eventTask\<close>) answers a start: it allocates and clears the buffer, connects the
  channels (\<open>setupChannelMonitor\<close>, \<open>nEDChannel.cpp\<close>) and starts the monitors; it answers a stop by undoing this. Each monitor
  calls \<open>eventHandler\<close>, which checks time stamp and sequence number, transforms times of flight (\<open>ADnEDTransform*.cpp\<close>), maps
  pixels and counts the events. The frame thread (\<open>frameTask\<close>) copies the buffer to NDArrays. Two plugins work on these
  arrays: \<open>ADnEDPluginMask.cpp\<close> and \<open>ADnEDPixelROI.cpp\<close>. \<open>ADnEDAxis.c\<close> computes the scale of a plot axis. The driver and the plugins are
  built by commands of a startup file, and records of the database templates (\<open>src/ADnEDApp/Db\<close>) connect to their parameters.

  \<^bold>\<open>Libraries.\<close>
  \<^item> \<open>ADnED_Prelude\<close>: 32- and 64-bit words, faults (access outside a block, null or uninitialised pointer, division trap) as the
    left part of \<open>'a res\<close>, sequencing \<open>res_bind\<close> and loops \<open>foldR\<close> over it, C division, reads and writes in blocks.
  \<^item> \<open>Float64\<close>: doubles as NaN, infinities and rationals, every operation rounded to 53 bits, half to even. \<open>Blocks\<close>: a
    calculus for loops that store one value in a set of cells.
  \<^item> \<open>AsynPort\<close>: parameter names by type; the asyn parameter library, which is not in the repository, as a record of
    operations with the laws of locale \<open>asyn_port\<close>. \<open>PluginLib\<close>: the same for the plugins, and NDArrays.

  \<^bold>\<open>Driver.\<close>
  \<^item> \<open>TransformLib\<close>: \<open>ADnEDTransformBase.cpp\<close> and \<open>ADnEDTransform.cpp\<close>; the two stores of numbers are instances of one locale;
    a specification of what was stored and of the value computed from it, and that any sequence of calls refines it.
  \<^item> \<open>Driver\<close>: the members of class \<open>ADnED\<close> (\<open>adned\<close>, \<open>detValues\<close>), constructor, \<open>clearParams\<close>, \<open>allocArray\<close>,
    \<open>resetTOFArray\<close>, \<open>checkPixelMap\<close>. \<open>Layout\<close>: segments as a locale of disjoint intervals; a successful \<open>allocArray\<close>
    publishes segments that tile the buffer. \<open>Maintenance\<close>: what clearing, resetting and checking do.
  \<^item> \<open>Events\<close>: \<open>eventHandler\<close>, statement by statement. \<open>Integration\<close>: when one event stays inside the buffer. \<open>Histogram\<close>:
    the specification, which cells an event counts in at its raw or transformed time of flight, and that the arithmetic of the code meets it. \<open>Handler\<close>: which updates are
    accepted, and that an accepted one adds exactly the specified counts. \<open>Acquisition\<close>: after an allocation, any sequence of
    updates is safe. \<open>Stamps\<close>: time stamps and sequence numbers along a run. \<open>History\<close>: a specification of whole
    acquisitions (\<open>tally\<close>: accepted events, pulses, charge, last instants) and the simulation by the handler. \<open>Scenario\<close>: a
    configured driver on which the hypotheses of the theorems hold.
  \<^item> \<open>MapFile\<close>: \<open>ADnEDFile.cpp\<close>, with \<open>fgets\<close>, \<open>strtol\<close>, \<open>strtod\<close> and \<open>errno\<close>; reading ends and stays inside the array,
    and reads back what is printed. \<open>Commands\<close>: the write entry points, over the record \<open>ioc\<close> (driver, events, \<open>errno\<close>).
    \<open>CommandProps\<close>: the invariant \<open>drv_inv\<close> (the blocks have the recorded sizes) and that every command keeps it. \<open>CommandSpec\<close>:
    what the commands guarantee.
  \<^item> \<open>Channel\<close>: \<open>nEDChannel.cpp\<close> and \<open>setupChannelMonitor\<close>. \<open>Tasks\<close>: the two threads as step functions from wait to wait and as
    transition relations \<open>event_step\<close> and \<open>frame_step\<close>, with the locks counted. \<open>Sections\<close>: \<open>eventHandler\<close> cut where it takes
    and gives back the mutex. \<open>System\<close>: all parties interleaved (\<open>sys_step\<close>) and the invariant \<open>sys_inv\<close> of the whole.
  \<^item> This theory: the properties of the system.

  \<^bold>\<open>Plugins and records.\<close> \<open>MaskPlugin\<close>, \<open>PixelROI\<close>, \<open>Axis\<close>: one theory per source file, with what each callback computes on its
  arrays, how requests are clamped in 64-bit arithmetic, and that the locks are balanced; the plugins' constructors, and the mask plugin
  as it lives on from there. \<open>Pipeline\<close>: from the updates over the buffer and the frame to the picture that the region plugin shows, and to the spectrum of
  a detector.

  \<^bold>\<open>Start of the program.\<close> \<open>Params\<close>: the strings, types and order of the parameters that the constructors create, over asyn's parameter
  list as locale \<open>param_lists\<close>, and the records of the templates; types agree, and the indices are those that the code compares. \<open>Shell\<close>:
  the iocsh commands with their argument tables, the configuration functions, the client factory and \<open>main\<close>; what a startup file builds.

  \<^bold>\<open>Parameters of the model.\<close> The asyn library, the clock, the time stamps of pvData (\<open>'t pvtime\<close>, locales \<open>pv_time\<close> and \<open>pv_clock\<close>), the
  allocator (by size), \<open>pow\<close>, the results of casts that C++ leaves undefined, the file system, pvAccess (\<open>pvnet\<close>), the pool's
  \<open>copy\<close> and \<open>convert\<close>, \<open>beginProcessCallbacks\<close>, \<open>asynNDArrayDriver::writeOctet\<close>, the constructors of the base classes and the start of the
  client factory are arguments. Each locale is
  interpreted, so its laws can be met.

  \<^bold>\<open>Bounds.\<close> No definition uses fuel, except \<open>handler_run\<close>, whose bound of three sections after the first is shown to be enough by
  the property on the sections. The reader of files recurses on the bytes that are left. Loops over \<open>int\<close> counters are
  recursion over the list of their indices. The two threads run for ever: they are relations, one step per wait.

  \<^bold>\<open>Not modelled.\<close> Trace and debug output (except that the values printed are read inside their arrays), the text of
  exceptions, time stamp and attributes of frames, \<open>report\<close>, the destructors, the
  connection of the plugins to their source of arrays, the processing of records, and the screens and scripts around the driver: they print, or only
  call EPICS. \<open>waitUntilDone\<close> of the monitor requester is never called. The state of a failing \<open>epicsEventWait\<close> is not modelled, nor are data races inside one section.
\<close>

section \<open>From events to a picture\<close>

text \<open>(C2) What the picture of a detector shows. The buffer is allocated on a consistent configuration, any updates arrive on any channels,
  the frame thread copies the buffer, and the region plugin is set to the published segment of a detector that shows pixels. Then
  the plugin delivers a picture of the sides asked for, and at each place it holds the number of events, among those that the
  specification accepts, whose pixel the detector owns and maps to that place: none is lost, counted twice or taken from another detector.\<close>

theorem detector_image:
  assumes "asyn_port A" "pv_clock T" "plugin_port L addrs" "0 < addrs" "extracts convert"
    "alloc_config A (plib s) n tofMax" "m_dataAlloc s" "alloc_ok (buf_len (sizes_of A (plib s)) n tofMax)"
    "\<forall>d\<in>{1..n}. image_config A s d" "\<not> is_paused A s" "allocArray alloc_ok A s = (asynSuccess, s1)"
    "d \<in> {1..n}" "plain_image A s d" "region_of A (plib s1) L d x y (rp_params r)" "x * y = sizes_of A (plib s) d"
    and evs: "evs = t_events (fold (tally_update T False) ups (first_tally T s))"
  shows "\<exists>s2 xs a r' img. run_updates M A T ups s1 = Inr s2 \<and> copy_data s2 = Inr xs
    \<and> roi_processCallbacks L beg convert (frame_array xs) r = (Some a, r') \<and> pData a = NDUInt32 img \<and> length img = x * y
    \<and> ndims a = 2 \<and> unat (d_size (nd_dims a 0)) = x \<and> unat (d_size (nd_dims a 1)) = y
    \<and> (\<forall>k < x * y. img ! k = of_nat (length (filter (shown_at A s d k) evs)))"
proof -
  define S where "S = sizes_of A (plib s)"
  define N where "N = buf_len S n tofMax"
  have "\<forall>d\<in>{1..n}. det_config A s d" using assms(9) by (simp add: image_config_def)
  from allocArray_laid_out [OF assms(1,6-8) this assms(11)] have lo: "laid_out A s n tofMax s1" .
  define xs where "xs = bumps (all_cells M A (loaded A s1) (active_dets A s1) evs) (replicate N 0)"
  obtain s2 where s2: "run_updates M A T ups s1 = Inr s2" "copy_data s2 = Inr xs"
    using frame_after_updates [OF assms(1,2,6) lo assms(9,10) evs] unfolding xs_def N_def S_def by blast
  have len: "length xs = buf_len (sizes_of A (plib s)) n tofMax" by (simp add: xs_def N_def S_def)
  obtain a r' where a: "roi_processCallbacks L beg convert (frame_array xs) r = (Some a, r')"
      "pData a = NDUInt32 (take (S d) (drop (pix_off S d) xs))" "ndims a = 2" "unat (d_size (nd_dims a 0)) = x" "unat (d_size (nd_dims a 1)) = y"
    using region_image [OF assms(3-6) lo assms(12,14,15) len] unfolding S_def by blast
  have inside: "pix_off S d + k < N" if "k < S d" for k
    using that assms(12) lay.cell_inside [of d n k S tofMax] by (simp add: seg_start_def seg_len_def N_def)
  have "S d \<le> N - pix_off S d" by (rule ccontr) (use inside [of "N - pix_off S d"] in simp)
  then have 1: "length (take (S d) (drop (pix_off S d) xs)) = x * y" using len assms(15) by (simp add: N_def S_def)
  moreover have "take (S d) (drop (pix_off S d) xs) ! k = of_nat (length (filter (shown_at A s d k) evs))" if k: "k < x * y" for k
    using k 1 assms(15) inside [of k] image_count [OF assms(6) lo assms(9,12,13), of k M evs]
    by (simp add: xs_def nth_bumps S_def)
  ultimately show ?thesis using s2 a by blast
qed

text \<open>(C3) What the spectrum of a detector shows. Under the same circumstances, the copy of the buffer holds, at the published start of
  the spectrum of a detector plus \<open>j\<close>, the number of events, among those that the specification accepts, whose pixel the detector
  owns and whose time of flight, transformed by the detector's transformation where it has one, is \<open>j\<close> whole units; with the X/Y
  region enabled on mapped pixels, only those in the rectangle.\<close>

theorem detector_spectrum:
  assumes "asyn_port A" "pv_clock T" "alloc_config A (plib s) n tofMax" "m_dataAlloc s"
    "alloc_ok (buf_len (sizes_of A (plib s)) n tofMax)" "\<forall>d\<in>{1..n}. image_config A s d" "\<not> is_paused A s"
    "allocArray alloc_ok A s = (asynSuccess, s1)" "d \<in> {1..n}"
    and evs: "evs = t_events (fold (tally_update T False) ups (first_tally T s))"
    and first: "first = unat (getIntegerParam A (plib s1) d ADnEDDetNDArrayTOFStart)"
  shows "\<exists>s2 xs. run_updates M A T ups s1 = Inr s2 \<and> copy_data s2 = Inr xs \<and> first + tofMax < length xs
    \<and> (\<forall>j\<le>tofMax. xs ! (first + j) = of_nat (length (filter (timed_at M A s tofMax d j) evs)))"
proof -
  define S N where "S = sizes_of A (plib s)" and "N = buf_len S n tofMax"
  have "\<forall>d\<in>{1..n}. det_config A s d" using assms(6) by (simp add: image_config_def)
  from allocArray_laid_out [OF assms(1,3-5) this assms(8)] have lo: "laid_out A s n tofMax s1" .
  obtain s2 where s2: "run_updates M A T ups s1 = Inr s2"
      "copy_data s2 = Inr (bumps (all_cells M A (loaded A s1) (active_dets A s1) evs) (replicate N 0))"
    using frame_after_updates [OF assms(1-3) lo assms(6,7) evs] unfolding N_def S_def by blast
  have "sint (getIntegerParam A (plib s1) d ADnEDDetNDArrayTOFStart) = int (tof_off S n tofMax d)"
    using lo assms(9) by (auto simp: laid_out_def published_def S_def)
  then have "first = tof_off S n tofMax d" using sint32_pos_uint by (simp add: first unat_eq_nat_uint)
  moreover have "tof_off S n tofMax d + j < N" if "j \<le> tofMax" for j
    using that assms(9) lay.cell_inside [of "n + d" n j S tofMax] by (simp add: seg_start_def seg_len_def N_def)
  ultimately show ?thesis
    using s2 spectrum_count [OF assms(3) lo assms(6,9), of _ M evs] by (auto simp: nth_bumps S_def)
qed

text \<open>Detector 1 of the scenario, pixels 10 to 14, as a picture of 5 by 1.\<close>

definition demo_convert :: "NDArray \<Rightarrow> i32 \<Rightarrow> NDDimension list \<Rightarrow> bool \<times> NDArray option" where
  "demo_convert a t ds = (case pData a of
     NDUInt32 xs \<Rightarrow> (True, Some (frame_array (take (unat (d_size (ds ! 0))) (drop (unat (d_offset (ds ! 0))) xs)))) | _ \<Rightarrow> (False, None))"

definition demo_region :: "(nat \<Rightarrow> roi_param \<Rightarrow> i32) roi_plugin" where
  "demo_region = \<lparr>rp_params = (\<lambda>_ q. if q = ADnEDPixelROIDim0Size \<or> q = ADnEDPixelROIDim1Size then 5 else if q = ADnEDPixelROIDim2Size then 1
     else if q = ADnEDPixelROIDataType then -1 else 0), rp_pArrays0 = None, rp_lock = 1\<rparr>"

lemma demo_extracts: "extracts demo_convert"
  unfolding extracts_def
proof (intro allI impI)
  fix xs :: "u32 list" and off seg :: nat
  assume "off + seg \<le> length xs" "length xs < 2 ^ 31"
  then have "unat (of_nat seg :: u64) = seg" "unat (of_nat off :: u64) = off" by (simp_all add: size_of_nat)
  then show "\<exists>out. demo_convert (frame_array xs) (nd_type (NDUInt32 xs)) [\<lparr>d_size = of_nat seg, d_offset = of_nat off, d_binning = 1\<rparr>,
      \<lparr>d_size = 0, d_offset = 0, d_binning = 1\<rparr>] = (True, Some out) \<and> pData out = NDUInt32 (take seg (drop off xs))"
    by (simp add: demo_convert_def frame_array_def)
qed

lemma demo_planned:
  "m_det (planned store_asyn demo_state) (Suc 0) = det_values0\<lparr>m_detStartValues := 10, m_detEndValues := 14, m_detSizeValues := 5,
     m_detPixelROISizeX := 1, m_detPixelROISizeY := 1, m_detPixelSizeX := 2\<rparr>"
  "m_det (planned store_asyn demo_state) 2 = det_values0\<lparr>m_detStartValues := 100, m_detEndValues := 103, m_detSizeValues := 20,
     m_detPixelROISizeX := 1, m_detPixelROISizeY := 1, m_detPixelSizeX := 2\<rparr>"
proof -
  have "getDoubleParam store_asyn demo_store a q = Fin 0" for a q by (simp add: store_asyn_def demo_store_def store0_def)
  then show "m_det (planned store_asyn demo_state) (Suc 0) = det_values0\<lparr>m_detStartValues := 10, m_detEndValues := 14,
       m_detSizeValues := 5, m_detPixelROISizeX := 1, m_detPixelROISizeY := 1, m_detPixelSizeX := 2\<rparr>"
    "m_det (planned store_asyn demo_state) 2 = det_values0\<lparr>m_detStartValues := 100, m_detEndValues := 103, m_detSizeValues := 20,
       m_detPixelROISizeX := 1, m_detPixelROISizeY := 1, m_detPixelSizeX := 2\<rparr>"
    by (simp_all add: planned_def load_det_def det_size_def demo_get demo_ints_def det_values0_def Let_def)
qed

lemma demo_spec_pixel:
  "d = 1 \<or> d = 2 \<Longrightarrow> spec_pixel (planned store_asyn demo_state) d px = unat px - unat (m_detStartValues (m_det (planned store_asyn demo_state) d))"
  using demo_planned by (auto simp: spec_pixel_def det_values0_def Let_def)

lemma demo_image_config: "\<forall>d\<in>{1..2}. image_config store_asyn demo_state d"
proof -
  have "regular_det store_asyn (planned store_asyn demo_state) d" "pixels_inside (planned store_asyn demo_state) d" if "d = 1 \<or> d = 2" for d
    using that demo_planned
    by (auto simp: regular_det_def rect_ok_def det_values0_def Let_def pixels_inside_def demo_spec_pixel in_det_def word_le_nat_alt)
      (auto simp: planned_def demo_get demo_ints_def plot_type_defs)
  then show ?thesis using demo_det_config by (auto simp: one_to_two image_config_def demo_get demo_ints_def)
qed

lemma demo_setup:
  "calloc_ok demo_machine (buf_len (sizes_of store_asyn (plib demo_state)) 2 7)" "alloc_config store_asyn (plib demo_state) 2 7"
  "\<not> is_paused store_asyn demo_state"
  using demo_sizes demo_config by (simp_all add: buf_len_def one_to_two demo_machine_def is_paused_def demo_get demo_ints_def)

lemma demo_allocated:
  "\<exists>s1. allocArray (calloc_ok demo_machine) store_asyn demo_state = (asynSuccess, s1)
    \<and> published store_asyn (plib s1) (sizes_of store_asyn demo_store) 2 7"
  using asyn_port.allocArray_handler_ok [where alloc_ok = "calloc_ok demo_machine", OF st.asyn_port_axioms demo_setup(2) _ demo_alloc(1)
      demo_setup(1)] demo_det_config by (auto simp: one_to_two)

lemma demo_events:
  "[(11, 3), (102, 6), (7, 1)] = t_events (fold (tally_update demo_time False) [(5, 0, run_update, 0)] (first_tally demo_time demo_state))"
  by (simp add: tally_update_def run_update_def complete_def add_packet_def earlier_def instant_def demo_time_def first_tally_def
      events_of_def demo_state_def new_ADnED_def Let_def)

theorem detector_image_witness:
  "\<exists>s1 s2 xs a r' img. allocArray (calloc_ok demo_machine) store_asyn demo_state = (asynSuccess, s1)
    \<and> run_updates demo_machine store_asyn demo_time [(5, 0, run_update, 0)] s1 = Inr s2 \<and> copy_data s2 = Inr xs
    \<and> roi_processCallbacks (fun_params 1) (\<lambda>_ p. p) demo_convert (frame_array xs) demo_region = (Some a, r')
    \<and> pData a = NDUInt32 img \<and> img ! 1 = 1 \<and> img ! 0 = 0"
proof -
  obtain s1 where s1: "allocArray (calloc_ok demo_machine) store_asyn demo_state = (asynSuccess, s1)"
      "published store_asyn (plib s1) (sizes_of store_asyn demo_store) 2 7" using demo_allocated by blast
  have "sint (getIntegerParam store_asyn (plib s1) 1 ADnEDDetNDArrayStart) = int 0"
      "sint (getIntegerParam store_asyn (plib s1) 1 ADnEDDetNDArraySize) = int 5"
    using s1(2) demo_sizes by (auto simp: published_def pix_off_def one_to_two)
  note w = this [THEN word_of_sint]
  have reg: "region_of store_asyn (plib s1) (fun_params 1) 1 5 1 (rp_params demo_region)"
    using w by (simp add: region_of_def demo_region_def fun_params_def)
  have img: "plain_image store_asyn demo_state 1"
    using demo_planned by (simp add: plain_image_def demo_get demo_ints_def det_values0_def plot_type_defs)
  have shown: "filter (shown_at store_asyn demo_state 1 1) [(11, 3), (102, 6), (7, 1)] = [(11, 3)]"
    "filter (shown_at store_asyn demo_state 1 0) [(11, 3), (102, 6), (7, 1)] = []"
    using demo_planned demo_spec_pixel [of 1] by (auto simp: shown_at_def in_det_def det_values0_def)
  have d: "1 \<in> {1..2 :: nat}" "5 * 1 = sizes_of store_asyn (plib demo_state) 1" using demo_sizes by simp_all
  obtain s2 xs a r' img where r: "run_updates demo_machine store_asyn demo_time [(5, 0, run_update, 0)] s1 = Inr s2" "copy_data s2 = Inr xs"
      "roi_processCallbacks (fun_params 1) (\<lambda>_ p. p) demo_convert (frame_array xs) demo_region = (Some a, r')" "pData a = NDUInt32 img"
      "\<forall>k < 5 * 1. img ! k = of_nat (length (filter (shown_at store_asyn demo_state 1 k) [(11, 3), (102, 6), (7, 1)]))"
    using detector_image [OF st.asyn_port_axioms dt.pv_clock_axioms fp.plugin_port_axioms [of 1] zero_less_one demo_extracts demo_setup(2)
      demo_alloc(1) demo_setup(1) demo_image_config demo_setup(3) s1(1) d(1) img reg d(2) demo_events, of demo_machine "\<lambda>_ p. p"] by blast
  have "img ! 1 = 1" "img ! 0 = 0" using r(5) [rule_format, of 1] r(5) [rule_format, of 0] unfolding shown by simp_all
  with s1(1) r show ?thesis by blast
qed

theorem detector_spectrum_witness:
  "\<exists>s1 s2 xs. allocArray (calloc_ok demo_machine) store_asyn demo_state = (asynSuccess, s1)
    \<and> run_updates demo_machine store_asyn demo_time [(5, 0, run_update, 0)] s1 = Inr s2 \<and> copy_data s2 = Inr xs
    \<and> xs ! (25 + 3) = 1 \<and> xs ! (25 + 6) = 0"
proof -
  obtain s1 where s1: "allocArray (calloc_ok demo_machine) store_asyn demo_state = (asynSuccess, s1)"
      "published store_asyn (plib s1) (sizes_of store_asyn demo_store) 2 7" using demo_allocated by blast
  have "sint (getIntegerParam store_asyn (plib s1) 1 ADnEDDetNDArrayTOFStart) = int 25"
    using s1(2) demo_sizes by (auto simp: published_def tof_off_def one_to_two)
  from word_of_sint [OF this] have first: "25 = unat (getIntegerParam store_asyn (plib s1) 1 ADnEDDetNDArrayTOFStart)" by simp
  have v: "m_detTOFTransType (m_det (planned store_asyn demo_state) 1) = 0" using demo_planned by (simp add: det_values0_def)
  have timed: "filter (timed_at demo_machine store_asyn demo_state 7 1 3) [(11, 3), (102, 6), (7, 1)] = [(11, 3)]"
    "filter (timed_at demo_machine store_asyn demo_state 7 1 6) [(11, 3), (102, 6), (7, 1)] = []"
    using demo_planned raw_time(1) [OF v] by (auto simp: timed_at_def in_det_def det_values0_def recorded_time_def Let_def)
  have d: "1 \<in> {1..2 :: nat}" by simp
  obtain s2 xs where r: "run_updates demo_machine store_asyn demo_time [(5, 0, run_update, 0)] s1 = Inr s2" "copy_data s2 = Inr xs"
      "\<forall>j\<le>7. xs ! (25 + j) = of_nat (length (filter (timed_at demo_machine store_asyn demo_state 7 1 j) [(11, 3), (102, 6), (7, 1)]))"
    using detector_spectrum [OF st.asyn_port_axioms dt.pv_clock_axioms demo_setup(2) demo_alloc(1) demo_setup(1) demo_image_config
      demo_setup(3) s1(1) d demo_events first, of demo_machine] by blast
  have "xs ! (25 + 3) = 1" "xs ! (25 + 6) = 0" using r(3) [rule_format, of 3] r(3) [rule_format, of 6] unfolding timed by simp_all
  with s1(1) r show ?thesis by blast
qed

section \<open>The system\<close>



text \<open>(C9) A start and a stop. When the buffer can be had and every configured PV connects, the event thread answers a start by
  reaching its wait for a stop: the status says \<open>Acquire\<close>, the start parameter is back to 0, the buffer is all zeros, the
  frame thread has been signalled, and every channel whose name does not begin with the digit 0 has a running monitor on the
  PV of that name. Whatever happens up to the stop, the thread answers it by going back to idle: the status says \<open>Idle\<close>, the stop
  parameter is back to 0, all rates are 0, the frame thread has been signalled, the monitors are stopped and the collected data are
  left as they are. Lock and unlock are balanced.\<close>

theorem acquisition_cycle:
  assumes "asyn_port A" "drv_inv (drv s)" "mon_inv c" "can_connect N c" "allocArray (calloc_ok M) A (drv s) = (asynSuccess, d1)"
    and nc: "nc = clamp_max ADNED_MAX_CHANNELS (getIntegerParam A (plib (drv s)) 0 ADnEDNumChannels)"
    and name: "name = (\<lambda>ch. getStringParam A (plib (drv s)) ch ADnEDPVName)"
    and "\<forall>ch\<in>set (chan_range nc). connects N ch (name ch) \<and> is_connected N ch (name ch)"
    and "sint (getIntegerParam A (plib (drv t)) 0 ADnEDNumDet) \<le> int ADNED_MAX_DETS"
  shows "\<exists>e1 c1 s1 e2 c2 s2. et_started M A N (e, c, s) = Inr (e1, c1, s1) \<and> et_stopped A (e1, c1, t) = (e2, c2, s2)
     \<and> et_pc e1 = Wait_Stop \<and> et_lock e1 = et_lock e
     \<and> getIntegerParam A (plib (drv s1)) 0 ADStatus = ADStatusAcquire \<and> getIntegerParam A (plib (drv s1)) 0 ADnEDStart = 0
     \<and> p_Data (drv s1) = map_option (\<lambda>xs. replicate (length xs) 0) (p_Data d1) \<and> ev_startFrame s1
     \<and> (\<forall>ch\<in>set (chan_range nc). wanted (name ch) \<longrightarrow> p_Monitor c1 ch = Some (name ch) \<and> mon_started c1 ch \<and> \<not> mon_started c2 ch)
     \<and> et_pc e2 = Wait_Idle \<and> et_lock e2 = et_lock e
     \<and> getIntegerParam A (plib (drv s2)) 0 ADStatus = ADStatusIdle \<and> getIntegerParam A (plib (drv s2)) 0 ADnEDStop = 0
     \<and> getIntegerParam A (plib (drv s2)) 0 ADnEDEventRate = 0
     \<and> (\<forall>d\<in>set (det_range (getIntegerParam A (plib (drv t)) 0 ADnEDNumDet)). getIntegerParam A (plib (drv s2)) d ADnEDDetEventRate = 0)
     \<and> p_Data (drv s2) = p_Data (drv t) \<and> ev_stopFrame s2"
proof -
  from asyn_port.start_ok [OF assms(1-5) nc name, where e = e] assms(8)
  obtain c1 s1 e1 where 1: "et_started M A N (e, c, s) = Inr (e1, c1, s1)"
      "e1 = e\<lparr>et_pc := Wait_Stop, et_acquire := True, et_error := False, et_numChannels := nc\<rparr>"
      "getIntegerParam A (plib (drv s1)) 0 ADStatus = ADStatusAcquire" "getIntegerParam A (plib (drv s1)) 0 ADnEDStart = 0"
      "p_Data (drv s1) = map_option (\<lambda>xs. replicate (length xs) 0) (p_Data d1)" "ev_startFrame s1"
      "\<forall>ch\<in>set (chan_range nc). wanted (name ch) \<longrightarrow> p_Monitor c1 ch = Some (name ch) \<and> mon_started c1 ch"
    by blast
  from asyn_port.stop_ok [OF assms(1,9), of e1 c1]
  obtain c2 s2 e2 where 2: "et_stopped A (e1, c1, t) = (e2, c2, s2)" "e2 = e1\<lparr>et_acquire := False, et_pc := Wait_Idle\<rparr>"
      "getIntegerParam A (plib (drv s2)) 0 ADStatus = ADStatusIdle" "getIntegerParam A (plib (drv s2)) 0 ADnEDStop = 0"
      "getIntegerParam A (plib (drv s2)) 0 ADnEDEventRate = 0"
      "\<forall>d\<in>set (det_range (getIntegerParam A (plib (drv t)) 0 ADnEDNumDet)). getIntegerParam A (plib (drv s2)) d ADnEDDetEventRate = 0"
      "p_Data (drv s2) = p_Data (drv t)" "ev_stopFrame s2"
      "\<forall>ch\<in>set (chan_range (et_numChannels e1)). p_Monitor c1 ch \<noteq> None \<longrightarrow> \<not> mon_started c2 ch"
    by blast
  show ?thesis
    by (rule exI [of _ e1], rule exI [of _ c1], rule exI [of _ s1], rule exI [of _ e2], rule exI [of _ c2], rule exI [of _ s2])
      (use 1 2 in auto)
qed

definition named_ioc :: "(pstore, int \<times> int \<times> i32) ioc" where
  "named_ioc = new_ioc (run_state\<lparr>plib := setS store_asyn 0 ADnEDPVName ''a'' (setI store_asyn 0 NDArrayCallbacks 1 (plib run_state))\<rparr>)"

lemma named_get:
  "getIntegerParam store_asyn (plib (drv named_ioc)) a q = (if a = 0 \<and> q = NDArrayCallbacks then 1 else run_ints a q)"
  "getStringParam store_asyn (plib (drv named_ioc)) 0 ADnEDPVName = ''a''"
  "\<not> m_dataAlloc (drv named_ioc)" "p_Data (drv named_ioc) = Some (replicate 41 0)" "m_bufferMaxSize (drv named_ioc) = 41"
  by (simp_all add: named_ioc_def new_ioc_def st.port_laws run_get) (simp add: run_state_def)

lemma named_inv: "drv_inv (drv named_ioc)"
  using run_inv by (simp add: named_ioc_def new_ioc_def)

lemma named_alloc: "allocArray ok store_asyn (drv named_ioc) = (asynSuccess, drv named_ioc)"
  by (simp add: allocArray_def named_get)

lemma named_channels: "chan_range (clamp_max ADNED_MAX_CHANNELS (getIntegerParam store_asyn (plib (drv named_ioc)) 0 ADnEDNumChannels)) = [0]"
  by (simp add: named_get run_ints_def demo_ints_def clamp_max_def chan_range_def)

theorem acquisition_cycle_witness:
  "\<exists>e1 c1 s1 e2 c2 s2. et_started demo_machine store_asyn (demo_net [''a'']) (new_event_task, new_chans, named_ioc) = Inr (e1, c1, s1)
    \<and> et_stopped store_asyn (e1, c1, named_ioc) = (e2, c2, s2)
    \<and> et_pc e1 = Wait_Stop \<and> p_Monitor c1 0 = Some ''a'' \<and> mon_started c1 0 \<and> \<not> mon_started c2 0 \<and> et_pc e2 = Wait_Idle"
proof -
  have c: "mon_inv new_chans" "can_connect (demo_net [''a'']) new_chans"
    by (simp_all add: mon_inv_def can_connect_def new_chans_def demo_net_def)
  have up: "\<forall>ch\<in>set (chan_range (clamp_max ADNED_MAX_CHANNELS (getIntegerParam store_asyn (plib (drv named_ioc)) 0 ADnEDNumChannels))).
      connects (demo_net [''a'']) ch (getStringParam store_asyn (plib (drv named_ioc)) ch ADnEDPVName)
      \<and> is_connected (demo_net [''a'']) ch (getStringParam store_asyn (plib (drv named_ioc)) ch ADnEDPVName)"
    unfolding named_channels by (simp add: named_get demo_net_def)
  have "sint (getIntegerParam store_asyn (plib (drv named_ioc)) 0 ADnEDNumDet) \<le> int ADNED_MAX_DETS"
    by (simp add: named_get run_ints_def demo_ints_def)
  from acquisition_cycle [OF st.asyn_port_axioms named_inv c named_alloc refl refl up this, of demo_machine new_event_task] show ?thesis
    unfolding named_channels by (elim exE conjE) (intro exI conjI, assumption+, simp_all add: named_get wanted_def)
qed

text \<open>(C39) A start that cannot have its buffer. The event thread reports the error and goes back to idle: the status says \<open>Error\<close>,
  the message says why, the start parameter is back to 0, the frame thread is left alone. But on this path it calls \<open>unlock()\<close>
  once more than \<open>lock()\<close>: it gives back a mutex that it does not hold.\<close>

theorem failed_start:
  assumes "asyn_port A" "allocArray (calloc_ok M) A (drv s) = (asynError, d1)"
    "sint (getIntegerParam A (plib d1) 0 ADnEDNumDet) \<le> int ADNED_MAX_DETS"
  shows "\<exists>e' c' s'. et_started M A N (e, c, s) = Inr (e', c', s') \<and> et_pc e' = Wait_Idle \<and> et_error e'
     \<and> getIntegerParam A (plib (drv s')) 0 ADStatus = ADStatusError \<and> getIntegerParam A (plib (drv s')) 0 ADnEDStart = 0
     \<and> getStringParam A (plib (drv s')) 0 ADStatusMessage = ''allocArray Error'' \<and> p_Data (drv s') = p_Data d1
     \<and> ev_startFrame s' = ev_startFrame s \<and> et_lock e' = et_lock e - 1"
  using asyn_port.failed_start_ok [OF assms(1,2) refl assms(3), of N e c] by fastforce

theorem failed_start_witness:
  "\<exists>e' c' s'. et_started demo_machine store_asyn (demo_net []) (new_event_task, new_chans,
       new_ioc (demo_state\<lparr>plib := setI store_asyn 0 ADnEDNumDet 0 demo_store\<rparr>)) = Inr (e', c', s')
     \<and> et_pc e' = Wait_Idle \<and> getIntegerParam store_asyn (plib (drv s')) 0 ADStatus = ADStatusError \<and> et_lock e' = -1"
proof -
  have "allocArray (calloc_ok demo_machine) store_asyn (drv (new_ioc (demo_state\<lparr>plib := setI store_asyn 0 ADnEDNumDet 0 demo_store\<rparr>)))
      = (asynError, demo_state\<lparr>plib := setI store_asyn 0 ADnEDNumDet 0 demo_store, m_tofMax := 7\<rparr>)"
    by (simp add: allocArray_def new_ioc_def st.port_laws demo_get demo_ints_def)
  from failed_start [OF st.asyn_port_axioms this, of "demo_net []" new_event_task new_chans] show ?thesis
    by (auto simp: st.port_laws new_event_task_def)
qed

section \<open>Frames\<close>

lemma ft_frame_ok:
  assumes "asyn_port A" "buf_inv (drv s)" "p_Data (drv s) = Some xs" "getIntegerParam A (plib (drv s)) 0 NDArrayCallbacks \<noteq> 0"
    "pool (length xs)"
  shows "ft_frame pool A (f, out, s) =
    Inr (f\<lparr>ft_counter := ft_counter f + 1, ft_lock := ft_lock f + 1\<rparr>, out @ [(ft_counter f + 1, xs)],
      s\<lparr>drv := upd_plib (\<lambda>p. calls A 0 (setI A 0 NDArrayCounter (ft_counter f + 1) p)) (drv s)\<rparr>)"
  using assms by (auto simp: ft_frame_def copy_data_def buf_inv_def Let_def)

lemma frames_run:
  assumes "asyn_port A" "pool (length xs)"
  shows "buf_inv (drv s) \<Longrightarrow> p_Data (drv s) = Some xs \<Longrightarrow> getIntegerParam A (plib (drv s)) 0 NDArrayCallbacks \<noteq> 0 \<Longrightarrow>
    getIntegerParam A (plib (drv s)) 0 NDArrayCounter = ft_counter f \<Longrightarrow>
    \<exists>f' s'. foldR (\<lambda>_. ft_frame pool A) ks (f, out, s) = Inr (f', out @ map (\<lambda>i. (ft_counter f + of_nat i, xs)) [1..<Suc (length ks)], s')
      \<and> getIntegerParam A (plib (drv s')) 0 NDArrayCounter = ft_counter f + of_nat (length ks)
      \<and> p_Data (drv s') = Some xs \<and> ft_lock f' = ft_lock f + int (length ks) \<and> ft_pc f' = ft_pc f"
proof (induction ks arbitrary: f out s)
  case (Cons k ks)
  define f1 s1 where "f1 = f\<lparr>ft_counter := ft_counter f + 1, ft_lock := ft_lock f + 1\<rparr>"
    and "s1 = s\<lparr>drv := upd_plib (\<lambda>p. calls A 0 (setI A 0 NDArrayCounter (ft_counter f + 1) p)) (drv s)\<rparr>"
  have 1: "ft_frame pool A (f, out, s) = Inr (f1, out @ [(ft_counter f + 1, xs)], s1)"
    unfolding f1_def s1_def by (rule ft_frame_ok) (use assms Cons.prems in simp_all)
  have "buf_inv (drv s1)" using Cons.prems(1) by (simp add: s1_def buf_inv_def cong: option.case_cong)
  with Cons.IH [of s1 f1 "out @ [(ft_counter f + 1, xs)]"] Cons.prems
  obtain f' s' where 2: "foldR (\<lambda>_. ft_frame pool A) ks (f1, out @ [(ft_counter f + 1, xs)], s1) =
        Inr (f', out @ [(ft_counter f + 1, xs)] @ map (\<lambda>i. (ft_counter f + 1 + of_nat i, xs)) [1..<Suc (length ks)], s')"
      "getIntegerParam A (plib (drv s')) 0 NDArrayCounter = ft_counter f + 1 + of_nat (length ks)"
      "p_Data (drv s') = Some xs" "ft_lock f' = ft_lock f + 1 + int (length ks)" "ft_pc f' = ft_pc f"
    by (auto simp: s1_def f1_def asyn_port.port_laws [OF assms(1)] simp del: upt_Suc)
  have "[(ft_counter f + 1, xs)] @ map (\<lambda>i. (ft_counter f + 1 + of_nat i, xs)) [1..<Suc (length ks)]
      = map (\<lambda>i. (ft_counter f + of_nat i, xs)) [1..<Suc (length (k # ks))]"
    unfolding length_Cons by (subst (2) upt_conv_Cons) (simp_all flip: map_Suc_upt add: o_def add.assoc del: upt_Suc)
  with 1 2 show ?case by (simp add: algebra_simps del: upt_Suc)
qed (simp del: upt_Suc)

text \<open>(C21) The frames of an acquisition. With array callbacks enabled, a buffer of the recorded size and arrays in the pool, the
  frame thread runs for as many periods as it likes without a fault; in \<open>k\<close> periods after a start it delivers \<open>k\<close> arrays,
  numbered from 1, each a copy of the whole buffer, and the array counter says \<open>k\<close>; the buffer is left as it is.\<close>

theorem frames_numbered:
  assumes "asyn_port A" "buf_inv (drv s)" "p_Data (drv s) = Some xs" "getIntegerParam A (plib (drv s)) 0 NDArrayCallbacks \<noteq> 0"
    "pool (length xs)"
  shows "\<exists>f' s'. foldR (\<lambda>_. ft_frame pool A) [0..<k] (ft_started A (f, out, s)) =
      Inr (f', out @ map (\<lambda>i. (of_nat i, xs)) [1..<Suc k], s')
    \<and> getIntegerParam A (plib (drv s')) 0 NDArrayCounter = of_nat k \<and> p_Data (drv s') = Some xs \<and> ft_pc f' = Frame_Acquire"
proof -
  define f1 s1 where "f1 = f\<lparr>ft_pc := Frame_Acquire, ft_counter := 0\<rparr>"
    and "s1 = s\<lparr>ev_startFrame := False, drv := upd_plib (\<lambda>p. calls A 0 (setI A 0 NDArrayCounter 0 p)) (drv s)\<rparr>"
  have st: "ft_started A (f, out, s) = (f1, out, s1)" by (simp add: ft_started_def f1_def s1_def)
  have "buf_inv (drv s1)" using assms(2) by (simp add: s1_def buf_inv_def cong: option.case_cong)
  then show ?thesis
    using frames_run [where pool = pool and xs = xs and s = s1 and f = f1 and ks = "[0..<k]" and out = out, OF assms(1,5)] assms(3,4)
    by (auto simp: st s1_def f1_def asyn_port.port_laws [OF assms(1)] simp del: upt_Suc)
qed

theorem frames_numbered_witness:
  "\<exists>f' s'. foldR (\<lambda>_. ft_frame (\<lambda>n. n < 100) store_asyn) [0..<2] (ft_started store_asyn (new_frame_task, [], named_ioc)) =
      Inr (f', [(1, replicate 41 0), (2, replicate 41 0)], s') \<and> ft_pc f' = Frame_Acquire"
proof -
  have "buf_inv (drv named_ioc)" using named_inv by (simp add: drv_inv_def)
  from frames_numbered [OF st.asyn_port_axioms this, of "replicate 41 0" "\<lambda>n. n < 100" 2 new_frame_task "[]"] show ?thesis
    by (auto simp: named_get eval_nat_numeral)
qed

text \<open>One step of the system once an array has been delivered.\<close>

lemma stalled_step:
  assumes "asyn_port A" "sys_inv x" "arrays x \<noteq> []" "sys_step M uf A T F tail base x y"
  shows "evt y = evt x \<and> arrays y \<noteq> [] \<and> p_Data (drv (sioc y)) = p_Data (drv (sioc x))
    \<and> (\<forall>a q. q \<noteq> NDArrayCounter \<longrightarrow> getIntegerParam A (plib (drv (sioc y))) a q = getIntegerParam A (plib (drv (sioc x))) a q)"
proof -
  have held: "\<not> mutex_free x" using assms(2,3) by (cases "arrays x") (auto simp: mutex_free_def sys_inv_def)
  from assms(4) show ?thesis
  proof (cases rule: sys_step.cases)
    case (frame pool f out s)
    from frame(2) assms(3) show ?thesis
      by (elim frame_stepE) (auto simp: frame(1) ft_idle_def ft_started_def ft_frame_def res_bind_def Let_def
          asyn_port.port_laws [OF assms(1)] split: if_splits sum.splits)
  next
    case (check ch h pc d)
    then show ?thesis using assms(3) by (auto simp: set_drv_def elim!: hs_check_keeps)
  qed (use held assms(3) in \<open>auto simp: channelStateChange_def monitorConnect_def\<close>)
qed

text \<open>(C17) The first frame stops the driver. The frame thread takes the mutex once more for each array that it delivers, and
  never gives that hold back. So once a first array has been delivered, no other party gets the mutex: in every continuation the
  event thread stays where it is, a stop that has been requested is never answered, no update is integrated and no
  parameter changes but the array counter.\<close>

theorem first_frame_stalls:
  assumes "asyn_port A" "clean_files F" "sys_inv x" "arrays x \<noteq> []" "(sys_step M uf A T F tail base)\<^sup>*\<^sup>* x y"
  shows "evt y = evt x \<and> p_Data (drv (sioc y)) = p_Data (drv (sioc x))
    \<and> (\<forall>a q. q \<noteq> NDArrayCounter \<longrightarrow> getIntegerParam A (plib (drv (sioc y))) a q = getIntegerParam A (plib (drv (sioc x))) a q)"
proof -
  from assms(5) have "sys_inv y \<and> arrays y \<noteq> [] \<and> evt y = evt x \<and> p_Data (drv (sioc y)) = p_Data (drv (sioc x))
    \<and> (\<forall>a q. q \<noteq> NDArrayCounter \<longrightarrow> getIntegerParam A (plib (drv (sioc y))) a q = getIntegerParam A (plib (drv (sioc x))) a q)"
  proof (induction rule: rtranclp_induct)
    case base
    then show ?case using assms(3,4) by simp
  next
    case (step y z)
    then show ?case using stalled_step [OF assms(1) _ _ step(2)] sys_step_inv [OF assms(2) step(2)] by auto
  qed
  then show ?thesis by blast
qed

theorem first_frame_stalls_witness:
  "\<exists>x y. sys_inv x \<and> et_pc (evt x) = Wait_Stop \<and> ev_stop (sioc x)
    \<and> (sys_step demo_machine (\<lambda>_. False) store_asyn demo_time (demo_files ''xyz'') [] (\<lambda>_ _ _ p. (asynSuccess, p)))\<^sup>*\<^sup>* x y
    \<and> length (arrays y) = 2 \<and> et_pc (evt y) = Wait_Stop"
proof -
  let ?step = "sys_step demo_machine (\<lambda>_. False) store_asyn demo_time (demo_files ''xyz'') [] (\<lambda>_ _ _ p. (asynSuccess, p))"
  define x where "x = \<lparr>evt = new_event_task\<lparr>et_pc := Wait_Stop\<rparr>, frm = \<lparr>ft_pc = Frame_Acquire, ft_counter = 1, ft_lock = 2\<rparr>,
    hnd = (\<lambda>_. H_Done), net = new_chans, arrays = [(1, replicate 41 0)], sioc = named_ioc\<lparr>ev_stop := True\<rparr>\<rparr>"
  have inv: "sys_inv x" "arrays x \<noteq> []" using named_inv by (simp_all add: x_def sys_inv_def new_event_task_def)
  have "buf_inv (drv (sioc x))" using named_inv by (simp add: x_def drv_inv_def)
  then obtain f s where f: "ft_frame (\<lambda>n. n < 100) store_asyn (frm x, arrays x, sioc x) = Inr (f, arrays x @ [(2, replicate 41 0)], s)"
    using ft_frame_ok [OF st.asyn_port_axioms, of "sioc x" "replicate 41 0" "\<lambda>n. n < 100" "frm x" "arrays x"]
    by (simp add: x_def named_get)
  have "\<not> ev_stopFrame (sioc x)" by (simp add: x_def named_ioc_def new_ioc_def)
  then have "frame_step (\<lambda>n. n < 100) store_asyn (frm x, arrays x, sioc x) (f, arrays x @ [(2, replicate 41 0)], s)"
    using f by (intro frame_step.frame) (simp_all add: x_def)
  then have "?step x (x\<lparr>frm := f, arrays := arrays x @ [(2, replicate 41 0)], sioc := s\<rparr>)" by (rule sys_step.frame)
  then have r: "?step\<^sup>*\<^sup>* x (x\<lparr>frm := f, arrays := arrays x @ [(2, replicate 41 0)], sioc := s\<rparr>)" by blast
  have "clean_files (demo_files ''xyz'')" by (simp add: clean_files_def demo_files_def NUL_def)
  from first_frame_stalls [OF st.asyn_port_axioms this inv r] r inv show ?thesis
    by (intro exI [of _ x] exI [of _ "x\<lparr>frm := f, arrays := arrays x @ [(2, replicate 41 0)], sioc := s\<rparr>"]) (simp add: x_def)
qed

end
